theory Spec2Isabelle
  imports Main "HOL-Library.Word" "HOL-Library.Sublist"
begin

unbundle bit_operations_syntax

section \<open>C library strings and numbers used by serial/manager.c\<close>

text \<open>
  C strings are modelled as \<open>string\<close> (the bytes before the terminating NUL).
  The character functions are those of the C locale, in which the daemon runs.
\<close>

definition tolower_c :: "char \<Rightarrow> char" where
  "tolower_c c = (let n = (of_char c :: nat) in if 65 \<le> n \<and> n \<le> 90 then char_of (n + 32) else c)"

definition isspace_c :: "char \<Rightarrow> bool" where
  "isspace_c c = (let n = (of_char c :: nat) in n = 32 \<or> (9 \<le> n \<and> n \<le> 13))"

text \<open>\<open>strcasecmp\<close>: the difference of the first pair of bytes that differ after
  lower-casing; the end of a string counts as the byte 0.\<close>

fun strcasecmp :: "string \<Rightarrow> string \<Rightarrow> int" where
  "strcasecmp [] [] = 0"
| "strcasecmp [] (b # bs) = - int (of_char (tolower_c b))"
| "strcasecmp (a # as) [] = int (of_char (tolower_c a))"
| "strcasecmp (a # as) (b # bs) =
     (if tolower_c a = tolower_c b then strcasecmp as bs
      else int (of_char (tolower_c a)) - int (of_char (tolower_c b)))"

text \<open>\<open>strncasecmp\<close>: the same over at most \<open>n\<close> bytes.\<close>

fun strncasecmp :: "string \<Rightarrow> string \<Rightarrow> nat \<Rightarrow> int" where
  "strncasecmp a b 0 = 0"
| "strncasecmp [] [] (Suc n) = 0"
| "strncasecmp [] (b # bs) (Suc n) = - int (of_char (tolower_c b))"
| "strncasecmp (a # as) [] (Suc n) = int (of_char (tolower_c a))"
| "strncasecmp (a # as) (b # bs) (Suc n) =
     (if tolower_c a = tolower_c b then strncasecmp as bs n
      else int (of_char (tolower_c a)) - int (of_char (tolower_c b)))"

text \<open>\<open>strcmp\<close> and \<open>strncmp\<close> are only ever tested against 0 in this file.\<close>

definition strcmp_eq :: "string \<Rightarrow> string \<Rightarrow> bool" where
  "strcmp_eq a b = (a = b)"

definition strncmp_eq :: "string \<Rightarrow> string \<Rightarrow> nat \<Rightarrow> bool" where
  "strncmp_eq a b n = (take n a = take n b)"

subsection \<open>strtol with base 0\<close>

definition LONG_MAX :: int where "LONG_MAX = 2 ^ 63 - 1"
definition LONG_MIN :: int where "LONG_MIN = - (2 ^ 63)"
definition ERANGE :: int where "ERANGE = 34"
definition EINVAL :: int where "EINVAL = 22"
definition EIO :: int where "EIO = 5"
definition EAGAIN :: int where "EAGAIN = 11"
definition EINPROGRESS :: int where "EINPROGRESS = 115"

definition digit_of :: "char \<Rightarrow> nat option" where
  "digit_of c = (let n = (of_char c :: nat) in
     if 48 \<le> n \<and> n \<le> 57 then Some (n - 48)
     else if 97 \<le> n \<and> n \<le> 122 then Some (n - 87)
     else if 65 \<le> n \<and> n \<le> 90 then Some (n - 55)
     else None)"

definition is_digit_in :: "nat \<Rightarrow> char \<Rightarrow> bool" where
  "is_digit_in b c = (case digit_of c of None \<Rightarrow> False | Some d \<Rightarrow> d < b)"

text \<open>The digits of the subject sequence: the value accumulated so far and the number
  of bytes consumed.\<close>

fun scan_digits :: "nat \<Rightarrow> string \<Rightarrow> int \<Rightarrow> nat \<Rightarrow> int \<times> nat" where
  "scan_digits b [] acc n = (acc, n)"
| "scan_digits b (c # cs) acc n =
     (case digit_of c of
        None \<Rightarrow> (acc, n)
      | Some d \<Rightarrow> if d < b then scan_digits b cs (acc * int b + int d) (Suc n) else (acc, n))"

text \<open>
  \<open>strtol (s, &endptr, 0)\<close> on an LP64 platform: white space, an optional sign, then
  hexadecimal after \<open>0x\<close> followed by a hexadecimal digit, octal after \<open>0\<close>, decimal
  otherwise. The result is the value, \<open>endptr - s\<close> (0 when nothing was converted), and
  the value left in \<open>errno\<close> (0 or \<open>ERANGE\<close>, the value being clamped then).
\<close>

definition strtol0 :: "string \<Rightarrow> int \<times> nat \<times> int" where
  "strtol0 s =
    (let ws = length (takeWhile isspace_c s);
         s1 = drop ws s;
         neg = (case s1 of [] \<Rightarrow> False | c # _ \<Rightarrow> c = CHR ''-'');
         sg = (case s1 of [] \<Rightarrow> 0 | c # _ \<Rightarrow> if c = CHR ''-'' \<or> c = CHR ''+'' then 1 else (0::nat));
         s2 = drop sg s1;
         hex = (case s2 of z # x # h # _ \<Rightarrow>
                   z = CHR ''0'' \<and> (x = CHR ''x'' \<or> x = CHR ''X'') \<and> is_digit_in 16 h
                | _ \<Rightarrow> False);
         base = (if hex then 16 else case s2 of [] \<Rightarrow> 10 | z # _ \<Rightarrow> if z = CHR ''0'' then 8 else 10);
         pre = (if hex then 2 else 0);
         r = scan_digits base (drop pre s2) 0 0;
         mag = fst r;
         e = ws + sg + pre + snd r
     in if snd r = 0 then (0, 0, 0)
        else if neg then (if mag > 2 ^ 63 then (LONG_MIN, e, ERANGE) else (- mag, e, 0))
        else (if mag > LONG_MAX then (LONG_MAX, e, ERANGE) else (mag, e, 0)))"

section \<open>Pattern resolver\<close>

text \<open>The service classes of \<open>serial_services\<close>, with the values of bluetooth/sdp.h.\<close>

definition serial_services :: "(string \<times> 16 word) list" where
  "serial_services =
    [(''vcp'', 0x110f), (''pbap'', 0x1130), (''sap'', 0x112d), (''ftp'', 0x1106),
     (''bpp'', 0x1122), (''bip'', 0x111a), (''synch'', 0x1104), (''dun'', 0x1103),
     (''opp'', 0x1105), (''fax'', 0x1111), (''spp'', 0x1101)]"

fun str2class_loop :: "(string \<times> 16 word) list \<Rightarrow> string \<Rightarrow> 16 word" where
  "str2class_loop [] pattern = 0"
| "str2class_loop ((name, cls) # rest) pattern =
     (if strcasecmp name pattern = 0 then cls else str2class_loop rest pattern)"

definition str2class :: "string \<Rightarrow> 16 word" where
  "str2class pattern = str2class_loop serial_services pattern"

definition BASE_UUID :: string where
  "BASE_UUID = ''00000000-0000-1000-8000-00805F9B34FB''"

text \<open>The UUID string handed to the discovery service: the 128-bit form of a 16-bit
  service class (built by the SDP library), or the pattern itself.\<close>

datatype uuid_str = ClassUuid "16 word" | PatternUuid string

definition pattern2uuid128 :: "string \<Rightarrow> int + uuid_str" where
  "pattern2uuid128 pattern =
    (let cls = str2class pattern in
     if cls \<noteq> 0 then Inr (ClassUuid cls)
     else if length pattern = 36 \<and> strncasecmp BASE_UUID pattern 3 = 0
             \<and> strncasecmp (drop 8 BASE_UUID) (drop 8 pattern) 28 = 0
       then Inr (PatternUuid pattern)
     else Inl (- EINVAL))"

definition pattern2long :: "string \<Rightarrow> int + int" where
  "pattern2long pattern =
    (case strtol0 pattern of (val, endp, errno) \<Rightarrow>
       if (errno = ERANGE \<and> (val = LONG_MAX \<or> val = LONG_MIN))
          \<or> (errno \<noteq> 0 \<and> val = 0) \<or> endp = 0
       then Inl (- EINVAL) else Inr val)"


text \<open>\<open>snprintf (buf, n, "...%d", i)\<close>: the decimal digits of \<open>i\<close>, the output cut to
  \<open>n - 1\<close> bytes.\<close>

fun dec_nat :: "nat \<Rightarrow> string" where
  "dec_nat n = (if n < 10 then [char_of (48 + n)] else dec_nat (n div 10) @ [char_of (48 + n mod 10)])"

definition dec_int :: "int \<Rightarrow> string" where
  "dec_int i = (if i < 0 then CHR ''-'' # dec_nat (nat (- i)) else dec_nat (nat i))"

section \<open>Data model\<close>

text \<open>A D-Bus method call, as far as the manager reads it: its serial number, the
  unique name of its sender and the member called.\<close>

record dbus_message =
  msg_serial :: nat
  msg_sender :: string
  msg_member :: string

definition dbus_message_has_member :: "dbus_message \<Rightarrow> string \<Rightarrow> bool" where
  "dbus_message_has_member m name = (msg_member m = name)"

text \<open>
  \<open>struct pending_connect\<close>. \<open>pc_ref\<close> is the address of the structure (callbacks
  receive it as their \<open>data\<close> pointer and \<open>g_slist_find\<close> compares it); \<open>pc_io\<close> is
  the descriptor wrapped by the \<open>GIOChannel\<close>, \<open>None\<close> for \<open>NULL\<close>; \<open>pc_dev\<close> is
  empty while the C field is \<open>NULL\<close> (it is read only after it has been set).
  The single D-Bus connection \<open>conn\<close> is left implicit.
\<close>

record pending_connect =
  pc_ref :: nat
  pc_msg :: dbus_message
  pc_bda :: string
  pc_adapter_path :: string
  pc_pattern :: string
  pc_src :: string
  pc_channel :: "8 word"
  pc_io_id :: nat
  pc_io :: "int option"
  pc_dev :: string
  pc_id :: int
  pc_ntries :: int
  pc_canceled :: int

text \<open>The replies built by the helpers of error.c and by
  \<open>dbus_message_new_method_return\<close>.\<close>

datatype reply =
    MethodReturn "string list"
  | ErrInProgress string
  | ErrFailed string
  | ErrFailedErrno int
  | ErrNotSupported
  | ErrInvalidArguments string
  | ErrConnectionAttemptFailed int
  | ErrCanceled string
  | ErrDoesNotExist string

text \<open>What the manager does to the outside world, in the order it does it. A system
  call is recorded when it is made, whatever its outcome.\<close>

datatype action =
    Reply dbus_message reply
  | EmitSignal string string
  | GetRemoteServiceHandles nat string string uuid_str
  | GetRemoteServiceRecord nat string string "32 word"
  | NameListenerAdd string
  | NameListenerRemove string
  | SockConnect int string "8 word"
  | IoAddWatch nat nat
  | SourceRemove nat
  | ChannelClose int
  | ChannelUnref
  | CloseFd int
  | CreateDev int string string "8 word"
  | RfcommBind string string int "8 word"
  | RfcommRelease int
  | OpenDev string
  | TimeoutAdd nat nat
  | PortAddListener int string int string string
  | PortStore string string int "8 word" "string option"
  | PortRegister int string string string "string option"

text \<open>The outcome of a system call: \<open>Ok v\<close> when it returned \<open>v\<close>, \<open>Err e\<close> when it
  returned -1 and set \<open>errno\<close> to \<open>e\<close>.\<close>

datatype sysres = Ok int | Err int

definition sys_ret :: "sysres \<Rightarrow> int" where
  "sys_ret r = (case r of Ok v \<Rightarrow> v | Err e \<Rightarrow> - 1)"

definition sys_errno :: "sysres \<Rightarrow> int" where
  "sys_errno r = (case r of Ok v \<Rightarrow> 0 | Err e \<Rightarrow> e)"

text \<open>
  What the environment answers during one run of a handler. Every handler makes each
  of these calls at most once, so one field per call is enough. \<open>env_so_error\<close> is the
  value \<open>getsockopt\<close> stores for \<open>SO_ERROR\<close>; \<open>env_port_path\<close> is the object path
  \<open>port_register\<close> writes.
\<close>

record sys_env =
  env_dev_id :: int
  env_hci_devba :: int
  env_src :: string
  env_msg_new :: bool
  env_send :: bool
  env_reply_new :: bool
  env_socket :: sysres
  env_bind :: sysres
  env_nonblock :: sysres
  env_connect :: sysres
  env_watch_id :: nat
  env_alloc :: nat
  env_getsockopt :: sysres
  env_so_error :: int
  env_createdev :: sysres
  env_open :: sysres
  env_rfcomm_bind :: sysres
  env_port_path :: string

text \<open>
  The global lists of the manager. The address \<open>g_new0\<close> returns for a new request is
  chosen by the environment (\<open>env_alloc\<close>): it is one that no live structure has, and
  it may be the address of a structure freed before.
\<close>

record manager =
  pending_connects :: "pending_connect list"
  ports_paths :: "string list"

definition manager_init :: manager where
  "manager_init = \<lparr>pending_connects = [], ports_paths = []\<rparr>"

definition MAX_OPEN_TRIES :: int where "MAX_OPEN_TRIES = 5"
definition OPEN_WAIT :: nat where "OPEN_WAIT = 300"

definition G_IO_OUT :: "32 word" where "G_IO_OUT = 4"
definition G_IO_ERR :: "32 word" where "G_IO_ERR = 8"
definition G_IO_HUP :: "32 word" where "G_IO_HUP = 16"
definition G_IO_NVAL :: "32 word" where "G_IO_NVAL = 32"

section \<open>Request registry\<close>

fun g_slist_find :: "pending_connect list \<Rightarrow> nat \<Rightarrow> pending_connect option" where
  "g_slist_find [] r = None"
| "g_slist_find (p # l) r = (if pc_ref p = r then Some p else g_slist_find l r)"

fun g_slist_remove :: "pending_connect list \<Rightarrow> nat \<Rightarrow> pending_connect list" where
  "g_slist_remove [] r = []"
| "g_slist_remove (p # l) r = (if pc_ref p = r then l else p # g_slist_remove l r)"

text \<open>A write through the pointer \<open>pc\<close>: the structure at that address gets the new
  contents.\<close>

definition store_pc :: "pending_connect \<Rightarrow> manager \<Rightarrow> manager" where
  "store_pc pc s =
     s\<lparr>pending_connects := map (\<lambda>p. if pc_ref p = pc_ref pc then pc else p) (pending_connects s)\<rparr>"

fun find_pending_connect_by_pattern ::
  "pending_connect list \<Rightarrow> string \<Rightarrow> string \<Rightarrow> pending_connect option" where
  "find_pending_connect_by_pattern [] bda pattern = None"
| "find_pending_connect_by_pattern (pending # l) bda pattern =
     (if strcasecmp (pc_bda pending) bda = 0 \<and> strcasecmp (pc_pattern pending) pattern = 0
      then Some pending
      else find_pending_connect_by_pattern l bda pattern)"

definition pending_connect_free :: "pending_connect \<Rightarrow> action list" where
  "pending_connect_free pc =
     (if pc_io_id pc > 0 then [SourceRemove (pc_io_id pc)] else []) @
     (case pc_io pc of None \<Rightarrow> [] | Some fd \<Rightarrow> [ChannelClose fd])"

text \<open>\<open>rfcomm_release\<close> takes an \<open>int16_t\<close>; the outcome of the ioctl is only logged.\<close>

definition rfcomm_release :: "int \<Rightarrow> action list" where
  "rfcomm_release i = [RfcommRelease (sint (word_of_int i :: 16 word))]"

fun transaction_owner_exited_loop ::
  "string \<Rightarrow> pending_connect list \<Rightarrow> pending_connect list \<times> action list" where
  "transaction_owner_exited_loop name [] = ([], [])"
| "transaction_owner_exited_loop name (pc # l) =
     (case transaction_owner_exited_loop name l of (tmp, acts) \<Rightarrow>
        if msg_sender (pc_msg pc) \<noteq> name then (pc # tmp, acts)
        else (tmp, (if pc_id pc \<ge> 0 then rfcomm_release (pc_id pc) else [])
                   @ pending_connect_free pc @ acts))"

definition transaction_owner_exited :: "string \<Rightarrow> manager \<Rightarrow> manager \<times> action list" where
  "transaction_owner_exited name s =
     (case transaction_owner_exited_loop name (pending_connects s) of (tmp, acts) \<Rightarrow>
        (s\<lparr>pending_connects := tmp\<rparr>, acts))"

definition pending_connect_remove :: "pending_connect \<Rightarrow> manager \<Rightarrow> manager \<times> action list" where
  "pending_connect_remove pc s =
     (s\<lparr>pending_connects := g_slist_remove (pending_connects s) (pc_ref pc)\<rparr>,
      NameListenerRemove (msg_sender (pc_msg pc)) # pending_connect_free pc)"

text \<open>The \<open>fail:\<close> labels: what was done so far, then \<open>pending_connect_remove\<close>.\<close>

definition goto_fail :: "action list \<Rightarrow> pending_connect \<Rightarrow> manager \<Rightarrow> manager \<times> action list" where
  "goto_fail acts pc s = (case pending_connect_remove pc s of (s', a) \<Rightarrow> (s', acts @ a))"

section \<open>Pending-connection orchestrator\<close>

definition open_notify :: "int \<Rightarrow> int \<Rightarrow> pending_connect \<Rightarrow> action list" where
  "open_notify fd err pc =
     (if err \<noteq> 0 then
        rfcomm_release (pc_id pc) @ [Reply (pc_msg pc) (ErrConnectionAttemptFailed err)]
      else if pc_canceled pc \<noteq> 0 then
        rfcomm_release (pc_id pc) @ [Reply (pc_msg pc) (ErrCanceled ''Connection canceled'')]
      else
        [Reply (pc_msg pc) (MethodReturn [pc_dev pc]),
         EmitSignal ''ServiceConnected'' (pc_dev pc),
         PortAddListener (pc_id pc) (pc_bda pc) fd (pc_dev pc) (msg_sender (pc_msg pc))])"

text \<open>One tick of the 300 ms timer. The Boolean is the value returned to the main
  loop: \<open>True\<close> keeps the timer armed.\<close>

definition open_continue :: "sysres \<Rightarrow> nat \<Rightarrow> manager \<Rightarrow> bool \<times> manager \<times> action list" where
  "open_continue opn r s =
     (case g_slist_find (pending_connects s) r of
        None \<Rightarrow> (False, s, [])
      | Some pc \<Rightarrow>
         (let fd = sys_ret opn in
          if fd < 0 then
            (let err = sys_errno opn;
                 pc' = pc\<lparr>pc_ntries := pc_ntries pc + 1\<rparr> in
             if pc_ntries pc' \<ge> MAX_OPEN_TRIES then
               (case goto_fail (OpenDev (pc_dev pc) # open_notify fd err pc') pc' (store_pc pc' s)
                of (s', acts) \<Rightarrow> (False, s', acts))
             else (True, store_pc pc' s, [OpenDev (pc_dev pc)]))
          else
            (case goto_fail (OpenDev (pc_dev pc) # open_notify fd 0 pc) pc s
             of (s', acts) \<Rightarrow> (False, s', acts))))"

text \<open>\<open>port_open\<close>: the first attempt; on failure the timer is armed and
  \<open>-EINPROGRESS\<close> returned.\<close>

definition port_open :: "sysres \<Rightarrow> pending_connect \<Rightarrow> int \<times> action list" where
  "port_open opn pc =
     (let fd = sys_ret opn in
      if fd < 0 then (- EINPROGRESS, [OpenDev (pc_dev pc), TimeoutAdd OPEN_WAIT (pc_ref pc)])
      else (fd, [OpenDev (pc_dev pc)]))"

text \<open>\<open>rfcomm_bind\<close>: the new device id, or \<open>-errno\<close>.\<close>

definition rfcomm_bind :: "sysres \<Rightarrow> int" where
  "rfcomm_bind r = (let i = sys_ret r in if i < 0 then - sys_errno r else i)"

definition rfcomm_connect_cb ::
  "sys_env \<Rightarrow> 32 word \<Rightarrow> pending_connect \<Rightarrow> manager \<Rightarrow> manager \<times> action list" where
  "rfcomm_connect_cb env cond pc s =
     (if pc_canceled pc \<noteq> 0 then
        goto_fail [Reply (pc_msg pc) (ErrCanceled ''Connection canceled'')] pc s
      else if cond AND G_IO_NVAL \<noteq> 0 then
        (let pc1 = pc\<lparr>pc_io := None\<rparr> in
         goto_fail [ChannelUnref, Reply (pc_msg pc) (ErrCanceled ''Connection canceled'')]
           pc1 (store_pc pc1 s))
      else if sys_ret (env_getsockopt env) < 0 then
        goto_fail [Reply (pc_msg pc) (ErrConnectionAttemptFailed (sys_errno (env_getsockopt env)))]
          pc s
      else if env_so_error env \<noteq> 0 then
        goto_fail [Reply (pc_msg pc) (ErrConnectionAttemptFailed (env_so_error env))] pc s
      else
        (let sk = (case pc_io pc of None \<Rightarrow> - 1 | Some fd \<Rightarrow> fd);
             mk = CreateDev sk (pc_src pc) (pc_bda pc) (pc_channel pc);
             pc1 = pc\<lparr>pc_id := sys_ret (env_createdev env)\<rparr> in
         if pc_id pc1 < 0 then
           goto_fail
             [mk, Reply (pc_msg pc) (ErrConnectionAttemptFailed (sys_errno (env_createdev env)))]
             pc1 (store_pc pc1 s)
         else
           (let pc2 = pc1\<lparr>pc_dev := take 15 (''/dev/rfcomm'' @ dec_int (pc_id pc1))\<rparr> in
            case port_open (env_open env) pc2 of (fd, acts) \<Rightarrow>
              if fd < 0 then (store_pc pc2 s, mk # acts)
              else goto_fail (mk # acts @ open_notify fd 0 pc2) pc2 (store_pc pc2 s))))"

text \<open>\<open>rfcomm_connect\<close> returns 0 or \<open>-errno\<close>; the second component is the contents
  of \<open>*pc\<close> afterwards, for the caller that goes on using the pointer (it does so only
  when the result is negative, and the structure is live then).\<close>

definition rfcomm_connect ::
  "sys_env \<Rightarrow> pending_connect \<Rightarrow> manager \<Rightarrow> int \<times> pending_connect \<times> manager \<times> action list" where
  "rfcomm_connect env pc s =
     (let sk = sys_ret (env_socket env) in
      if sk < 0 then (- sys_errno (env_socket env), pc, s, [])
      else if sys_ret (env_bind env) < 0 then (- sys_errno (env_bind env), pc, s, [CloseFd sk])
      else if sys_ret (env_nonblock env) < 0 then
        (- sys_errno (env_nonblock env), pc, s, [CloseFd sk])
      else
        (let pc1 = pc\<lparr>pc_io := Some sk\<rparr>;
             cn = SockConnect sk (pc_bda pc) (pc_channel pc) in
         if sys_ret (env_connect env) < 0 then
           (let e = sys_errno (env_connect env) in
            if \<not> (e = EAGAIN \<or> e = EINPROGRESS) then
              (let pc2 = pc1\<lparr>pc_io := None\<rparr> in
               (- e, pc2, store_pc pc2 s, [cn, ChannelUnref, CloseFd sk]))
            else
              (let pc2 = pc1\<lparr>pc_io_id := env_watch_id env\<rparr> in
               (0, pc2, store_pc pc2 s, [cn, IoAddWatch (env_watch_id env) (pc_ref pc)])))
         else
           (case rfcomm_connect_cb env G_IO_OUT pc1 (store_pc pc1 s) of (s', acts) \<Rightarrow>
              (0, pc1, s', cn # acts))))"


subsection \<open>Discovery glue\<close>

text \<open>
  The SDP library functions that \<open>record_reply\<close> calls are not part of this file;
  they are parameters of the model. \<open>sdp_extract_pdu\<close> gives the record and the number
  of bytes scanned, or nothing for \<open>NULL\<close>; \<open>sdp_get_access_protos\<close> gives the protocol
  list, or nothing for a negative result; \<open>sdp_get_proto_port\<close> is taken at
  \<open>RFCOMM_UUID\<close>; \<open>sdp_svcname\<close> is the primary service name read with
  \<open>sdp_data_get\<close>.
\<close>

record ('r, 'p) sdp_ops =
  sdp_extract_pdu :: "8 word list \<Rightarrow> ('r \<times> int) option"
  sdp_get_access_protos :: "'r \<Rightarrow> 'p option"
  sdp_get_proto_port :: "'p \<Rightarrow> int"
  sdp_svcname :: "'r \<Rightarrow> string option"

text \<open>A reply of the discovery service: an error message with its name, a message
  whose arguments do not have the expected type, or the expected array.\<close>

datatype 'a dbus_reply = ReplyError string | ReplyBadArgs | ReplyArgs 'a

definition get_record :: "sys_env \<Rightarrow> pending_connect \<Rightarrow> 32 word \<Rightarrow> int \<times> action list" where
  "get_record env pc handle =
     (if \<not> env_msg_new env then (- 1, [])
      else if \<not> env_send env then (- 1, [])
      else (0, [GetRemoteServiceRecord (pc_ref pc) (pc_adapter_path pc) (pc_bda pc) handle]))"

definition get_handles :: "sys_env \<Rightarrow> pending_connect \<Rightarrow> uuid_str \<Rightarrow> int \<times> action list" where
  "get_handles env pc uuid =
     (if \<not> env_msg_new env then (- 1, [])
      else if \<not> env_send env then (- 1, [])
      else (0, [GetRemoteServiceHandles (pc_ref pc) (pc_adapter_path pc) (pc_bda pc) uuid]))"

definition discovery_error :: "string \<Rightarrow> reply" where
  "discovery_error name =
     (if name = ''org.bluez.Error.ConnectionAttemptFailed''
      then ErrConnectionAttemptFailed EIO else ErrNotSupported)"

definition record_reply ::
  "('r, 'p) sdp_ops \<Rightarrow> sys_env \<Rightarrow> nat \<Rightarrow> 8 word list dbus_reply \<Rightarrow> manager
     \<Rightarrow> manager \<times> action list" where
  "record_reply sdp env data reply s =
     (case g_slist_find (pending_connects s) data of
        None \<Rightarrow> (s, [])
      | Some pc \<Rightarrow>
         if pc_canceled pc \<noteq> 0 then
           goto_fail [Reply (pc_msg pc) (ErrCanceled ''Connection canceled'')] pc s
         else
          (case reply of
             ReplyError name \<Rightarrow> goto_fail [Reply (pc_msg pc) (discovery_error name)] pc s
           | ReplyBadArgs \<Rightarrow> goto_fail [Reply (pc_msg pc) ErrNotSupported] pc s
           | ReplyArgs rec_bin \<Rightarrow>
              if length rec_bin = 0 then goto_fail [Reply (pc_msg pc) ErrNotSupported] pc s
              else
               (case sdp_extract_pdu sdp rec_bin of
                  None \<Rightarrow> goto_fail [Reply (pc_msg pc) ErrNotSupported] pc s
                | Some (rec, scanned) \<Rightarrow>
                   if int (length rec_bin) \<noteq> scanned then
                     goto_fail [Reply (pc_msg pc) ErrNotSupported] pc s
                   else
                    (case sdp_get_access_protos sdp rec of
                       None \<Rightarrow> goto_fail [Reply (pc_msg pc) ErrNotSupported] pc s
                     | Some protos \<Rightarrow>
                        (let ch = sdp_get_proto_port sdp protos in
                         if ch < 1 \<or> ch > 30 then
                           goto_fail [Reply (pc_msg pc) ErrNotSupported] pc s
                         else if dbus_message_has_member (pc_msg pc) ''CreatePort'' then
                           (let err = rfcomm_bind (env_rfcomm_bind env);
                                bnd = RfcommBind (pc_src pc) (pc_bda pc) (- 1) (word_of_int ch) in
                            if err < 0 then
                              goto_fail [bnd, Reply (pc_msg pc) (ErrFailedErrno (- err))] pc s
                            else
                              (let port_name = take 15 (''/dev/rfcomm'' @ dec_int err);
                                   svcname = sdp_svcname sdp rec;
                                   path = env_port_path env in
                               goto_fail
                                 [bnd,
                                  PortStore (pc_src pc) (pc_bda pc) err (word_of_int ch) svcname,
                                  PortRegister err (pc_src pc) (pc_bda pc) port_name svcname,
                                  Reply (pc_msg pc) (MethodReturn [path]),
                                  EmitSignal ''PortCreated'' path]
                                 pc (s\<lparr>ports_paths := ports_paths s @ [path]\<rparr>)))
                         else
                           (let pc1 = pc\<lparr>pc_channel := word_of_int ch\<rparr> in
                            case rfcomm_connect env pc1 (store_pc pc1 s) of
                              (err, pc2, s2, acts) \<Rightarrow>
                               if err < 0 then
                                 goto_fail
                                   (acts @ [Reply (pc_msg pc) (ErrConnectionAttemptFailed (- err))])
                                   pc2 s2
                               else (s2, acts)))))))"

definition handles_reply ::
  "sys_env \<Rightarrow> nat \<Rightarrow> 32 word list dbus_reply \<Rightarrow> manager \<Rightarrow> manager \<times> action list" where
  "handles_reply env data reply s =
     (case g_slist_find (pending_connects s) data of
        None \<Rightarrow> (s, [])
      | Some pc \<Rightarrow>
         if pc_canceled pc \<noteq> 0 then
           goto_fail [Reply (pc_msg pc) (ErrCanceled ''Connection canceled'')] pc s
         else
          (case reply of
             ReplyError name \<Rightarrow> goto_fail [Reply (pc_msg pc) (discovery_error name)] pc s
           | ReplyBadArgs \<Rightarrow> goto_fail [Reply (pc_msg pc) ErrNotSupported] pc s
           | ReplyArgs phandle \<Rightarrow>
              (case phandle of
                 [] \<Rightarrow> goto_fail [Reply (pc_msg pc) ErrNotSupported] pc s
               | handle # _ \<Rightarrow>
                  (case get_record env pc handle of (r, acts) \<Rightarrow>
                     if r < 0 then goto_fail (acts @ [Reply (pc_msg pc) ErrNotSupported]) pc s
                     else (s, acts)))))"

text \<open>
  The records from which no channel can be extracted, in the words of the
  specification: the payload is empty, or it does not parse as a record (a parse that
  does not consume the whole payload included), or the protocol descriptor list cannot
  be read, or the RFCOMM channel it gives is not in [1,30] (0 stands for no channel).
\<close>

definition record_unusable :: "('r, 'p) sdp_ops \<Rightarrow> 8 word list \<Rightarrow> bool" where
  "record_unusable sdp rec_bin =
     (rec_bin = [] \<or>
      (case sdp_extract_pdu sdp rec_bin of
         None \<Rightarrow> True
       | Some (rec, scanned) \<Rightarrow>
           scanned \<noteq> int (length rec_bin) \<or>
           (case sdp_get_access_protos sdp rec of
              None \<Rightarrow> True
            | Some protos \<Rightarrow>
                \<not> (1 \<le> sdp_get_proto_port sdp protos \<and> sdp_get_proto_port sdp protos \<le> 30))))"

subsection \<open>Submit: CreatePort and ConnectService\<close>

text \<open>The method handlers are modelled on calls whose arguments have the declared
  D-Bus signature (the branch for a failed \<open>dbus_message_get_args\<close> is left out), and
  allocation with \<open>g_new0\<close> and \<open>g_strdup\<close> does not fail.\<close>

text \<open>The structure both entry points allocate and fill (\<open>g_new0\<close> zeroes the rest).\<close>

definition new_pending_connect ::
  "nat \<Rightarrow> sys_env \<Rightarrow> dbus_message \<Rightarrow> string \<Rightarrow> string \<Rightarrow> pending_connect" where
  "new_pending_connect r env m bda pattern =
     \<lparr>pc_ref = r, pc_msg = m, pc_bda = bda,
      pc_adapter_path = take 15 (''/org/bluez/hci'' @ dec_int (env_dev_id env)),
      pc_pattern = pattern, pc_src = env_src env, pc_channel = 0, pc_io_id = 0,
      pc_io = None, pc_dev = [], pc_id = - 1, pc_ntries = 0, pc_canceled = 0\<rparr>"

definition g_slist_append :: "manager \<Rightarrow> pending_connect \<Rightarrow> manager" where
  "g_slist_append s pc = s\<lparr>pending_connects := pending_connects s @ [pc]\<rparr>"

definition create_port ::
  "sys_env \<Rightarrow> dbus_message \<Rightarrow> string \<Rightarrow> string \<Rightarrow> manager \<Rightarrow> manager \<times> action list" where
  "create_port env m bda pattern s =
     (case find_pending_connect_by_pattern (pending_connects s) bda pattern of
        Some pending \<Rightarrow> (s, [Reply m (ErrInProgress ''Connection in progress'')])
      | None \<Rightarrow>
         if env_dev_id env < 0 \<or> env_hci_devba env < 0 then
           (s, [Reply m (ErrFailed ''Adapter not available'')])
         else
          (let pc = new_pending_connect (env_alloc env) env m bda pattern in
           case pattern2uuid128 pattern of
             Inr uuid \<Rightarrow>
              (case get_handles env pc uuid of (r, acts) \<Rightarrow>
                 if r < 0 then (s, acts @ pending_connect_free pc @ [Reply m ErrNotSupported])
                 else (g_slist_append s pc, acts @ [NameListenerAdd (msg_sender m)]))
           | Inl _ \<Rightarrow>
              (case pattern2long pattern of
                 Inl _ \<Rightarrow>
                   (s, pending_connect_free pc @ [Reply m (ErrInvalidArguments ''invalid pattern'')])
               | Inr val \<Rightarrow>
                  if strncasecmp ''0x'' pattern 2 = 0 then
                    (if val < 0x10000 then
                       (s, pending_connect_free pc
                            @ [Reply m (ErrInvalidArguments ''invalid record handle'')])
                     else
                      (case get_record env pc (word_of_int val) of (r, acts) \<Rightarrow>
                         if r < 0 then
                           (s, acts @ pending_connect_free pc @ [Reply m ErrNotSupported])
                         else (g_slist_append s pc, acts @ [NameListenerAdd (msg_sender m)])))
                  else if val < 1 \<or> val > 30 then
                    (s, pending_connect_free pc
                         @ [Reply m (ErrInvalidArguments ''invalid RFCOMM channel'')])
                  else
                    (let err = rfcomm_bind (env_rfcomm_bind env);
                         bnd = RfcommBind (env_src env) bda (- 1) (word_of_int val) in
                     if err < 0 then
                       (s, pending_connect_free pc @ [bnd, Reply m (ErrFailedErrno (- err))])
                     else
                       (let port_name = take 15 (''/dev/rfcomm'' @ dec_int err);
                            path = env_port_path env;
                            s1 = s\<lparr>ports_paths := ports_paths s @ [path]\<rparr> in
                        (s1, pending_connect_free pc @
                             [bnd,
                              PortStore (env_src env) bda err (word_of_int val) None,
                              PortRegister err (env_src env) bda port_name None]
                             @ (if \<not> env_reply_new env then []
                                else [Reply m (MethodReturn [path]),
                                      EmitSignal ''PortCreated'' path])))))))"

text \<open>\<open>connect_service\<close> and \<open>connect_service_from_adapter\<close> differ only in where the
  adapter number \<open>env_dev_id\<close> comes from.\<close>

definition connect_service_from_devid ::
  "sys_env \<Rightarrow> dbus_message \<Rightarrow> string \<Rightarrow> string \<Rightarrow> manager \<Rightarrow> manager \<times> action list" where
  "connect_service_from_devid env m bda pattern s =
     (case find_pending_connect_by_pattern (pending_connects s) bda pattern of
        Some pending \<Rightarrow> (s, [Reply m (ErrInProgress ''Connection in progress'')])
      | None \<Rightarrow>
         if env_dev_id env < 0 \<or> env_hci_devba env < 0 then
           (s, [Reply m (ErrFailed ''Adapter not available'')])
         else
          (let pc = new_pending_connect (env_alloc env) env m bda pattern in
           case pattern2uuid128 pattern of
             Inr uuid \<Rightarrow>
              (case get_handles env pc uuid of (r, acts) \<Rightarrow>
                 if r < 0 then (s, acts @ pending_connect_free pc @ [Reply m ErrNotSupported])
                 else (g_slist_append s pc, acts @ [NameListenerAdd (msg_sender m)]))
           | Inl _ \<Rightarrow>
              (case pattern2long pattern of
                 Inl _ \<Rightarrow>
                   (s, pending_connect_free pc @ [Reply m (ErrInvalidArguments ''invalid pattern'')])
               | Inr val \<Rightarrow>
                  if strncasecmp ''0x'' pattern 2 = 0 then
                    (if val < 0x10000 then
                       (s, pending_connect_free pc
                            @ [Reply m (ErrInvalidArguments ''invalid record handle'')])
                     else
                      (case get_record env pc (word_of_int val) of (r, acts) \<Rightarrow>
                         if r < 0 then
                           (s, acts @ pending_connect_free pc @ [Reply m ErrNotSupported])
                         else (g_slist_append s pc, acts @ [NameListenerAdd (msg_sender m)])))
                  else if val < 1 \<or> val > 30 then
                    (s, pending_connect_free pc
                         @ [Reply m (ErrInvalidArguments ''invalid RFCOMM channel'')])
                  else
                    (let pc1 = pc\<lparr>pc_channel := word_of_int val\<rparr> in
                     case rfcomm_connect env pc1 (g_slist_append s pc1) of
                       (err, pc2, s2, acts) \<Rightarrow>
                        if err < 0 then
                          (s2\<lparr>pending_connects := g_slist_remove (pending_connects s2) (pc_ref pc2)\<rparr>,
                           acts @ pending_connect_free pc2
                                @ [Reply m (ErrConnectionAttemptFailed (- err))])
                        else (s2, acts @ [NameListenerAdd (msg_sender m)])))))"

definition cancel_connect_service ::
  "sys_env \<Rightarrow> dbus_message \<Rightarrow> string \<Rightarrow> string \<Rightarrow> manager \<Rightarrow> manager \<times> action list" where
  "cancel_connect_service env m bda pattern s =
     (case find_pending_connect_by_pattern (pending_connects s) bda pattern of
        None \<Rightarrow> (s, [Reply m (ErrDoesNotExist ''No such connection request'')])
      | Some pending \<Rightarrow>
         if \<not> env_reply_new env then (s, [])
         else (store_pc (pending\<lparr>pc_canceled := 1\<rparr>) s, [Reply m (MethodReturn [])]))"


definition manager_unregister :: "manager \<Rightarrow> manager \<times> action list" where
  "manager_unregister s =
     (s\<lparr>pending_connects := [], ports_paths := []\<rparr>,
      concat (map pending_connect_free (pending_connects s)))"

subsection \<open>The main loop\<close>

text \<open>
  The device-open retry: after \<open>port_open\<close> has armed the timer, the main loop calls
  \<open>open_continue\<close> every \<open>OPEN_WAIT\<close> ms for as long as it returns \<open>TRUE\<close>. The list
  gives the outcome of \<open>open\<close> at each tick; the Boolean of the result tells whether the
  timer is still armed when the list is used up.
\<close>

fun open_retry :: "sysres list \<Rightarrow> nat \<Rightarrow> manager \<Rightarrow> bool \<times> manager \<times> action list" where
  "open_retry [] r s = (True, s, [])"
| "open_retry (opn # rest) r s =
     (case open_continue opn r s of
        (True, s', acts) \<Rightarrow>
          (case open_retry rest r s' of (b, s'', acts') \<Rightarrow> (b, s'', acts @ acts'))
      | (False, s', acts) \<Rightarrow> (False, s', acts))"

fun is_open :: "action \<Rightarrow> bool" where
  "is_open (OpenDev d) = True"
| "is_open a = False"

fun is_discovery :: "action \<Rightarrow> bool" where
  "is_discovery (GetRemoteServiceHandles r p b u) = True"
| "is_discovery (GetRemoteServiceRecord r p b h) = True"
| "is_discovery a = False"

fun is_handles_request :: "action \<Rightarrow> bool" where
  "is_handles_request (GetRemoteServiceHandles r p b u) = True"
| "is_handles_request a = False"


fun is_bind_or_connect :: "action \<Rightarrow> bool" where
  "is_bind_or_connect (SockConnect k b c) = True"
| "is_bind_or_connect (CreateDev k a b c) = True"
| "is_bind_or_connect (RfcommBind a b i c) = True"
| "is_bind_or_connect a = False"

text \<open>The actions of the connect phase: everything but the discovery requests, the
  NotSupported reply and the persistent bind of CreatePort.\<close>

fun connect_phase :: "action \<Rightarrow> bool" where
  "connect_phase (Reply m ErrNotSupported) = False"
| "connect_phase (GetRemoteServiceHandles r p b u) = False"
| "connect_phase (GetRemoteServiceRecord r p b h) = False"
| "connect_phase (RfcommBind a b i c) = False"
| "connect_phase a = True"

text \<open>What the main loop can deliver to the manager. A reply, a watch or a timer
  carries the address of the structure it was registered with; the watch of
  \<open>rfcomm_connect_cb\<close> is removed when the structure is freed, so that callback runs
  on live structures only.\<close>

datatype event =
    EvCreatePort dbus_message string string
  | EvConnectService dbus_message string string
  | EvCancelConnectService dbus_message string string
  | EvHandlesReply nat "32 word list dbus_reply"
  | EvRecordReply nat "8 word list dbus_reply"
  | EvConnectReady nat "32 word"
  | EvOpenTimeout nat
  | EvOwnerExited string
  | EvManagerUnregister

fun step ::
  "('r, 'p) sdp_ops \<Rightarrow> sys_env \<Rightarrow> event \<Rightarrow> manager \<Rightarrow> manager \<times> action list" where
  "step sdp env (EvCreatePort m bda pattern) s = create_port env m bda pattern s"
| "step sdp env (EvConnectService m bda pattern) s = connect_service_from_devid env m bda pattern s"
| "step sdp env (EvCancelConnectService m bda pattern) s = cancel_connect_service env m bda pattern s"
| "step sdp env (EvHandlesReply data reply) s = handles_reply env data reply s"
| "step sdp env (EvRecordReply data reply) s = record_reply sdp env data reply s"
| "step sdp env (EvConnectReady data cond) s =
     (case g_slist_find (pending_connects s) data of
        None \<Rightarrow> (s, [])
      | Some pc \<Rightarrow> rfcomm_connect_cb env cond pc s)"
| "step sdp env (EvOpenTimeout data) s = snd (open_continue (env_open env) data s)"
| "step sdp env (EvOwnerExited name) s = transaction_owner_exited name s"
| "step sdp env EvManagerUnregister s = manager_unregister s"

text \<open>The allocator never returns the address of a live structure.\<close>

definition alloc_fresh :: "sys_env \<Rightarrow> manager \<Rightarrow> bool" where
  "alloc_fresh env s = (env_alloc env \<notin> pc_ref ` set (pending_connects s))"

inductive reachable :: "('r, 'p) sdp_ops \<Rightarrow> manager \<Rightarrow> bool" for sdp :: "('r, 'p) sdp_ops" where
  reachable_init: "reachable sdp manager_init"
| reachable_step:
    "reachable sdp s \<Longrightarrow> alloc_fresh env s \<Longrightarrow> reachable sdp (fst (step sdp env ev s))"

text \<open>The address and the key of a registered request, for the registry invariant.\<close>

definition sig_of :: "pending_connect \<Rightarrow> nat \<times> string \<times> string" where
  "sig_of pc = (pc_ref pc, pc_bda pc, pc_pattern pc)"

definition sigs :: "manager \<Rightarrow> (nat \<times> string \<times> string) list" where
  "sigs s = map sig_of (pending_connects s)"

definition key_match :: "nat \<times> string \<times> string \<Rightarrow> nat \<times> string \<times> string \<Rightarrow> bool" where
  "key_match x y =
     (strcasecmp (fst (snd x)) (fst (snd y)) = 0 \<and> strcasecmp (snd (snd x)) (snd (snd y)) = 0)"

definition registry_inv :: "manager \<Rightarrow> bool" where
  "registry_inv s =
     (distinct (map fst (sigs s)) \<and> sorted_wrt (\<lambda>x y. \<not> key_match x y) (sigs s))"

definition sig_ok :: "(nat \<times> string \<times> string) list \<Rightarrow> bool" where
  "sig_ok xs = (distinct (map fst xs) \<and> sorted_wrt (\<lambda>x y. \<not> key_match x y) xs)"

text \<open>A handler that only removes registered requests or rewrites fields other than
  the address and the key leaves a state that \<open>shrinks\<close> the one before.\<close>

definition shrinks :: "manager \<Rightarrow> manager \<Rightarrow> bool" where
  "shrinks s s' = subseq (sigs s') (sigs s)"

section \<open>Proxy forwarding engine\<close>

datatype proxy_type_t = TTY_PROXY | UNIX_SOCKET_PROXY | TCP_SOCKET_PROXY | UNKNOWN_PROXY_TYPE

text \<open>\<open>struct termios\<close>: the flag words, the control characters and the two line
  speeds that \<open>cfsetispeed\<close> and \<open>cfsetospeed\<close> store.\<close>

record termios =
  c_iflag :: "32 word"
  c_oflag :: "32 word"
  c_cflag :: "32 word"
  c_lflag :: "32 word"
  c_cc :: "8 word list"
  c_ispeed :: "32 word"
  c_ospeed :: "32 word"

text \<open>The constants of termios.h on Linux; \<open>MAX_BAUD\<close> is \<open>__MAX_BAUD\<close>, the code
  \<open>B4000000\<close>.\<close>

definition B0 :: "32 word" where "B0 = 0"
definition CSIZE :: "32 word" where "CSIZE = 0x30"
definition CS5 :: "32 word" where "CS5 = 0x00"
definition CS6 :: "32 word" where "CS6 = 0x10"
definition CS7 :: "32 word" where "CS7 = 0x20"
definition CS8 :: "32 word" where "CS8 = 0x30"
definition CSTOPB :: "32 word" where "CSTOPB = 0x40"
definition CREAD :: "32 word" where "CREAD = 0x80"
definition PARENB :: "32 word" where "PARENB = 0x100"
definition PARODD :: "32 word" where "PARODD = 0x200"
definition CLOCAL :: "32 word" where "CLOCAL = 0x800"
definition CBAUD :: "32 word" where "CBAUD = 0x100F"
definition CBAUDEX :: "32 word" where "CBAUDEX = 0x1000"
definition B57600 :: "32 word" where "B57600 = 0x1001"
definition MAX_BAUD :: "32 word" where "MAX_BAUD = 0x100F"
definition IBAUD0 :: "32 word" where "IBAUD0 = 0x80000000"

text \<open>
  \<open>cfsetospeed\<close> and \<open>cfsetispeed\<close> of the C library on Linux. A speed that has bits
  outside \<open>CBAUD\<close> and is not one of the codes from \<open>B57600\<close> to \<open>__MAX_BAUD\<close> is
  refused (-1, \<open>EINVAL\<close>) and the structure is left as it was. Otherwise the code is
  stored in the speed field and replaces the \<open>CBAUD\<close> and \<open>CBAUDEX\<close> bits of
  \<open>c_cflag\<close>; the input speed 0 only sets \<open>IBAUD0\<close> in \<open>c_iflag\<close>, any other
  input speed clears it.
\<close>

definition cfsetospeed :: "termios \<Rightarrow> 32 word \<Rightarrow> int \<times> termios" where
  "cfsetospeed ti speed =
     (if speed AND NOT CBAUD \<noteq> 0 \<and> (speed < B57600 \<or> speed > MAX_BAUD) then (- 1, ti)
      else (0, ti\<lparr>c_ospeed := speed,
                  c_cflag := (c_cflag ti AND NOT (CBAUD OR CBAUDEX)) OR speed\<rparr>))"

definition cfsetispeed :: "termios \<Rightarrow> 32 word \<Rightarrow> int \<times> termios" where
  "cfsetispeed ti speed =
     (if speed AND NOT CBAUD \<noteq> 0 \<and> (speed < B57600 \<or> speed > MAX_BAUD) then (- 1, ti)
      else if speed = 0 then (0, ti\<lparr>c_iflag := c_iflag ti OR IBAUD0\<rparr>)
      else (0, ti\<lparr>c_ispeed := speed, c_iflag := c_iflag ti AND NOT IBAUD0,
                  c_cflag := (c_cflag ti AND NOT (CBAUD OR CBAUDEX)) OR speed\<rparr>))"

record proxy =
  prx_src :: string
  prx_dst :: string
  prx_uuid128 :: string
  prx_address :: string
  prx_port :: "16 word"
  prx_type :: proxy_type_t
  sys_ti :: termios
  proxy_ti :: termios
  prx_channel :: "8 word"
  record_id :: "32 word"
  listen_watch :: nat
  rfcomm_watch :: nat
  local_watch :: nat

definition supported_speed :: "(string \<times> 32 word) list" where
  "supported_speed =
     [(''50'', 1), (''300'', 7), (''600'', 8), (''1200'', 9), (''1800'', 10), (''2400'', 11),
      (''4800'', 12), (''9600'', 13), (''19200'', 14), (''38400'', 15), (''57600'', 0x1001),
      (''115200'', 0x1002)]"

fun str2speed_loop :: "(string \<times> 32 word) list \<Rightarrow> string \<Rightarrow> 32 word" where
  "str2speed_loop [] str = B0"
| "str2speed_loop ((name, speed) # rest) str =
     (if \<not> strcmp_eq name str then str2speed_loop rest str else speed)"

definition str2speed :: "string \<Rightarrow> 32 word" where
  "str2speed str = str2speed_loop supported_speed str"

definition set_parity :: "string \<Rightarrow> 32 word \<Rightarrow> int \<times> 32 word" where
  "set_parity str ctrl =
     (if strcasecmp ''even'' str = 0 then (0, (ctrl OR PARENB) AND NOT PARODD)
      else if strcasecmp ''odd'' str = 0 then (0, (ctrl OR PARENB) OR PARODD)
      else if strcasecmp ''mark'' str = 0 then (0, ctrl OR PARENB)
      else if strcasecmp ''none'' str = 0 \<or> strcasecmp ''space'' str = 0
        then (0, ctrl AND NOT PARENB)
      else (- 1, ctrl))"

definition set_databits :: "8 word \<Rightarrow> 32 word \<Rightarrow> int \<times> 32 word" where
  "set_databits databits ctrl =
     (if databits < 5 \<or> databits > 8 then (- EINVAL, ctrl)
      else
        (let c = ctrl AND NOT CSIZE in
         (0, if databits = 5 then c OR CS5
             else if databits = 6 then c OR CS6
             else if databits = 7 then c OR CS7
             else if databits = 8 then c OR CS8
             else c)))"

definition set_stopbits :: "8 word \<Rightarrow> 32 word \<Rightarrow> int \<times> 32 word" where
  "set_stopbits stopbits ctrl =
     (if stopbits = 1 then (0, ctrl AND NOT CSTOPB)
      else if stopbits = 2 then (0, ctrl OR CSTOPB)
      else (- EINVAL, ctrl))"

text \<open>\<open>proxy_set_serial_params\<close> on a call whose arguments have the signature
  \<open>syys\<close>. The values \<open>cfsetispeed\<close> and \<open>cfsetospeed\<close> return are not looked at.\<close>

definition proxy_set_serial_params ::
  "proxy \<Rightarrow> string \<Rightarrow> 8 word \<Rightarrow> 8 word \<Rightarrow> string \<Rightarrow> proxy \<times> reply" where
  "proxy_set_serial_params prx ratestr databits stopbits paritystr =
     (if local_watch prx \<noteq> 0 then (prx, ErrFailed ''Not allowed'')
      else
        (let speed = str2speed ratestr in
         if speed = B0 then (prx, ErrInvalidArguments ''Invalid baud rate'')
         else
          (case set_databits databits (c_cflag (proxy_ti prx)) of (r1, ctrl1) \<Rightarrow>
             if r1 < 0 then (prx, ErrInvalidArguments ''Invalid data bits'')
             else
              (case set_stopbits stopbits ctrl1 of (r2, ctrl2) \<Rightarrow>
                 if r2 < 0 then (prx, ErrInvalidArguments ''Invalid stop bits'')
                 else
                  (case set_parity paritystr ctrl2 of (r3, ctrl3) \<Rightarrow>
                     if r3 < 0 then (prx, ErrInvalidArguments ''Invalid parity'')
                     else
                       (let ti1 = (proxy_ti prx)\<lparr>c_cflag := ctrl3\<rparr>;
                            ti2 = ti1\<lparr>c_cflag := c_cflag ti1 OR (CLOCAL OR CREAD)\<rparr>;
                            ti3 = snd (cfsetospeed (snd (cfsetispeed ti2 speed)) speed) in
                        (prx\<lparr>proxy_ti := ti3\<rparr>, MethodReturn [])))))))"

datatype variant = VString string | VByte "8 word" | VBoolean bool

definition proxy_get_info :: "proxy \<Rightarrow> (string \<times> variant) list" where
  "proxy_get_info prx =
     [(''uuid'', VString (prx_uuid128 prx)), (''address'', VString (prx_address prx))]
     @ (if prx_channel prx \<noteq> 0 then [(''channel'', VByte (prx_channel prx))] else [])
     @ [(''enabled'', VBoolean (listen_watch prx \<noteq> 0)),
        (''connected'', VBoolean (rfcomm_watch prx \<noteq> 0))]
     @ (if rfcomm_watch prx \<noteq> 0 then [(''address'', VString (prx_dst prx))] else [])"

subsection \<open>Creation\<close>

text \<open>The structure \<open>proxy_tty_register\<close>, \<open>proxy_socket_register\<close> and
  \<open>proxy_tcp_register\<close> build: \<open>g_new0\<close> zeroes it, then the address, the UUID, the
  kind and the local adapter are stored, and for a character device the settings read
  from it and those the proxy is to use (the same when the caller gives none).\<close>

definition termios_zero :: termios where
  "termios_zero = \<lparr>c_iflag = 0, c_oflag = 0, c_cflag = 0, c_lflag = 0, c_cc = replicate 32 0,
     c_ispeed = 0, c_ospeed = 0\<rparr>"

definition g_new0_proxy :: proxy where
  "g_new0_proxy = \<lparr>prx_src = ''00:00:00:00:00:00'', prx_dst = ''00:00:00:00:00:00'',
     prx_uuid128 = [], prx_address = [], prx_port = 0, prx_type = TTY_PROXY,
     sys_ti = termios_zero, proxy_ti = termios_zero, prx_channel = 0, record_id = 0,
     listen_watch = 0, rfcomm_watch = 0, local_watch = 0\<rparr>"

definition proxy_tty_register ::
  "string \<Rightarrow> string \<Rightarrow> string \<Rightarrow> termios \<Rightarrow> termios option \<Rightarrow> proxy" where
  "proxy_tty_register src uuid128 address sys ti =
     g_new0_proxy\<lparr>prx_address := address, prx_uuid128 := uuid128, prx_type := TTY_PROXY,
       prx_src := src, sys_ti := sys, proxy_ti := (case ti of None \<Rightarrow> sys | Some t \<Rightarrow> t)\<rparr>"

definition proxy_socket_register :: "string \<Rightarrow> string \<Rightarrow> string \<Rightarrow> proxy" where
  "proxy_socket_register src uuid128 address =
     g_new0_proxy\<lparr>prx_address := address, prx_uuid128 := uuid128,
       prx_type := UNIX_SOCKET_PROXY, prx_src := src\<rparr>"

definition proxy_tcp_register :: "string \<Rightarrow> string \<Rightarrow> string \<Rightarrow> proxy" where
  "proxy_tcp_register src uuid128 address =
     g_new0_proxy\<lparr>prx_address := address, prx_uuid128 := uuid128,
       prx_type := TCP_SOCKET_PROXY, prx_src := src\<rparr>"

subsection \<open>Enable, accept and disable\<close>

text \<open>What a proxy does to the outside world. The watches carry the identifier the
  main loop gives them; a forwarding watch also carries the descriptor it watches and
  the descriptor it writes to.\<close>

datatype proxy_action =
    Accept
  | ListenChannelClose
  | UnixConnect string
  | TtyOpen string
  | Tcsetattr int termios
  | TcpConnect "16 word"
  | Close int
  | AddForwardWatch nat int int
  | RemoveSource nat
  | RemoveProxyRecord "32 word"
  | RfcommListen string "8 word"
  | AddProxyRecord string "8 word"
  | AddListenWatch nat int
  | IoChannelClose int

record proxy_env =
  penv_accept :: sysres
  penv_raddr :: string
  penv_socket :: sysres
  penv_connect :: sysres
  penv_open :: sysres
  penv_tcsetattr :: sysres
  penv_rfcomm_watch :: nat
  penv_local_watch :: nat

text \<open>
  \<open>unix_socket_connect\<close>. The address is copied with \<open>strcpy\<close> into \<open>sun_path\<close>, an
  array of 108 bytes in a structure on the stack, before any system call: at offset 0,
  or at offset 1 without its first three bytes when it starts with \<open>x00\<close> (the name is
  then in the abstract namespace). When the bytes and the terminating NUL do not fit,
  \<open>strcpy\<close> writes past the array and the behaviour of the program is not defined:
  the model has no result (\<open>None\<close>). \<open>UnixConnect\<close> carries the bytes of \<open>sun_path\<close>
  up to the NUL that ends the copy.
\<close>

definition UNIX_PATH_MAX :: nat where "UNIX_PATH_MAX = 108"

definition unix_socket_connect :: "proxy_env \<Rightarrow> string \<Rightarrow> (int \<times> proxy_action list) option" where
  "unix_socket_connect env address =
     (let sun_path = (if strncmp_eq ''x00'' address 3 then CHR 0x00 # drop 3 address
                      else address) in
      if length sun_path + 1 > UNIX_PATH_MAX then None
      else
        (let sk = sys_ret (penv_socket env) in
         if sk < 0 then Some (- sys_errno (penv_socket env), [])
         else if sys_ret (penv_connect env) < 0 then
           Some (- sys_errno (penv_connect env), [UnixConnect sun_path, Close sk])
         else Some (sk, [UnixConnect sun_path])))"

text \<open>\<open>atoi\<close> is \<open>(int) strtol (s, NULL, 10)\<close>: white space, an optional sign,
  decimal digits; a value out of the range of \<open>long\<close> is clamped to \<open>LONG_MAX\<close> or
  \<open>LONG_MIN\<close>, and the conversion to \<open>int\<close> keeps the low 32 bits.\<close>

definition strtol10 :: "string \<Rightarrow> int" where
  "strtol10 str =
     (let s1 = dropWhile isspace_c str;
          neg = (case s1 of [] \<Rightarrow> False | c # _ \<Rightarrow> c = CHR ''-'');
          sg = (case s1 of [] \<Rightarrow> 0 | c # _ \<Rightarrow> if c = CHR ''-'' \<or> c = CHR ''+'' then 1 else (0::nat));
          mag = fst (scan_digits 10 (drop sg s1) 0 0)
      in if neg then (if mag > 2 ^ 63 then LONG_MIN else - mag)
         else (if mag > LONG_MAX then LONG_MAX else mag))"

definition atoi :: "string \<Rightarrow> int" where
  "atoi str = sint (word_of_int (strtol10 str) :: 32 word)"

text \<open>In \<open>tcp_socket_connect\<close> the port is read after the first colon and stored in an
  \<open>unsigned short\<close>. \<open>strchr\<close> returns \<open>NULL\<close> for an address without a colon and
  \<open>atoi\<close> is then called on the address 1: the model has no result. (addr2type makes a
  proxy a TCP proxy only when its address starts with \<open>localhost:\<close>.)\<close>

definition tcp_socket_connect :: "proxy_env \<Rightarrow> string \<Rightarrow> (int \<times> proxy_action list) option" where
  "tcp_socket_connect env address =
     (if \<not> strncmp_eq address ''localhost'' 9 then Some (- 1, [])
      else if CHR '':'' \<notin> set address then None
      else
        (let port = (word_of_int (atoi (drop 1 (dropWhile (\<lambda>c. c \<noteq> CHR '':'') address))) :: 16 word) in
         if port \<le> 0 then Some (- 1, [])
         else
           (let sk = sys_ret (penv_socket env) in
            if sk < 0 then Some (- sys_errno (penv_socket env), [])
            else if sys_ret (penv_connect env) < 0 then
              Some (- sys_errno (penv_connect env), [TcpConnect port, Close sk])
            else Some (sk, [TcpConnect port]))))"

definition tty_open :: "proxy_env \<Rightarrow> string \<Rightarrow> termios \<Rightarrow> int \<times> proxy_action list" where
  "tty_open env tty ti =
     (let sk = sys_ret (penv_open env) in
      if sk < 0 then (- sys_errno (penv_open env), [TtyOpen tty])
      else if sys_ret (penv_tcsetattr env) < 0 then
        (- sys_errno (penv_tcsetattr env), [TtyOpen tty, Tcsetattr sk ti, Close sk])
      else (sk, [TtyOpen tty, Tcsetattr sk ti]))"

text \<open>The \<open>switch\<close> of \<open>connect_event\<close> on the kind of the local transport: the
  descriptor of the local side, negative when it could not be opened or connected.\<close>

definition local_connect :: "proxy_env \<Rightarrow> proxy \<Rightarrow> (int \<times> proxy_action list) option" where
  "local_connect env prx =
     (case prx_type prx of
        UNIX_SOCKET_PROXY \<Rightarrow> unix_socket_connect env (prx_address prx)
      | TTY_PROXY \<Rightarrow> Some (tty_open env (prx_address prx) (proxy_ti prx))
      | TCP_SOCKET_PROXY \<Rightarrow> tcp_socket_connect env (prx_address prx)
      | UNKNOWN_PROXY_TYPE \<Rightarrow> Some (- 1, []))"

text \<open>\<open>connect_event\<close>, the watch on the listening socket. The Boolean is the value
  returned to the main loop: \<open>True\<close> keeps the watch registered; when it is \<open>False\<close>
  the main loop removes the watch and runs \<open>listen_watch_notify\<close>.\<close>

definition connect_event ::
  "proxy_env \<Rightarrow> 32 word \<Rightarrow> proxy \<Rightarrow> (bool \<times> proxy \<times> proxy_action list) option" where
  "connect_event env cond prx =
     (if cond AND G_IO_NVAL \<noteq> 0 then Some (False, prx, [])
      else if cond AND (G_IO_ERR OR G_IO_HUP) \<noteq> 0 then Some (False, prx, [ListenChannelClose])
      else
        (let rsk = sys_ret (penv_accept env) in
         if rsk < 0 then Some (True, prx, [Accept])
         else
           (let prx1 = prx\<lparr>prx_dst := penv_raddr env\<rparr> in
            case local_connect env prx1 of
              None \<Rightarrow> None
            | Some (lsk, acts) \<Rightarrow>
               if lsk < 0 then Some (True, prx1, Accept # acts @ [Close rsk])
               else
                 Some (True,
                  prx1\<lparr>rfcomm_watch := penv_rfcomm_watch env, local_watch := penv_local_watch env\<rparr>,
                  Accept # acts @ [AddForwardWatch (penv_rfcomm_watch env) rsk lsk,
                                   AddForwardWatch (penv_local_watch env) lsk rsk]))))"

definition listen_watch_notify :: "proxy \<Rightarrow> proxy \<times> proxy_action list" where
  "listen_watch_notify prx =
     (prx\<lparr>listen_watch := 0, rfcomm_watch := 0, local_watch := 0, record_id := 0\<rparr>,
      (if rfcomm_watch prx \<noteq> 0 then [RemoveSource (rfcomm_watch prx)] else [])
      @ (if local_watch prx \<noteq> 0 then [RemoveSource (local_watch prx)] else [])
      @ [RemoveProxyRecord (record_id prx)])"

text \<open>\<open>proxy_enable\<close>. \<open>rfcomm_listen\<close> as a whole is one answer of the environment:
  the listening socket, or the error; on success it writes the channel the socket is
  bound to through the pointer it was given. \<open>add_proxy_record\<close> returns the
  identifier of the record, 0 when the registration failed.\<close>

record listen_env =
  lenv_listen :: sysres
  lenv_channel :: "8 word"
  lenv_record_id :: "32 word"
  lenv_listen_watch :: nat

definition proxy_enable :: "listen_env \<Rightarrow> proxy \<Rightarrow> proxy \<times> reply \<times> proxy_action list" where
  "proxy_enable env prx =
     (if listen_watch prx \<noteq> 0 then (prx, ErrFailed ''Already enabled'', [])
      else
        (let sk = sys_ret (lenv_listen env);
             ls = RfcommListen (prx_src prx) (prx_channel prx) in
         if sk < 0 then (prx, ErrFailedErrno (sys_errno (lenv_listen env)), [ls])
         else
           (let prx1 = prx\<lparr>prx_channel := lenv_channel env\<rparr>;
                ar = AddProxyRecord (prx_uuid128 prx1) (prx_channel prx1);
                prx2 = prx1\<lparr>record_id := lenv_record_id env\<rparr> in
            if record_id prx2 = 0 then
              (prx2, ErrFailed ''Service registration failed'', [ls, ar, Close sk])
            else
              (prx2\<lparr>listen_watch := lenv_listen_watch env\<rparr>, MethodReturn [],
               [ls, ar, AddListenWatch (lenv_listen_watch env) sk]))))"

text \<open>\<open>proxy_disable\<close>: \<open>g_source_remove\<close> destroys the listen watch, and the main
  loop runs the destroy notification of the watch, \<open>listen_watch_notify\<close>, before
  \<open>g_source_remove\<close> returns.\<close>

definition proxy_disable :: "proxy \<Rightarrow> proxy \<times> reply \<times> proxy_action list" where
  "proxy_disable prx =
     (if listen_watch prx = 0 then (prx, ErrFailed ''Not enabled'', [])
      else
        (case listen_watch_notify prx of (prx', acts) \<Rightarrow>
           (prx', MethodReturn [], RemoveSource (listen_watch prx) # acts)))"

subsection \<open>Forwarding\<close>

text \<open>The outcome of \<open>g_io_channel_read\<close> or \<open>g_io_channel_write\<close>: the number of
  bytes moved, or an error. The outcomes of the calls a handler makes are given as
  lists, in the order of the calls; a handler whose loop is still running when a list
  is used up has no result.\<close>

datatype io_result = IoDone nat | IoFailed

text \<open>\<open>channel_write\<close>: \<open>True\<close> for \<open>G_IO_ERROR_NONE\<close>, with the outcomes not yet
  used.\<close>

fun channel_write :: "io_result list \<Rightarrow> nat \<Rightarrow> nat \<Rightarrow> (bool \<times> io_result list) option" where
  "channel_write [] wbytes sz = (if wbytes < sz then None else Some (True, []))"
| "channel_write (w # ws) wbytes sz =
     (if wbytes < sz then
        (case w of
           IoFailed \<Rightarrow> Some (False, ws)
         | IoDone written \<Rightarrow> channel_write ws (wbytes + written) sz)
      else Some (True, w # ws))"

text \<open>The loop of \<open>forward_data\<close> that forwards what is left after a hang-up.\<close>

fun forward_remaining :: "io_result list \<Rightarrow> io_result list \<Rightarrow> unit option" where
  "forward_remaining [] ws = None"
| "forward_remaining (r # rs) ws =
     (case r of
        IoFailed \<Rightarrow> Some ()
      | IoDone rbytes \<Rightarrow>
         if rbytes = 0 then Some ()
         else
          (case channel_write ws 0 rbytes of
             None \<Rightarrow> None
           | Some (ok, ws') \<Rightarrow> if ok then forward_remaining rs ws' else Some ()))"

text \<open>\<open>forward_data\<close>, the callback of both forwarding watches; \<open>dest\<close> is the
  descriptor of the channel given as \<open>data\<close>. The Boolean is the value returned to the
  main loop, which removes the watch when it is \<open>False\<close>. The structure of the proxy
  is not an argument.\<close>

definition forward_data ::
  "32 word \<Rightarrow> int \<Rightarrow> io_result list \<Rightarrow> io_result list \<Rightarrow> (bool \<times> proxy_action list) option" where
  "forward_data cond dest rs ws =
     (if cond AND G_IO_NVAL \<noteq> 0 then Some (False, [])
      else if cond AND (G_IO_HUP OR G_IO_ERR) \<noteq> 0 then
        (case forward_remaining rs ws of
           None \<Rightarrow> None
         | Some u \<Rightarrow> Some (False, [IoChannelClose dest]))
      else
        (case rs of
           [] \<Rightarrow> None
         | IoFailed # _ \<Rightarrow> Some (False, [])
         | IoDone rbytes # _ \<Rightarrow>
            (case channel_write ws 0 rbytes of
               None \<Rightarrow> None
             | Some (ok, ws') \<Rightarrow> Some (ok, []))))"

subsection \<open>The main loop of a proxy\<close>

text \<open>
  A proxy in the main loop: its structure and the forwarding watches the main loop
  still has, each with its identifier, the descriptor it watches and the descriptor it
  writes to. A peer is connected while a forwarding watch is left.
\<close>

record proxy_loop =
  lp_prx :: proxy
  lp_forward :: "(nat \<times> int \<times> int) list"

fun forward_watches :: "proxy_action list \<Rightarrow> (nat \<times> int \<times> int) list" where
  "forward_watches [] = []"
| "forward_watches (AddForwardWatch i a b # acts) = (i, a, b) # forward_watches acts"
| "forward_watches (x # acts) = forward_watches acts"

text \<open>The forwarding watches after a handler has run: those it removed are gone,
  those it added are there.\<close>

definition main_loop_sources ::
  "proxy_action list \<Rightarrow> (nat \<times> int \<times> int) list \<Rightarrow> (nat \<times> int \<times> int) list" where
  "main_loop_sources acts ws =
     filter (\<lambda>w. RemoveSource (fst w) \<notin> set acts) ws @ forward_watches acts"

datatype proxy_event =
    PEnable listen_env
  | PDisable
  | PListenReady proxy_env "32 word"
  | PForwardReady nat "32 word" "io_result list" "io_result list"
  | PSetSerialParameters string "8 word" "8 word" string

fun proxy_step :: "proxy_event \<Rightarrow> proxy_loop \<Rightarrow> proxy_loop option" where
  "proxy_step (PEnable env) lp =
     (case proxy_enable env (lp_prx lp) of (prx', r, acts) \<Rightarrow>
        Some \<lparr>lp_prx = prx', lp_forward = main_loop_sources acts (lp_forward lp)\<rparr>)"
| "proxy_step PDisable lp =
     (case proxy_disable (lp_prx lp) of (prx', r, acts) \<Rightarrow>
        Some \<lparr>lp_prx = prx', lp_forward = main_loop_sources acts (lp_forward lp)\<rparr>)"
| "proxy_step (PListenReady env cond) lp =
     (case connect_event env cond (lp_prx lp) of
        None \<Rightarrow> None
      | Some (keep, prx', acts) \<Rightarrow>
         if keep then
           Some \<lparr>lp_prx = prx', lp_forward = main_loop_sources acts (lp_forward lp)\<rparr>
         else
          (case listen_watch_notify prx' of (prx'', acts') \<Rightarrow>
             Some \<lparr>lp_prx = prx'',
                   lp_forward = main_loop_sources (acts @ acts') (lp_forward lp)\<rparr>))"
| "proxy_step (PForwardReady i cond rs ws) lp =
     (case find (\<lambda>w. fst w = i) (lp_forward lp) of
        None \<Rightarrow> Some lp
      | Some (j, src, dest) \<Rightarrow>
         (case forward_data cond dest rs ws of
            None \<Rightarrow> None
          | Some (keep, acts) \<Rightarrow>
             Some (if keep then lp
                   else lp\<lparr>lp_forward := filter (\<lambda>w. fst w \<noteq> i) (lp_forward lp)\<rparr>)))"
| "proxy_step (PSetSerialParameters ratestr databits stopbits paritystr) lp =
     Some (lp\<lparr>lp_prx := fst (proxy_set_serial_params (lp_prx lp) ratestr databits stopbits
                               paritystr)\<rparr>)"

text \<open>
  What is assumed of the environment in the runs considered: the main loop gives a new
  source an identifier that is not 0; the watch on the listening socket fires only
  while the proxy has it, and a forwarding watch only while the main loop has it; and
  the proxy serves one peer at a time, that is, a peer is accepted and given its
  forwarding watches only when no forwarding watch of an earlier peer is left.
\<close>

fun proxy_event_ok :: "proxy_event \<Rightarrow> proxy_loop \<Rightarrow> bool" where
  "proxy_event_ok (PEnable env) lp = (0 < lenv_listen_watch env)"
| "proxy_event_ok PDisable lp = True"
| "proxy_event_ok (PListenReady env cond) lp =
     (listen_watch (lp_prx lp) \<noteq> 0 \<and> 0 < penv_rfcomm_watch env \<and> 0 < penv_local_watch env
      \<and> (case connect_event env cond (lp_prx lp) of
            None \<Rightarrow> True
          | Some (keep, prx', acts) \<Rightarrow> lp_forward lp = [] \<or> forward_watches acts = []))"
| "proxy_event_ok (PForwardReady i cond rs ws) lp = (i \<in> fst ` set (lp_forward lp))"
| "proxy_event_ok (PSetSerialParameters ratestr databits stopbits paritystr) lp = True"

inductive proxy_reachable :: "proxy_loop \<Rightarrow> bool" where
  reachable_tty:
    "proxy_reachable \<lparr>lp_prx = proxy_tty_register src uuid128 address sys ti, lp_forward = []\<rparr>"
| reachable_socket:
    "proxy_reachable \<lparr>lp_prx = proxy_socket_register src uuid128 address, lp_forward = []\<rparr>"
| reachable_tcp:
    "proxy_reachable \<lparr>lp_prx = proxy_tcp_register src uuid128 address, lp_forward = []\<rparr>"
| reachable_proxy_step:
    "proxy_reachable lp \<Longrightarrow> proxy_event_ok ev lp \<Longrightarrow> proxy_step ev lp = Some lp'
       \<Longrightarrow> proxy_reachable lp'"

text \<open>
  The states in which no peer has been accepted since the proxy was created or, if it
  has listened since, since it last stopped listening: a new proxy, a proxy whose
  listen watch has just gone, and whatever follows from these as long as no forwarding
  watch is created.
\<close>

inductive no_peer_accepted :: "proxy_loop \<Rightarrow> bool" where
  fresh_tty:
    "no_peer_accepted \<lparr>lp_prx = proxy_tty_register src uuid128 address sys ti, lp_forward = []\<rparr>"
| fresh_socket:
    "no_peer_accepted \<lparr>lp_prx = proxy_socket_register src uuid128 address, lp_forward = []\<rparr>"
| fresh_tcp:
    "no_peer_accepted \<lparr>lp_prx = proxy_tcp_register src uuid128 address, lp_forward = []\<rparr>"
| stopped_listening:
    "proxy_reachable lp \<Longrightarrow> proxy_event_ok ev lp \<Longrightarrow> proxy_step ev lp = Some lp'
       \<Longrightarrow> listen_watch (lp_prx lp) \<noteq> 0 \<Longrightarrow> listen_watch (lp_prx lp') = 0
       \<Longrightarrow> no_peer_accepted lp'"
| still_no_peer:
    "no_peer_accepted lp \<Longrightarrow> proxy_event_ok ev lp \<Longrightarrow> proxy_step ev lp = Some lp'
       \<Longrightarrow> lp_forward lp' = [] \<Longrightarrow> no_peer_accepted lp'"

text \<open>The invariant of the main loop of a proxy that serves one peer at a time: the
  forwarding watches left are among the two recorded in the proxy, which are set and
  reset together. And the state of a proxy that has no peer and has none recorded.\<close>

definition proxy_inv :: "proxy_loop \<Rightarrow> bool" where
  "proxy_inv lp =
     (fst ` set (lp_forward lp) \<subseteq> {rfcomm_watch (lp_prx lp), local_watch (lp_prx lp)}
      \<and> 0 \<notin> fst ` set (lp_forward lp)
      \<and> (rfcomm_watch (lp_prx lp) = 0 \<longleftrightarrow> local_watch (lp_prx lp) = 0))"

definition proxy_idle :: "proxy_loop \<Rightarrow> bool" where
  "proxy_idle lp =
     (lp_forward lp = [] \<and> rfcomm_watch (lp_prx lp) = 0 \<and> local_watch (lp_prx lp) = 0)"

fun is_forward_watch :: "proxy_action \<Rightarrow> bool" where
  "is_forward_watch (AddForwardWatch i a b) = True"
| "is_forward_watch a = False"

fun is_record_removal :: "proxy_action \<Rightarrow> bool" where
  "is_record_removal (RemoveProxyRecord r) = True"
| "is_record_removal a = False"

text \<open>
  The parameters SetSerialParameters accepts, in the words of the specification: a
  baud rate of the supported-rate table, 5 to 8 data bits, 1 or 2 stop bits, and a
  parity among even, odd, mark, none and space (compared without regard to case, as
  \<open>set_parity\<close> does).
\<close>

definition valid_serial_params :: "string \<Rightarrow> 8 word \<Rightarrow> 8 word \<Rightarrow> string \<Rightarrow> bool" where
  "valid_serial_params ratestr databits stopbits paritystr =
     (ratestr \<in> set (map fst supported_speed)
      \<and> 5 \<le> databits \<and> databits \<le> 8
      \<and> (stopbits = 1 \<or> stopbits = 2)
      \<and> list_ex (\<lambda>p. strcasecmp p paritystr = 0) [''even'', ''odd'', ''mark'', ''none'', ''space''])"

section \<open>Sample requests and states\<close>

definition ex_msg :: dbus_message where
  "ex_msg = \<lparr>msg_serial = 1, msg_sender = '':1.42'', msg_member = ''ConnectService''\<rparr>"

definition ex_msg_port :: dbus_message where
  "ex_msg_port = \<lparr>msg_serial = 2, msg_sender = '':1.42'', msg_member = ''CreatePort''\<rparr>"

text \<open>An environment in which every call succeeds, the connect being in progress.\<close>

definition ex_env :: sys_env where
  "ex_env = \<lparr>env_dev_id = 0, env_hci_devba = 0, env_src = ''00:11:22:33:44:55'',
     env_msg_new = True, env_send = True, env_reply_new = True,
     env_socket = Ok 7, env_bind = Ok 0, env_nonblock = Ok 0, env_connect = Err 115,
     env_watch_id = 3, env_alloc = 0, env_getsockopt = Ok 0, env_so_error = 0, env_createdev = Ok 0,
     env_open = Ok 9, env_rfcomm_bind = Ok 0, env_port_path = ''/org/bluez/serial/rfcomm0''\<rparr>"

definition ex_sdp :: "(nat, nat) sdp_ops" where
  "ex_sdp = \<lparr>sdp_extract_pdu = (\<lambda>bs. Some (0, int (length bs))),
     sdp_get_access_protos = (\<lambda>r. Some 0), sdp_get_proto_port = (\<lambda>p. 3),
     sdp_svcname = (\<lambda>r. None)\<rparr>"

definition ex_pc :: pending_connect where
  "ex_pc = new_pending_connect 0 ex_env ex_msg ''00:1A:7D:DA:71:13'' ''spp''"

definition ex_state :: manager where
  "ex_state = \<lparr>pending_connects = [ex_pc], ports_paths = []\<rparr>"

text \<open>A request whose connect is in progress, and an environment in which the device
  node cannot be opened yet (\<open>ENOENT\<close>).\<close>

definition ex_pc_connecting :: pending_connect where
  "ex_pc_connecting = ex_pc\<lparr>pc_channel := 3, pc_io_id := 3, pc_io := Some 7\<rparr>"

definition ex_state_connecting :: manager where
  "ex_state_connecting = \<lparr>pending_connects = [ex_pc_connecting], ports_paths = []\<rparr>"

definition ex_env_no_node :: sys_env where
  "ex_env_no_node = ex_env\<lparr>env_open := Err 2\<rparr>"

text \<open>A ConnectService for channel 3 whose connect has completed and whose device
  \<open>rfcomm0\<close> is bound, the first open having failed with \<open>ENOENT\<close>; then the same
  request after CancelConnectService.\<close>

definition ex_msg_cancel :: dbus_message where
  "ex_msg_cancel = \<lparr>msg_serial = 3, msg_sender = '':1.42'', msg_member = ''CancelConnectService''\<rparr>"

definition ex_state_bound :: manager where
  "ex_state_bound =
     fst (step ex_sdp ex_env_no_node (EvConnectReady 0 G_IO_OUT)
       (fst (step ex_sdp ex_env (EvConnectService ex_msg ''00:1A:7D:DA:71:13'' ''3'') manager_init)))"

definition ex_state_cancelled :: manager where
  "ex_state_cancelled =
     fst (step ex_sdp ex_env (EvCancelConnectService ex_msg_cancel ''00:1a:7d:da:71:13'' ''3'')
       ex_state_bound)"

text \<open>A request by name registered at address 0, its requester gone before the
  reply to the handle lookup, and the request of another client for which the
  allocator returns address 0 again.\<close>

definition ex_msg_other :: dbus_message where
  "ex_msg_other = \<lparr>msg_serial = 9, msg_sender = '':1.77'', msg_member = ''ConnectService''\<rparr>"

definition ex_state_first :: manager where
  "ex_state_first =
     fst (step ex_sdp ex_env (EvConnectService ex_msg ''00:1A:7D:DA:71:13'' ''spp'') manager_init)"

definition ex_state_exited :: manager where
  "ex_state_exited = fst (step ex_sdp ex_env (EvOwnerExited '':1.42'') ex_state_first)"

definition ex_state_reused :: manager where
  "ex_state_reused =
     fst (step ex_sdp ex_env (EvConnectService ex_msg_other ''00:1A:7D:DA:71:14'' ''dun'')
       ex_state_exited)"

text \<open>A request by name cancelled while its handle lookup is in flight, and a request
  by channel cancelled while its connect is in progress.\<close>

definition ex_state_lookup_cancelled :: manager where
  "ex_state_lookup_cancelled =
     fst (step ex_sdp ex_env (EvCancelConnectService ex_msg_cancel ''00:1a:7d:da:71:13'' ''SPP'')
       ex_state_first)"

definition ex_state_connect_cancelled :: manager where
  "ex_state_connect_cancelled =
     fst (step ex_sdp ex_env (EvCancelConnectService ex_msg_cancel ''00:1a:7d:da:71:13'' ''3'')
       (fst (step ex_sdp ex_env (EvConnectService ex_msg ''00:1A:7D:DA:71:13'' ''3'') manager_init)))"

text \<open>A character-device proxy as \<open>proxy_tty_register\<close> builds it, the answers of the
  environment to Enable, and the proxy once enabled: it has no peer.\<close>

definition ex_termios :: termios where
  "ex_termios = \<lparr>c_iflag = 0, c_oflag = 0, c_cflag = 0xBD, c_lflag = 0, c_cc = [],
     c_ispeed = 13, c_ospeed = 13\<rparr>"

definition ex_proxy_new :: proxy where
  "ex_proxy_new = proxy_tty_register ''00:11:22:33:44:55''
     ''00001101-0000-1000-8000-00805F9B34FB'' ''/dev/ttyS0'' ex_termios None"

definition ex_listen_env :: listen_env where
  "ex_listen_env = \<lparr>lenv_listen = Ok 5, lenv_channel = 1, lenv_record_id = 0x10005,
     lenv_listen_watch = 4\<rparr>"

definition ex_proxy :: proxy where
  "ex_proxy = \<lparr>prx_src = ''00:11:22:33:44:55'', prx_dst = ''00:00:00:00:00:00'',
     prx_uuid128 = ''00001101-0000-1000-8000-00805F9B34FB'', prx_address = ''/dev/ttyS0'',
     prx_port = 0, prx_type = TTY_PROXY, sys_ti = ex_termios, proxy_ti = ex_termios,
     prx_channel = 1, record_id = 0x10005, listen_watch = 4, rfcomm_watch = 0, local_watch = 0\<rparr>"

text \<open>An accept that succeeds while the local device cannot be opened, and one after
  which the local device is opened.\<close>

definition ex_proxy_env :: proxy_env where
  "ex_proxy_env = \<lparr>penv_accept = Ok 8, penv_raddr = ''00:1A:7D:DA:71:13'', penv_socket = Ok 9,
     penv_connect = Ok 0, penv_open = Err 2, penv_tcsetattr = Ok 0, penv_rfcomm_watch = 5,
     penv_local_watch = 6\<rparr>"

definition ex_proxy_env_open :: proxy_env where
  "ex_proxy_env_open = ex_proxy_env\<lparr>penv_open := Ok 10\<rparr>"

text \<open>The main loop of that proxy: new, enabled, and with the peer connected.\<close>

definition ex_loop_new :: proxy_loop where
  "ex_loop_new = \<lparr>lp_prx = ex_proxy_new, lp_forward = []\<rparr>"

definition ex_loop_enabled :: proxy_loop where
  "ex_loop_enabled = \<lparr>lp_prx = ex_proxy, lp_forward = []\<rparr>"

definition ex_loop_connected :: proxy_loop where
  "ex_loop_connected =
     \<lparr>lp_prx = ex_proxy\<lparr>prx_dst := ''00:1A:7D:DA:71:13'', rfcomm_watch := 5, local_watch := 6\<rparr>,
      lp_forward = [(5, 8, 10), (6, 10, 8)]\<rparr>"

text \<open>A proxy on a socket in the abstract namespace whose name has \<open>n\<close> bytes,
  enabled.\<close>

definition ex_proxy_unix :: "nat \<Rightarrow> proxy" where
  "ex_proxy_unix n =
     fst (proxy_enable ex_listen_env
       (proxy_socket_register ''00:11:22:33:44:55'' ''00001101-0000-1000-8000-00805F9B34FB''
          (''x00'' @ replicate n (CHR ''s''))))"

text \<open>An accept after which the connect to the local socket is refused.\<close>

definition ex_proxy_env_refused :: proxy_env where
  "ex_proxy_env_refused = ex_proxy_env\<lparr>penv_connect := Err 111\<rparr>"

text \<open>The peer has hung up and both forwarding watches are gone.\<close>

definition ex_loop_hung_up :: proxy_loop where
  "ex_loop_hung_up = ex_loop_connected\<lparr>lp_forward := []\<rparr>"

text \<open>The accept of a second peer while the first is connected.\<close>

definition ex_proxy_env_second :: proxy_env where
  "ex_proxy_env_second = ex_proxy_env\<lparr>penv_accept := Ok 11, penv_raddr := ''00:1A:7D:DA:71:14'',
     penv_open := Ok 12, penv_rfcomm_watch := 7, penv_local_watch := 9\<rparr>"

section \<open>Properties of the registry\<close>

lemma strcasecmp_fold_eq: "map tolower_c a = map tolower_c b \<Longrightarrow> strcasecmp a b = 0"
  by (induction a b rule: strcasecmp.induct) auto

lemma strcasecmp_refl: "strcasecmp a a = 0"
  by (rule strcasecmp_fold_eq) simp

lemma find_pending_connect_by_pattern_Some:
  "pc \<in> set l \<Longrightarrow> strcasecmp (pc_bda pc) bda = 0 \<Longrightarrow> strcasecmp (pc_pattern pc) pattern = 0
   \<Longrightarrow> \<exists>p. find_pending_connect_by_pattern l bda pattern = Some p"
  by (induction l) auto

lemma find_pending_connect_by_pattern_None:
  "find_pending_connect_by_pattern l bda pattern = None \<longleftrightarrow>
   (\<forall>p \<in> set l. \<not> (strcasecmp (pc_bda p) bda = 0 \<and> strcasecmp (pc_pattern p) pattern = 0))"
  by (induction l) auto

subsection \<open>The registry invariant\<close>

lemma subseq_in_set: "subseq xs ys \<Longrightarrow> x \<in> set xs \<Longrightarrow> x \<in> set ys"
  by (induction rule: list_emb.induct) auto

lemma sig_ok_Cons:
  "sig_ok (x # xs) = (fst x \<notin> fst ` set xs \<and> (\<forall>y \<in> set xs. \<not> key_match x y) \<and> sig_ok xs)"
  by (auto simp: sig_ok_def)

lemma sig_ok_subseq: "subseq xs ys \<Longrightarrow> sig_ok ys \<Longrightarrow> sig_ok xs"
proof (induction rule: list_emb.induct)
  case (list_emb_Nil ys)
  then show ?case by (simp add: sig_ok_def)
next
  case (list_emb_Cons xs ys y)
  then show ?case by (simp add: sig_ok_Cons)
next
  case (list_emb_Cons2 x y xs ys)
  have sub: "\<And>z. z \<in> set xs \<Longrightarrow> z \<in> set ys"
    using list_emb_Cons2.hyps(2) by (rule subseq_in_set)
  from list_emb_Cons2.prems have "sig_ok (x # ys)" using list_emb_Cons2.hyps(1) by simp
  then have a: "fst x \<notin> fst ` set ys" "\<forall>y \<in> set ys. \<not> key_match x y" "sig_ok ys"
    by (simp_all add: sig_ok_Cons)
  from a(3) have ok: "sig_ok xs" by (rule list_emb_Cons2.IH)
  from a(1) sub have b: "fst x \<notin> fst ` set xs" by blast
  from a(2) sub have c: "\<forall>y \<in> set xs. \<not> key_match x y" by blast
  from b c ok show ?case by (simp add: sig_ok_Cons)
qed

lemma registry_inv_sig_ok: "registry_inv s = sig_ok (sigs s)"
  by (simp add: registry_inv_def sig_ok_def)

lemma subseq_g_slist_remove: "subseq (map f (g_slist_remove l r)) (map f l)"
  by (induction l) auto

lemma store_pc_sigs:
  assumes "distinct (map fst (sigs s))" and "sig_of pc \<in> set (sigs s)"
  shows "sigs (store_pc pc s) = sigs s"
proof -
  have "\<And>p. p \<in> set (pending_connects s) \<Longrightarrow> pc_ref p = pc_ref pc \<Longrightarrow> sig_of p = sig_of pc"
  proof -
    fix p assume p: "p \<in> set (pending_connects s)" and r: "pc_ref p = pc_ref pc"
    then have "sig_of p \<in> set (sigs s)" by (simp add: sigs_def)
    moreover have "fst (sig_of p) = fst (sig_of pc)" using r by (simp add: sig_of_def)
    ultimately show "sig_of p = sig_of pc"
      using assms by (metis (no_types, lifting) distinct_map inj_onD)
  qed
  then show ?thesis
    by (auto simp: sigs_def store_pc_def)
qed

lemma goto_fail_sigs: "subseq (sigs (fst (goto_fail acts pc s))) (sigs s)"
  by (simp add: goto_fail_def pending_connect_remove_def sigs_def subseq_g_slist_remove)


lemma sigs_store_live:
  assumes "distinct (map fst (sigs s))" and "sig_of pc \<in> set (sigs s)" and "sig_of pc' = sig_of pc"
  shows "sigs (store_pc pc' s) = sigs s"
  using assms store_pc_sigs [of s pc'] by simp

lemma g_slist_find_sig:
  "g_slist_find l r = Some pc \<Longrightarrow> sig_of pc \<in> set (map sig_of l)"
  by (induction l) (auto split: if_splits)

lemma find_pending_sig:
  "find_pending_connect_by_pattern l bda pattern = Some pc \<Longrightarrow> sig_of pc \<in> set (map sig_of l)"
  by (induction l) (auto split: if_splits)

lemma shrinks_inv:
  assumes "shrinks s s'" and "registry_inv s"
  shows "registry_inv s'"
proof -
  from assms(1) have sub: "subseq (sigs s') (sigs s)"
    by (simp add: shrinks_def)
  from assms(2) have "sig_ok (sigs s)" by (simp add: registry_inv_sig_ok)
  with sub have "sig_ok (sigs s')" by (rule sig_ok_subseq)
  then show ?thesis by (simp add: registry_inv_sig_ok)
qed

lemma shrinks_refl [simp]: "shrinks s s"
  by (simp add: shrinks_def)

lemma shrinks_goto_fail:
  assumes "shrinks s0 s"
  shows "shrinks s0 (fst (goto_fail acts pc s))"
proof -
  from assms have sub: "subseq (sigs s) (sigs s0)"
    by (simp add: shrinks_def)
  have "subseq (sigs (fst (goto_fail acts pc s))) (sigs s)" by (rule goto_fail_sigs)
  from this sub have "subseq (sigs (fst (goto_fail acts pc s))) (sigs s0)"
    by (rule subseq_order.trans)
  then show ?thesis by (simp add: shrinks_def)
qed

lemma shrinks_store:
  assumes "distinct (map fst (sigs s))" and "sig_of pc \<in> set (sigs s)"
  shows "shrinks s (store_pc pc s)"
  using assms by (simp add: shrinks_def store_pc_sigs)

lemma rfcomm_connect_cb_shrinks:
  assumes "distinct (map fst (sigs s))" and "sig_of pc \<in> set (sigs s)"
  shows "shrinks s (fst (rfcomm_connect_cb env cond pc s))"
proof -
  have st: "\<And>pc'. sig_of pc' = sig_of pc \<Longrightarrow> shrinks s (store_pc pc' s)"
    using assms by (simp add: shrinks_store)
  have gf: "\<And>acts pc' pc''. sig_of pc' = sig_of pc \<Longrightarrow>
               shrinks s (fst (goto_fail acts pc'' (store_pc pc' s)))"
    by (rule shrinks_goto_fail) (rule st)
  have gf0: "\<And>acts pc''. shrinks s (fst (goto_fail acts pc'' s))"
    by (rule shrinks_goto_fail) simp
  show ?thesis
    unfolding rfcomm_connect_cb_def Let_def
    by (simp add: sig_of_def st gf gf0 split: prod.splits)
qed

lemma shrinks_trans:
  assumes "shrinks a b" and "shrinks b c"
  shows "shrinks a c"
proof -
  from assms(1) have 1: "subseq (sigs b) (sigs a)"
    by (simp add: shrinks_def)
  from assms(2) have 2: "subseq (sigs c) (sigs b)"
    by (simp add: shrinks_def)
  from 2 1 have "subseq (sigs c) (sigs a)" by (rule subseq_order.trans)
  then show ?thesis by (simp add: shrinks_def)
qed

lemma rfcomm_connect_shrinks:
  assumes "distinct (map fst (sigs s))" and "sig_of pc \<in> set (sigs s)"
    and "rfcomm_connect env pc s = (err, pc2, s2, acts)"
  shows "shrinks s s2 \<and> sig_of pc2 = sig_of pc \<and> (err < 0 \<longrightarrow> sigs s2 = sigs s)"
proof -
  have st: "\<And>pc'. sig_of pc' = sig_of pc \<Longrightarrow> sigs (store_pc pc' s) = sigs s"
    using assms(1,2) by (rule sigs_store_live)
  let ?pc1 = "pc\<lparr>pc_io := Some (sys_ret (env_socket env))\<rparr>"
  have s1: "sigs (store_pc ?pc1 s) = sigs s" by (rule st) (simp add: sig_of_def)
  have "shrinks (store_pc ?pc1 s) (fst (rfcomm_connect_cb env G_IO_OUT ?pc1 (store_pc ?pc1 s)))"
    by (rule rfcomm_connect_cb_shrinks) (simp_all add: s1 assms(1), use assms(2) in \<open>simp add: sig_of_def\<close>)
  then have cb: "shrinks s (fst (rfcomm_connect_cb env G_IO_OUT ?pc1 (store_pc ?pc1 s)))"
    by (simp add: shrinks_def s1)
  show ?thesis
    using assms(3) cb unfolding rfcomm_connect_def Let_def
    by (auto simp: st sig_of_def shrinks_def EAGAIN_def EINPROGRESS_def split: if_splits prod.splits)
qed

lemma record_reply_shrinks:
  assumes D: "distinct (map fst (sigs s))"
  shows "shrinks s (fst (record_reply sdp env data reply s))"
proof (cases "g_slist_find (pending_connects s) data")
  case None
  then show ?thesis by (simp add: record_reply_def)
next
  case (Some pc)
  then have L: "sig_of pc \<in> set (sigs s)" unfolding sigs_def by (rule g_slist_find_sig)
  have gf0: "\<And>acts pc''. shrinks s (fst (goto_fail acts pc'' s))"
    by (rule shrinks_goto_fail) simp
  have gfp: "\<And>acts pc'' p. shrinks s (fst (goto_fail acts pc'' (s\<lparr>ports_paths := p\<rparr>)))"
    by (rule shrinks_goto_fail) (simp add: shrinks_def sigs_def)
  have rc: "shrinks s s2"
    if "rfcomm_connect env (pc\<lparr>pc_channel := c\<rparr>) (store_pc (pc\<lparr>pc_channel := c\<rparr>) s)
          = (err, pc2, s2, acts)" for c err pc2 s2 acts
  proof -
    let ?pc1 = "pc\<lparr>pc_channel := c\<rparr>"
    have s1: "sigs (store_pc ?pc1 s) = sigs s"
      using D L by (rule sigs_store_live) (simp add: sig_of_def)
    have "shrinks (store_pc ?pc1 s) s2 \<and> sig_of pc2 = sig_of ?pc1
            \<and> (err < 0 \<longrightarrow> sigs s2 = sigs (store_pc ?pc1 s))"
    proof (rule rfcomm_connect_shrinks [OF _ _ that])
      show "distinct (map fst (sigs (store_pc ?pc1 s)))" using D by (simp add: s1)
      show "sig_of ?pc1 \<in> set (sigs (store_pc ?pc1 s))" using L by (simp add: s1 sig_of_def)
    qed
    then show ?thesis by (simp add: shrinks_def s1)
  qed
  have rcf: "shrinks s (fst (goto_fail a pc2 s2))"
    if "rfcomm_connect env (pc\<lparr>pc_channel := c\<rparr>) (store_pc (pc\<lparr>pc_channel := c\<rparr>) s)
          = (err, pc2, s2, acts)" for c err pc2 s2 acts a
    by (rule shrinks_goto_fail) (rule rc [OF that])
  show ?thesis
    using Some unfolding record_reply_def Let_def
    by (auto simp: gf0 gfp split: dbus_reply.splits option.splits prod.splits intro: rc rcf)
qed

lemma handles_reply_shrinks: "shrinks s (fst (handles_reply env data reply s))"
proof -
  have gf0: "\<And>acts pc''. shrinks s (fst (goto_fail acts pc'' s))"
    by (rule shrinks_goto_fail) simp
  show ?thesis
    unfolding handles_reply_def
    by (auto simp: gf0 split: dbus_reply.splits option.splits prod.splits list.splits)
qed

lemma open_continue_shrinks:
  assumes D: "distinct (map fst (sigs s))"
  shows "shrinks s (fst (snd (open_continue opn data s)))"
proof (cases "g_slist_find (pending_connects s) data")
  case None
  then show ?thesis by (simp add: open_continue_def)
next
  case (Some pc)
  then have L: "sig_of pc \<in> set (sigs s)" unfolding sigs_def by (rule g_slist_find_sig)
  have gf0: "\<And>acts pc''. shrinks s (fst (goto_fail acts pc'' s))"
    by (rule shrinks_goto_fail) simp
  have st: "\<And>pc'. sig_of pc' = sig_of pc \<Longrightarrow> shrinks s (store_pc pc' s)"
    using D L by (simp add: shrinks_def sigs_store_live)
  have gf: "\<And>acts pc' pc''. sig_of pc' = sig_of pc \<Longrightarrow>
               shrinks s (fst (goto_fail acts pc'' (store_pc pc' s)))"
    by (rule shrinks_goto_fail) (rule st)
  show ?thesis
    using Some unfolding open_continue_def Let_def
    by (simp add: gf0 st gf sig_of_def split: prod.splits)
qed

lemma registry_inv_distinct: "registry_inv s \<Longrightarrow> distinct (map fst (sigs s))"
  by (simp add: registry_inv_def)

lemma registry_inv_fields [simp]:
  "registry_inv (s\<lparr>ports_paths := p\<rparr>) = registry_inv s"
  by (simp add: registry_inv_def sigs_def)

lemma registry_inv_append:
  assumes "registry_inv s"
    and "find_pending_connect_by_pattern (pending_connects s) (pc_bda pc) (pc_pattern pc) = None"
    and "pc_ref pc \<notin> pc_ref ` set (pending_connects s)"
  shows "registry_inv (g_slist_append s pc)"
proof -
  from assms(2) have nm: "\<forall>p \<in> set (pending_connects s). \<not> key_match (sig_of p) (sig_of pc)"
    by (simp add: find_pending_connect_by_pattern_None key_match_def sig_of_def)
  show ?thesis
    using assms(1,3) nm
    by (auto simp: registry_inv_def sigs_def g_slist_append_def sorted_wrt_append
                   sig_of_def image_iff)
qed

lemma registry_inv_remove:
  assumes "registry_inv s"
  shows "registry_inv (s\<lparr>pending_connects := g_slist_remove (pending_connects s) r\<rparr>)"
proof -
  have "shrinks s (s\<lparr>pending_connects := g_slist_remove (pending_connects s) r\<rparr>)"
    by (simp add: shrinks_def sigs_def subseq_g_slist_remove)
  then show ?thesis using assms by (rule shrinks_inv)
qed

lemma owner_exited_loop_subseq:
  "subseq (map f (fst (transaction_owner_exited_loop name l))) (map f l)"
  by (induction l) (auto split: prod.splits)

lemma transaction_owner_exited_inv:
  assumes "registry_inv s"
  shows "registry_inv (fst (transaction_owner_exited name s))"
proof -
  have "shrinks s (fst (transaction_owner_exited name s))"
    using owner_exited_loop_subseq [of sig_of name "pending_connects s"]
    by (auto simp: shrinks_def sigs_def transaction_owner_exited_def split: prod.splits)
  then show ?thesis using assms by (rule shrinks_inv)
qed

lemma owner_exited_loop_filter:
  "fst (transaction_owner_exited_loop name l) = filter (\<lambda>pc. msg_sender (pc_msg pc) \<noteq> name) l"
  by (induction l) (auto split: prod.splits)

lemma g_slist_find_None_iff: "g_slist_find l r = None \<longleftrightarrow> r \<notin> pc_ref ` set l"
  by (induction l) auto

lemma owner_exited_absent:
  assumes "registry_inv s" and "pc \<in> set (pending_connects s)"
    and "msg_sender (pc_msg pc) = name"
  shows "g_slist_find (pending_connects (fst (transaction_owner_exited name s))) (pc_ref pc) = None"
proof -
  from assms(1) have d: "distinct (map pc_ref (pending_connects s))"
    by (simp add: registry_inv_def sigs_def sig_of_def comp_def)
  have l: "pending_connects (fst (transaction_owner_exited name s))
         = filter (\<lambda>pc. msg_sender (pc_msg pc) \<noteq> name) (pending_connects s)"
  proof (cases "transaction_owner_exited_loop name (pending_connects s)")
    case (Pair tmp acts)
    with owner_exited_loop_filter [of name "pending_connects s"] show ?thesis
      by (simp add: transaction_owner_exited_def)
  qed
  have "pc_ref pc \<notin> pc_ref ` set (filter (\<lambda>pc. msg_sender (pc_msg pc) \<noteq> name) (pending_connects s))"
  proof
    assume "pc_ref pc \<in> pc_ref ` set (filter (\<lambda>pc. msg_sender (pc_msg pc) \<noteq> name) (pending_connects s))"
    then obtain p where p: "p \<in> set (pending_connects s)" "msg_sender (pc_msg p) \<noteq> name"
      "pc_ref p = pc_ref pc" by auto
    from d p(1) assms(2) p(3) have "p = pc" by (meson distinct_map inj_onD)
    with p(2) assms(3) show False by simp
  qed
  then show ?thesis by (simp add: l g_slist_find_None_iff)
qed

lemma manager_unregister_inv: "registry_inv (fst (manager_unregister s))"
  by (simp add: manager_unregister_def registry_inv_def sigs_def)

lemma cancel_connect_service_inv:
  assumes "registry_inv s"
  shows "registry_inv (fst (cancel_connect_service env m bda pattern s))"
proof (cases "find_pending_connect_by_pattern (pending_connects s) bda pattern")
  case None
  then show ?thesis using assms by (simp add: cancel_connect_service_def)
next
  case (Some pc)
  then have L: "sig_of pc \<in> set (sigs s)" unfolding sigs_def by (rule find_pending_sig)
  have "shrinks s (store_pc (pc\<lparr>pc_canceled := 1\<rparr>) s)"
    using registry_inv_distinct [OF assms(1)] L
    by (simp add: shrinks_def sigs_store_live sig_of_def)
  then have "registry_inv (store_pc (pc\<lparr>pc_canceled := 1\<rparr>) s)" using assms by (rule shrinks_inv)
  then show ?thesis using Some assms by (simp add: cancel_connect_service_def)
qed

lemma new_pending_connect_sel [simp]:
  "pc_ref (new_pending_connect r env m bda pattern) = r"
  "pc_bda (new_pending_connect r env m bda pattern) = bda"
  "pc_pattern (new_pending_connect r env m bda pattern) = pattern"
  by (simp_all add: new_pending_connect_def)

lemma create_port_inv:
  assumes "registry_inv s" and fresh: "alloc_fresh env s"
  shows "registry_inv (fst (create_port env m bda pattern s))"
proof (cases "find_pending_connect_by_pattern (pending_connects s) bda pattern")
  case (Some pc)
  then show ?thesis using assms by (simp add: create_port_def)
next
  case None
  have b: "registry_inv s"
    using assms(1) .
  have a: "registry_inv (g_slist_append s
              (new_pending_connect (env_alloc env) env m bda pattern))"
    using assms None by (intro registry_inv_append) (simp_all add: alloc_fresh_def)
  show ?thesis
    using None assms a b unfolding create_port_def Let_def
    by (simp split: sum.splits prod.splits)
qed

lemma connect_service_from_devid_inv:
  assumes "registry_inv s" and fresh: "alloc_fresh env s"
  shows "registry_inv (fst (connect_service_from_devid env m bda pattern s))"
proof (cases "find_pending_connect_by_pattern (pending_connects s) bda pattern")
  case (Some pc)
  then show ?thesis using assms by (simp add: connect_service_from_devid_def)
next
  case None
  have b: "registry_inv s"
    using assms(1) .
  have a: "registry_inv (g_slist_append s
              (new_pending_connect (env_alloc env) env m bda pattern))"
    using assms None by (intro registry_inv_append) (simp_all add: alloc_fresh_def)
  have c: "registry_inv s2 \<and> registry_inv (s2\<lparr>pending_connects := g_slist_remove (pending_connects s2) r\<rparr>)"
    if "rfcomm_connect env ((new_pending_connect (env_alloc env) env m bda pattern)\<lparr>pc_channel := ch\<rparr>)
          (g_slist_append s
             ((new_pending_connect (env_alloc env) env m bda pattern)\<lparr>pc_channel := ch\<rparr>))
        = (err, pc2, s2, acts)" for ch err pc2 s2 acts r
  proof -
    let ?pc1 = "(new_pending_connect (env_alloc env) env m bda pattern)\<lparr>pc_channel := ch\<rparr>"
    let ?s1 = "g_slist_append s ?pc1"
    have i1: "registry_inv ?s1"
      using assms None by (intro registry_inv_append) (simp_all add: alloc_fresh_def)
    have "shrinks ?s1 s2 \<and> sig_of pc2 = sig_of ?pc1 \<and> (err < 0 \<longrightarrow> sigs s2 = sigs ?s1)"
    proof (rule rfcomm_connect_shrinks [OF _ _ that])
      show "distinct (map fst (sigs ?s1))" using i1 by (rule registry_inv_distinct)
      show "sig_of ?pc1 \<in> set (sigs ?s1)" by (simp add: sigs_def g_slist_append_def)
    qed
    then have "shrinks ?s1 s2" by simp
    then have "registry_inv s2" using i1 by (rule shrinks_inv)
    then show ?thesis by (simp add: registry_inv_remove)
  qed
  show ?thesis
    using None assms a b unfolding connect_service_from_devid_def Let_def
    by (auto split: sum.splits prod.splits dest: c)
qed

lemma step_inv:
  assumes "registry_inv s" and fresh: "alloc_fresh env s"
  shows "registry_inv (fst (step sdp env ev s))"
proof (cases ev)
  case (EvCreatePort m bda pattern)
  then show ?thesis using assms by (simp add: create_port_inv)
next
  case (EvConnectService m bda pattern)
  then show ?thesis using assms by (simp add: connect_service_from_devid_inv)
next
  case (EvCancelConnectService m bda pattern)
  then show ?thesis using assms by (simp add: cancel_connect_service_inv)
next
  case (EvHandlesReply data reply)
  have "shrinks s (fst (handles_reply env data reply s))" by (rule handles_reply_shrinks)
  then show ?thesis using assms EvHandlesReply by (simp add: shrinks_inv)
next
  case (EvRecordReply data reply)
  have "shrinks s (fst (record_reply sdp env data reply s))"
    using registry_inv_distinct [OF assms(1)] by (rule record_reply_shrinks)
  then show ?thesis using assms EvRecordReply by (simp add: shrinks_inv)
next
  case (EvConnectReady data cond)
  show ?thesis
  proof (cases "g_slist_find (pending_connects s) data")
    case None
    then show ?thesis using assms EvConnectReady by simp
  next
    case (Some pc)
    then have L: "sig_of pc \<in> set (sigs s)" unfolding sigs_def by (rule g_slist_find_sig)
    have "shrinks s (fst (rfcomm_connect_cb env cond pc s))"
      using registry_inv_distinct [OF assms(1)] L by (rule rfcomm_connect_cb_shrinks)
    then show ?thesis using assms EvConnectReady Some by (simp add: shrinks_inv)
  qed
next
  case (EvOpenTimeout data)
  have "shrinks s (fst (snd (open_continue (env_open env) data s)))"
    using registry_inv_distinct [OF assms(1)] by (rule open_continue_shrinks)
  then show ?thesis using assms EvOpenTimeout by (simp add: shrinks_inv)
next
  case (EvOwnerExited name)
  then show ?thesis using assms by (simp add: transaction_owner_exited_inv)
next
  case EvManagerUnregister
  then show ?thesis by (simp add: manager_unregister_inv)
qed

lemma reachable_inv: "reachable sdp s \<Longrightarrow> registry_inv s"
proof (induction rule: reachable.induct)
  case reachable_init
  show ?case by (simp add: manager_init_def registry_inv_def sigs_def)
next
  case (reachable_step s env ev)
  then show ?case by (simp add: step_inv)
qed

lemma registry_inv_at_most_one:
  assumes "sorted_wrt (\<lambda>x y. \<not> key_match x y) (map sig_of l)"
  shows "length (filter (\<lambda>p. pc_bda p = bda \<and> pc_pattern p = pattern) l) \<le> 1"
  using assms
proof (induction l)
  case Nil
  show ?case by simp
next
  case (Cons p l)
  show ?case
  proof (cases "pc_bda p = bda \<and> pc_pattern p = pattern")
    case False
    then show ?thesis using Cons by auto
  next
    case True
    have "filter (\<lambda>p. pc_bda p = bda \<and> pc_pattern p = pattern) l = []"
    proof (rule ccontr)
      assume "filter (\<lambda>p. pc_bda p = bda \<and> pc_pattern p = pattern) l \<noteq> []"
      then obtain q where q: "q \<in> set l" "pc_bda q = bda" "pc_pattern q = pattern"
        by (auto simp: filter_empty_conv)
      then have "key_match (sig_of p) (sig_of q)"
        using True by (simp add: key_match_def sig_of_def strcasecmp_refl)
      moreover have "\<not> key_match (sig_of p) (sig_of q)"
        using Cons.prems q(1) by auto
      ultimately show False by simp
    qed
    then show ?thesis using True by simp
  qed
qed

lemma ex_state_cancelled_reachable: "reachable ex_sdp ex_state_cancelled"
proof -
  let ?s1 = "fst (step ex_sdp ex_env (EvConnectService ex_msg ''00:1A:7D:DA:71:13'' ''3'') manager_init)"
  have f0: "alloc_fresh ex_env manager_init" by (simp add: alloc_fresh_def manager_init_def)
  have r1: "reachable ex_sdp ?s1"
    using reachable_init f0 by (rule reachable_step)
  have f1: "alloc_fresh (ex_env_no_node\<lparr>env_alloc := 1\<rparr>) ?s1" by code_simp
  have e1: "fst (step ex_sdp (ex_env_no_node\<lparr>env_alloc := 1\<rparr>) (EvConnectReady 0 G_IO_OUT) ?s1)
      = ex_state_bound" by code_simp
  have r2: "reachable ex_sdp ex_state_bound"
    using reachable_step [OF r1 f1, of "EvConnectReady 0 G_IO_OUT"] by (simp only: e1)
  have f2: "alloc_fresh (ex_env\<lparr>env_alloc := 1\<rparr>) ex_state_bound" by code_simp
  have e2: "fst (step ex_sdp (ex_env\<lparr>env_alloc := 1\<rparr>)
              (EvCancelConnectService ex_msg_cancel ''00:1a:7d:da:71:13'' ''3'') ex_state_bound)
      = ex_state_cancelled" by code_simp
  show ?thesis
    using reachable_step [OF r2 f2, of "EvCancelConnectService ex_msg_cancel ''00:1a:7d:da:71:13'' ''3''"]
    by (simp only: e2)
qed

lemma ex_state_reused_reachable: "reachable ex_sdp ex_state_reused"
proof -
  have f0: "alloc_fresh ex_env manager_init" by (simp add: alloc_fresh_def manager_init_def)
  have r1: "reachable ex_sdp ex_state_first"
    unfolding ex_state_first_def using reachable_init f0 by (rule reachable_step)
  have f1: "alloc_fresh (ex_env\<lparr>env_alloc := 1\<rparr>) ex_state_first" by code_simp
  have e1: "fst (step ex_sdp (ex_env\<lparr>env_alloc := 1\<rparr>) (EvOwnerExited '':1.42'') ex_state_first)
      = ex_state_exited" by code_simp
  have r2: "reachable ex_sdp ex_state_exited"
    using reachable_step [OF r1 f1, of "EvOwnerExited '':1.42''"] by (simp only: e1)
  have f2: "alloc_fresh ex_env ex_state_exited" by code_simp
  show ?thesis
    unfolding ex_state_reused_def using r2 f2 by (rule reachable_step)
qed

lemma ex_state_lookup_cancelled_reachable: "reachable ex_sdp ex_state_lookup_cancelled"
proof -
  have f0: "alloc_fresh ex_env manager_init" by (simp add: alloc_fresh_def manager_init_def)
  have r1: "reachable ex_sdp ex_state_first"
    unfolding ex_state_first_def using reachable_init f0 by (rule reachable_step)
  have f1: "alloc_fresh (ex_env\<lparr>env_alloc := 1\<rparr>) ex_state_first" by code_simp
  have e1: "fst (step ex_sdp (ex_env\<lparr>env_alloc := 1\<rparr>)
              (EvCancelConnectService ex_msg_cancel ''00:1a:7d:da:71:13'' ''SPP'') ex_state_first)
      = ex_state_lookup_cancelled" by code_simp
  show ?thesis
    using reachable_step [OF r1 f1, of "EvCancelConnectService ex_msg_cancel ''00:1a:7d:da:71:13'' ''SPP''"]
    by (simp only: e1)
qed

lemma ex_state_connect_cancelled_reachable: "reachable ex_sdp ex_state_connect_cancelled"
proof -
  let ?s1 = "fst (step ex_sdp ex_env (EvConnectService ex_msg ''00:1A:7D:DA:71:13'' ''3'') manager_init)"
  have f0: "alloc_fresh ex_env manager_init" by (simp add: alloc_fresh_def manager_init_def)
  have r1: "reachable ex_sdp ?s1"
    using reachable_init f0 by (rule reachable_step)
  have f1: "alloc_fresh (ex_env\<lparr>env_alloc := 1\<rparr>) ?s1" by code_simp
  have e1: "fst (step ex_sdp (ex_env\<lparr>env_alloc := 1\<rparr>)
              (EvCancelConnectService ex_msg_cancel ''00:1a:7d:da:71:13'' ''3'') ?s1)
      = ex_state_connect_cancelled" by code_simp
  show ?thesis
    using reachable_step [OF r1 f1, of "EvCancelConnectService ex_msg_cancel ''00:1a:7d:da:71:13'' ''3''"]
    by (simp only: e1)
qed

text \<open>
  C3. While a pending connection for an address and a pattern is registered, a second
  ConnectService or CreatePort for the same address and pattern is answered with
  InProgress and the state, the list of pending connections included, is left as it
  was. Hence, in every state the manager can reach, at most one pending connection is
  registered for any one address and pattern.
\<close>

theorem duplicate_request_rejected:
  "(pc \<in> set (pending_connects s) \<longrightarrow>
      connect_service_from_devid env m (pc_bda pc) (pc_pattern pc) s
        = (s, [Reply m (ErrInProgress ''Connection in progress'')])
      \<and> create_port env m (pc_bda pc) (pc_pattern pc) s
        = (s, [Reply m (ErrInProgress ''Connection in progress'')]))
   \<and> (reachable sdp s \<longrightarrow>
        length (filter (\<lambda>p. pc_bda p = bda \<and> pc_pattern p = pattern) (pending_connects s)) \<le> 1)"
proof (intro conjI impI)
  assume "pc \<in> set (pending_connects s)"
  then obtain p where
    f: "find_pending_connect_by_pattern (pending_connects s) (pc_bda pc) (pc_pattern pc) = Some p"
    using find_pending_connect_by_pattern_Some strcasecmp_refl by blast
  show "connect_service_from_devid env m (pc_bda pc) (pc_pattern pc) s
        = (s, [Reply m (ErrInProgress ''Connection in progress'')])"
    using f by (simp add: connect_service_from_devid_def)
  show "create_port env m (pc_bda pc) (pc_pattern pc) s
        = (s, [Reply m (ErrInProgress ''Connection in progress'')])"
    using f by (simp add: create_port_def)
next
  assume "reachable sdp s"
  then have "registry_inv s" by (rule reachable_inv)
  then have "sorted_wrt (\<lambda>x y. \<not> key_match x y) (map sig_of (pending_connects s))"
    by (simp add: registry_inv_def sigs_def)
  then show "length (filter (\<lambda>p. pc_bda p = bda \<and> pc_pattern p = pattern) (pending_connects s)) \<le> 1"
    by (rule registry_inv_at_most_one)
qed

theorem duplicate_request_rejected_witness:
  "ex_pc \<in> set (pending_connects ex_state)
   \<and> reachable ex_sdp ex_state
   \<and> connect_service_from_devid ex_env ex_msg (pc_bda ex_pc) (pc_pattern ex_pc) ex_state
        = (ex_state, [Reply ex_msg (ErrInProgress ''Connection in progress'')])
   \<and> create_port ex_env ex_msg (pc_bda ex_pc) (pc_pattern ex_pc) ex_state
        = (ex_state, [Reply ex_msg (ErrInProgress ''Connection in progress'')])
   \<and> length (filter (\<lambda>p. pc_bda p = ''00:1A:7D:DA:71:13'' \<and> pc_pattern p = ''spp'')
        (pending_connects ex_state)) \<le> 1"
proof -
  have h1: "ex_pc \<in> set (pending_connects ex_state)" by (simp add: ex_state_def)
  have "fst (step ex_sdp ex_env (EvConnectService ex_msg ''00:1A:7D:DA:71:13'' ''spp'') manager_init)
          = ex_state" by code_simp
  then have h2: "reachable ex_sdp ex_state"
    using reachable_step [OF reachable_init, of ex_env ex_sdp "EvConnectService ex_msg ''00:1A:7D:DA:71:13'' ''spp''"]
    by (simp add: alloc_fresh_def manager_init_def)
  from duplicate_request_rejected [of ex_pc ex_state ex_env ex_msg ex_sdp "''00:1A:7D:DA:71:13''" "''spp''"]
    h1 h2 show ?thesis by blast
qed

text \<open>The three callbacks return at once, with the state unchanged and nothing sent,
  when no registered structure has the address they were given.\<close>

lemma callbacks_return_when_address_absent:
  assumes "g_slist_find (pending_connects s) data = None"
  shows "handles_reply env data hreply s = (s, [])
       \<and> record_reply sdp env data rreply s = (s, [])
       \<and> open_continue opn data s = (False, s, [])"
  using assms by (simp add: handles_reply_def record_reply_def open_continue_def)

text \<open>So a reply or a tick that comes after the requester of a registered request
  has left the bus is discarded, unless another structure has been given the address
  since.\<close>

lemma callbacks_discard_after_owner_exit:
  assumes "registry_inv s" and "pc \<in> set (pending_connects s)"
    and "msg_sender (pc_msg pc) = name"
  shows "handles_reply env (pc_ref pc) hreply (fst (transaction_owner_exited name s))
           = (fst (transaction_owner_exited name s), [])
       \<and> record_reply sdp env (pc_ref pc) rreply (fst (transaction_owner_exited name s))
           = (fst (transaction_owner_exited name s), [])
       \<and> open_continue opn (pc_ref pc) (fst (transaction_owner_exited name s))
           = (False, fst (transaction_owner_exited name s), [])"
  using owner_exited_absent [OF assms] by (rule callbacks_return_when_address_absent)

text \<open>
  C9. A callback whose pending connection was destroyed while the reply was in flight
  has to discard the reply, changing nothing and answering nobody. The callbacks test
  this by looking the address they were given up in the registry, the discovery call
  is not cancelled when the structure is freed, and the allocator may hand the address
  of a freed structure out again. So the test can pass for a structure that belongs to
  another request: the client \<open>:1.42\<close> asks for \<open>spp\<close> and its request is registered
  at address 0 with the handle lookup sent; the client exits and the request is freed;
  the client \<open>:1.77\<close> asks for \<open>dun\<close> on another device and its request gets address 0.
  The state is reachable. The late reply to the first lookup, carrying no handle, is
  then answered to \<open>:1.77\<close> with NotSupported and the second request is removed; a
  late reply carrying the handle 0x10001 makes the manager fetch that record on the
  device of the second request.
\<close>

theorem stale_reply_hits_reused_address:
  "step ex_sdp ex_env (EvConnectService ex_msg ''00:1A:7D:DA:71:13'' ''spp'') manager_init
     = (ex_state_first,
        [GetRemoteServiceHandles 0 ''/org/bluez/hci0'' ''00:1A:7D:DA:71:13'' (ClassUuid 0x1101),
         NameListenerAdd '':1.42''])
   \<and> map pc_ref (pending_connects ex_state_first) = [0]
   \<and> step ex_sdp ex_env (EvOwnerExited '':1.42'') ex_state_first = (manager_init, [])
   \<and> ex_state_exited = manager_init
   \<and> alloc_fresh ex_env ex_state_exited
   \<and> map pc_ref (pending_connects ex_state_reused) = [0]
   \<and> map pc_msg (pending_connects ex_state_reused) = [ex_msg_other]
   \<and> handles_reply ex_env 0 (ReplyArgs []) ex_state_reused
       = (manager_init, [Reply ex_msg_other ErrNotSupported, NameListenerRemove '':1.77''])
   \<and> handles_reply ex_env 0 (ReplyArgs [0x10001]) ex_state_reused
       = (ex_state_reused,
          [GetRemoteServiceRecord 0 ''/org/bluez/hci0'' ''00:1A:7D:DA:71:14'' 0x10001])
   \<and> handles_reply ex_env 0 (ReplyArgs []) ex_state_reused \<noteq> (ex_state_reused, [])
   \<and> record_reply ex_sdp ex_env 0 (ReplyArgs []) ex_state_reused
       = (manager_init, [Reply ex_msg_other ErrNotSupported, NameListenerRemove '':1.77''])
   \<and> reachable ex_sdp ex_state_reused"
proof -
  have "reachable ex_sdp ex_state_reused" by (rule ex_state_reused_reachable)
  moreover have "step ex_sdp ex_env (EvConnectService ex_msg ''00:1A:7D:DA:71:13'' ''spp'') manager_init
     = (ex_state_first,
        [GetRemoteServiceHandles 0 ''/org/bluez/hci0'' ''00:1A:7D:DA:71:13'' (ClassUuid 0x1101),
         NameListenerAdd '':1.42''])" by code_simp
  moreover have "map pc_ref (pending_connects ex_state_first) = [0]" by code_simp
  moreover have "step ex_sdp ex_env (EvOwnerExited '':1.42'') ex_state_first = (manager_init, [])"
    by code_simp
  moreover have "ex_state_exited = manager_init" by code_simp
  moreover have "alloc_fresh ex_env ex_state_exited" by code_simp
  moreover have "map pc_ref (pending_connects ex_state_reused) = [0]" by code_simp
  moreover have "map pc_msg (pending_connects ex_state_reused) = [ex_msg_other]" by code_simp
  moreover have "handles_reply ex_env 0 (ReplyArgs []) ex_state_reused
       = (manager_init, [Reply ex_msg_other ErrNotSupported, NameListenerRemove '':1.77''])"
    by code_simp
  moreover have "handles_reply ex_env 0 (ReplyArgs [0x10001]) ex_state_reused
       = (ex_state_reused,
          [GetRemoteServiceRecord 0 ''/org/bluez/hci0'' ''00:1A:7D:DA:71:14'' 0x10001])"
    by code_simp
  moreover have "handles_reply ex_env 0 (ReplyArgs []) ex_state_reused \<noteq> (ex_state_reused, [])"
    by code_simp
  moreover have "record_reply ex_sdp ex_env 0 (ReplyArgs []) ex_state_reused
       = (manager_init, [Reply ex_msg_other ErrNotSupported, NameListenerRemove '':1.77''])"
    by code_simp
  ultimately show ?thesis by simp
qed

text \<open>
  C10. The duplicate check compares the remote address and the pattern without regard
  to letter case: when a registered pending connection has an address and a pattern
  that differ from those of a new request only in the case of ASCII letters, both
  ConnectService and CreatePort answer InProgress and leave the state as it is.
\<close>

theorem duplicate_detection_ignores_case:
  assumes "pc \<in> set (pending_connects s)"
    and "map tolower_c (pc_bda pc) = map tolower_c bda"
    and "map tolower_c (pc_pattern pc) = map tolower_c pattern"
  shows "connect_service_from_devid env m bda pattern s
           = (s, [Reply m (ErrInProgress ''Connection in progress'')])
       \<and> create_port env m bda pattern s
           = (s, [Reply m (ErrInProgress ''Connection in progress'')])"
proof -
  from assms obtain p where
    "find_pending_connect_by_pattern (pending_connects s) bda pattern = Some p"
    using find_pending_connect_by_pattern_Some strcasecmp_fold_eq by blast
  then show ?thesis
    by (simp add: connect_service_from_devid_def create_port_def)
qed

theorem duplicate_detection_ignores_case_witness:
  "ex_pc \<in> set (pending_connects ex_state)
   \<and> map tolower_c (pc_bda ex_pc) = map tolower_c ''00:1a:7d:da:71:13''
   \<and> map tolower_c (pc_pattern ex_pc) = map tolower_c ''SPP''
   \<and> connect_service_from_devid ex_env ex_msg ''00:1a:7d:da:71:13'' ''SPP'' ex_state
       = (ex_state, [Reply ex_msg (ErrInProgress ''Connection in progress'')])
   \<and> create_port ex_env ex_msg_port ''00:1a:7d:da:71:13'' ''SPP'' ex_state
       = (ex_state, [Reply ex_msg_port (ErrInProgress ''Connection in progress'')])"
proof -
  have h1: "ex_pc \<in> set (pending_connects ex_state)" by (simp add: ex_state_def)
  have h2: "map tolower_c (pc_bda ex_pc) = map tolower_c ''00:1a:7d:da:71:13''"
    by code_simp
  have h3: "map tolower_c (pc_pattern ex_pc) = map tolower_c ''SPP''"
    by code_simp
  from duplicate_detection_ignores_case [OF h1 h2 h3] h1 h2 h3 show ?thesis by blast
qed


section \<open>Pattern classification at Submit\<close>

lemma tolower_c_zero [simp]: "tolower_c (CHR ''0'') = CHR ''0''"
  by (simp add: tolower_c_def)

lemma tolower_c_x [simp]: "tolower_c (CHR ''x'') = CHR ''x''"
  by (simp add: tolower_c_def)

lemma of_char_48 [simp]: "((of_char c :: nat) = 48) = (c = CHR ''0'')"
proof -
  have "((of_char c :: nat) = of_char (CHR ''0'')) = (c = CHR ''0'')" by (rule of_char_eq_iff)
  then show ?thesis by simp
qed

lemma of_char_120 [simp]: "((of_char c :: nat) = 120) = (c = CHR ''x'')"
proof -
  have "((of_char c :: nat) = of_char (CHR ''x'')) = (c = CHR ''x'')" by (rule of_char_eq_iff)
  then show ?thesis by simp
qed

lemma hex_prefix_shape:
  assumes "strncasecmp ''0x'' pattern 2 = 0"
  shows "\<exists>c1 c2 rest. pattern = c1 # c2 # rest \<and> tolower_c c1 = CHR ''0'' \<and> tolower_c c2 = CHR ''x''"
proof (cases pattern)
  case Nil
  with assms show ?thesis by (simp add: numeral_2_eq_2)
next
  case (Cons c1 r1)
  show ?thesis
  proof (cases r1)
    case Nil
    with Cons assms show ?thesis
      by (simp add: numeral_2_eq_2 split: if_splits)
  next
    case (Cons c2 rest)
    with \<open>pattern = c1 # r1\<close> assms show ?thesis
      by (simp add: numeral_2_eq_2 split: if_splits)
  qed
qed

lemma hex_prefix_not_class:
  assumes "tolower_c c1 = CHR ''0''"
  shows "str2class (c1 # rest) = 0"
  using assms by (simp add: str2class_def serial_services_def tolower_c_def)

lemma hex_prefix_not_uuid:
  assumes "strncasecmp ''0x'' pattern 2 = 0"
  shows "pattern2uuid128 pattern = Inl (- EINVAL)"
proof -
  from hex_prefix_shape [OF assms] obtain c1 c2 rest where
    p: "pattern = c1 # c2 # rest" and c1: "tolower_c c1 = CHR ''0''" and c2: "tolower_c c2 = CHR ''x''"
    by blast
  have "str2class pattern = 0" using p c1 by (simp add: hex_prefix_not_class)
  moreover have "strncasecmp BASE_UUID pattern 3 \<noteq> 0"
    using p c1 c2 by (simp add: BASE_UUID_def numeral_3_eq_3)
  ultimately show ?thesis by (simp add: pattern2uuid128_def)
qed

lemma pending_connect_free_phase: "list_all connect_phase (pending_connect_free pc)"
  by (simp add: pending_connect_free_def split: option.splits)

lemma open_notify_phase: "list_all connect_phase (open_notify fd err pc)"
  by (simp add: open_notify_def rfcomm_release_def)

lemma goto_fail_snd: "snd (goto_fail acts pc s) = acts @ NameListenerRemove (msg_sender (pc_msg pc)) # pending_connect_free pc"
  by (simp add: goto_fail_def pending_connect_remove_def)

lemma goto_fail_phase:
  "list_all connect_phase acts \<Longrightarrow> list_all connect_phase (snd (goto_fail acts pc s))"
  by (simp add: goto_fail_snd pending_connect_free_phase)

lemma port_open_phase: "port_open opn pc = (fd, acts) \<Longrightarrow> list_all connect_phase acts"
  by (auto simp: port_open_def Let_def split: if_splits)

lemma rfcomm_connect_cb_phase:
  "rfcomm_connect_cb env cond pc s = (s', acts) \<Longrightarrow> list_all connect_phase acts"
  unfolding rfcomm_connect_cb_def Let_def
  by (auto simp: open_notify_phase goto_fail_def pending_connect_remove_def
                 pending_connect_free_phase
           split: prod.splits if_splits dest: port_open_phase)

lemma rfcomm_connect_phase:
  "rfcomm_connect env pc s = (err, pc', s', acts) \<Longrightarrow> list_all connect_phase acts"
  unfolding rfcomm_connect_def Let_def
  by (auto split: prod.splits if_splits dest!: rfcomm_connect_cb_phase)

lemma connect_phase_not_discovery: "connect_phase a \<Longrightarrow> \<not> is_discovery a"
  by (cases a) auto

lemma list_all_phase_no_discovery:
  "list_all connect_phase acts \<Longrightarrow> \<not> list_ex is_discovery acts"
  by (induction acts) (auto dest: connect_phase_not_discovery)

lemma rfcomm_connect_initiates:
  assumes "0 \<le> sys_ret (env_socket env)" "0 \<le> sys_ret (env_bind env)" "0 \<le> sys_ret (env_nonblock env)"
    and "rfcomm_connect env pc s = (err, pc', s', acts)"
  shows "SockConnect (sys_ret (env_socket env)) (pc_bda pc) (pc_channel pc) \<in> set acts"
  using assms unfolding rfcomm_connect_def Let_def
  by (auto split: prod.splits if_splits)

lemma pending_connect_free_new [simp]:
  "pending_connect_free (new_pending_connect r env m bda pattern) = []"
  by (simp add: pending_connect_free_def new_pending_connect_def)

text \<open>
  C1 (as stated) fails: the pattern \<open>0x5\<close> parses as the integer 5, yet ConnectService
  takes every pattern starting with \<open>0x\<close> for a record handle and rejects it as an
  invalid one, without connecting; and a pattern with the shape of a 128-bit UUID that
  parses as an integer in [1,30] is resolved through discovery.
\<close>

theorem hex_channel_counterexample:
  "pattern2long ''0x5'' = Inr 5
   \<and> connect_service_from_devid ex_env ex_msg ''00:1A:7D:DA:71:13'' ''0x5'' manager_init
       = (manager_init,
          [Reply ex_msg (ErrInvalidArguments ''invalid record handle'')])
   \<and> pattern2long ''00000005-0000-1000-8000-00805F9B34FB'' = Inr 5
   \<and> list_ex is_handles_request
        (snd (connect_service_from_devid ex_env ex_msg ''00:1A:7D:DA:71:13''
                ''00000005-0000-1000-8000-00805F9B34FB'' manager_init))"
  by code_simp

text \<open>
  C1 (amended). Take a pattern that parses as an integer, ConnectService being called
  when no request for the same pair is pending and the adapter is available. If the
  pattern is neither a service name nor a 128-bit UUID, does not start with \<open>0x\<close> or
  \<open>0X\<close>, and its value is in [1,30], no discovery request is sent (no handle lookup, no
  record fetch) and, once the socket is set up, connect is called on that very channel.
  If the pattern starts with \<open>0x\<close> or \<open>0X\<close> it is taken for a record handle: with a
  value below 0x10000, the values 1 to 30 included, the call is answered with
  InvalidArguments (\<open>invalid record handle\<close>) and the state is left as it was.
\<close>

theorem literal_channel_connects_directly:
  assumes "pattern2long pattern = Inr val"
    and "find_pending_connect_by_pattern (pending_connects s) bda pattern = None"
    and "0 \<le> env_dev_id env" and "0 \<le> env_hci_devba env"
  shows "(1 \<le> val \<and> val \<le> 30 \<and> strncasecmp ''0x'' pattern 2 \<noteq> 0
            \<and> pattern2uuid128 pattern = Inl e
          \<longrightarrow> \<not> list_ex is_discovery (snd (connect_service_from_devid env m bda pattern s))
              \<and> (0 \<le> sys_ret (env_socket env) \<and> 0 \<le> sys_ret (env_bind env)
                   \<and> 0 \<le> sys_ret (env_nonblock env)
                 \<longrightarrow> SockConnect (sys_ret (env_socket env)) bda (word_of_int val)
                       \<in> set (snd (connect_service_from_devid env m bda pattern s)))
              \<and> uint (word_of_int val :: 8 word) = val)
       \<and> (strncasecmp ''0x'' pattern 2 = 0 \<and> val < 0x10000
          \<longrightarrow> connect_service_from_devid env m bda pattern s
                = (s, [Reply m (ErrInvalidArguments ''invalid record handle'')]))"
proof (intro conjI impI)
  assume h: "1 \<le> val \<and> val \<le> 30 \<and> strncasecmp ''0x'' pattern 2 \<noteq> 0
            \<and> pattern2uuid128 pattern = Inl e"
  define pc1 where "pc1 = (new_pending_connect (env_alloc env) env m bda pattern)\<lparr>pc_channel := word_of_int val\<rparr>"
  define s1 where "s1 = g_slist_append s pc1"
  obtain err pc2 s2 acts where rc: "rfcomm_connect env pc1 s1 = (err, pc2, s2, acts)"
    by (cases "rfcomm_connect env pc1 s1") auto
  have ph: "list_all connect_phase acts" using rc by (rule rfcomm_connect_phase)
  have res: "snd (connect_service_from_devid env m bda pattern s)
      = (if err < 0 then acts @ pending_connect_free pc2 @ [Reply m (ErrConnectionAttemptFailed (- err))]
         else acts @ [NameListenerAdd (msg_sender m)])"
    using assms h rc by (simp add: connect_service_from_devid_def Let_def pc1_def s1_def)
  show "\<not> list_ex is_discovery (snd (connect_service_from_devid env m bda pattern s))"
    using ph pending_connect_free_phase [of pc2]
    by (intro list_all_phase_no_discovery) (simp add: res)
  show "uint (word_of_int val :: 8 word) = val"
    using h by (simp add: uint_word_of_int)
  assume "0 \<le> sys_ret (env_socket env) \<and> 0 \<le> sys_ret (env_bind env) \<and> 0 \<le> sys_ret (env_nonblock env)"
  then have "SockConnect (sys_ret (env_socket env)) (pc_bda pc1) (pc_channel pc1) \<in> set acts"
    using rc rfcomm_connect_initiates by blast
  then show "SockConnect (sys_ret (env_socket env)) bda (word_of_int val)
                \<in> set (snd (connect_service_from_devid env m bda pattern s))"
    by (simp add: res pc1_def new_pending_connect_def)
next
  assume h: "strncasecmp ''0x'' pattern 2 = 0 \<and> val < 0x10000"
  then have u: "pattern2uuid128 pattern = Inl (- EINVAL)" by (simp add: hex_prefix_not_uuid)
  show "connect_service_from_devid env m bda pattern s
          = (s, [Reply m (ErrInvalidArguments ''invalid record handle'')])"
    using assms h u by (simp add: connect_service_from_devid_def Let_def)
qed

theorem literal_channel_connects_directly_witness:
  "pattern2long ''5'' = Inr 5
   \<and> find_pending_connect_by_pattern (pending_connects ex_state) ''00:1A:7D:DA:71:13'' ''5'' = None
   \<and> 0 \<le> env_dev_id ex_env \<and> 0 \<le> env_hci_devba ex_env
   \<and> (1::int) \<le> 5 \<and> (5::int) \<le> 30
   \<and> strncasecmp ''0x'' ''5'' 2 \<noteq> 0
   \<and> pattern2uuid128 ''5'' = Inl (- 22)
   \<and> 0 \<le> sys_ret (env_socket ex_env) \<and> 0 \<le> sys_ret (env_bind ex_env)
   \<and> 0 \<le> sys_ret (env_nonblock ex_env)
   \<and> \<not> list_ex is_discovery
         (snd (connect_service_from_devid (ex_env\<lparr>env_alloc := 1\<rparr>) ex_msg ''00:1A:7D:DA:71:13'' ''5'' ex_state))
   \<and> SockConnect (sys_ret (env_socket ex_env)) ''00:1A:7D:DA:71:13'' (word_of_int 5)
        \<in> set (snd (connect_service_from_devid (ex_env\<lparr>env_alloc := 1\<rparr>) ex_msg ''00:1A:7D:DA:71:13'' ''5'' ex_state))
   \<and> uint (word_of_int 5 :: 8 word) = 5
   \<and> pattern2long ''0X1e'' = Inr 30
   \<and> find_pending_connect_by_pattern (pending_connects ex_state) ''00:1A:7D:DA:71:13'' ''0X1e'' = None
   \<and> strncasecmp ''0x'' ''0X1e'' 2 = 0 \<and> (30::int) < 0x10000
   \<and> connect_service_from_devid (ex_env\<lparr>env_alloc := 1\<rparr>) ex_msg ''00:1A:7D:DA:71:13'' ''0X1e'' ex_state
        = (ex_state, [Reply ex_msg (ErrInvalidArguments ''invalid record handle'')])"
proof -
  let ?env = "ex_env\<lparr>env_alloc := 1\<rparr>"
  have h1: "pattern2long ''5'' = Inr 5" by code_simp
  have h2: "(1::int) \<le> 5 \<and> (5::int) \<le> 30" by simp
  have h4: "strncasecmp ''0x'' ''5'' 2 \<noteq> 0" by code_simp
  have h5: "pattern2uuid128 ''5'' = Inl (- 22)" by code_simp
  have h6: "find_pending_connect_by_pattern (pending_connects ex_state) ''00:1A:7D:DA:71:13'' ''5''
              = None" by code_simp
  have h7: "0 \<le> env_dev_id ?env" and h8: "0 \<le> env_hci_devba ?env"
    by (simp_all add: ex_env_def)
  have h9: "0 \<le> sys_ret (env_socket ?env) \<and> 0 \<le> sys_ret (env_bind ?env)
            \<and> 0 \<le> sys_ret (env_nonblock ?env)"
    by (simp add: ex_env_def sys_ret_def)
  have g1: "pattern2long ''0X1e'' = Inr 30" by code_simp
  have g2: "find_pending_connect_by_pattern (pending_connects ex_state) ''00:1A:7D:DA:71:13'' ''0X1e''
              = None" by code_simp
  have g3: "strncasecmp ''0x'' ''0X1e'' 2 = 0" by code_simp
  have g4: "(30::int) < 0x10000" by simp
  have e: "env_socket ?env = env_socket ex_env" "env_bind ?env = env_bind ex_env"
    "env_nonblock ?env = env_nonblock ex_env" "env_dev_id ?env = env_dev_id ex_env"
    "env_hci_devba ?env = env_hci_devba ex_env" by simp_all
  from literal_channel_connects_directly [OF h1 h6 h7 h8, of "- 22" ex_msg]
    literal_channel_connects_directly [OF g1 g2 h7 h8, of "- 22" ex_msg]
    h1 h2 h4 h5 h6 h7 h8 h9 g1 g2 g3 g4
  show ?thesis unfolding e by blast
qed




section \<open>Channel extraction from a fetched record\<close>

lemma connect_phase_not_supported:
  "list_all connect_phase acts \<Longrightarrow> Reply m ErrNotSupported \<notin> set acts"
  by (induction acts) auto

lemma goto_fail_eq:
  "goto_fail acts pc s =
     (s\<lparr>pending_connects := g_slist_remove (pending_connects s) (pc_ref pc)\<rparr>,
      acts @ NameListenerRemove (msg_sender (pc_msg pc)) # pending_connect_free pc)"
  by (simp add: goto_fail_def pending_connect_remove_def)

lemma pending_connect_free_no_reply: "Reply m r \<notin> set (pending_connect_free pc)"
  by (simp add: pending_connect_free_def split: option.splits)

lemma pending_connect_free_no_bind: "\<not> list_ex is_bind_or_connect (pending_connect_free pc)"
  by (simp add: pending_connect_free_def split: option.splits)

lemma record_reply_unusable:
  assumes "g_slist_find (pending_connects s) data = Some pc" and "pc_canceled pc = 0"
    and "record_unusable sdp rec_bin"
  shows "record_reply sdp env data (ReplyArgs rec_bin) s
           = goto_fail [Reply (pc_msg pc) ErrNotSupported] pc s"
  using assms unfolding record_reply_def record_unusable_def
  by (auto split: option.splits prod.splits)

lemma record_reply_usable:
  assumes "g_slist_find (pending_connects s) data = Some pc" and "pc_canceled pc = 0"
    and "\<not> record_unusable sdp rec_bin"
  shows "Reply m ErrNotSupported \<notin> set (snd (record_reply sdp env data (ReplyArgs rec_bin) s))"
proof -
  from assms(3) obtain rec protos where
    ne: "rec_bin \<noteq> []" and ex: "sdp_extract_pdu sdp rec_bin = Some (rec, int (length rec_bin))"
    and ap: "sdp_get_access_protos sdp rec = Some protos"
    and ch: "1 \<le> sdp_get_proto_port sdp protos" "sdp_get_proto_port sdp protos \<le> 30"
    unfolding record_unusable_def by (auto split: option.splits prod.splits)
  let ?ch = "sdp_get_proto_port sdp protos"
  let ?pc1 = "pc\<lparr>pc_channel := word_of_int ?ch\<rparr>"
  show ?thesis
  proof (cases "dbus_message_has_member (pc_msg pc) ''CreatePort''")
    case True
    then show ?thesis
      using assms(1,2) ne ex ap ch unfolding record_reply_def Let_def
      by (simp add: goto_fail_eq pending_connect_free_no_reply)
  next
    case False
    obtain err pc2 s2 acts where rc: "rfcomm_connect env ?pc1 (store_pc ?pc1 s) = (err, pc2, s2, acts)"
      by (cases "rfcomm_connect env ?pc1 (store_pc ?pc1 s)") auto
    have ph: "Reply m ErrNotSupported \<notin> set acts"
      using rfcomm_connect_phase [OF rc] by (rule connect_phase_not_supported)
    show ?thesis
      using False assms(1,2) ne ex ap ch rc ph unfolding record_reply_def Let_def
      by (simp add: goto_fail_eq pending_connect_free_no_reply)
  qed
qed

text \<open>
  C5. For a registered request that has not been cancelled, the reply carrying a fetched
  record is answered with NotSupported exactly when the payload is empty, or does not
  parse as a record (a parse that does not consume the whole payload included), or the
  protocol descriptor list gives no RFCOMM channel, or the channel is outside [1,30].
  In each of these cases the request is removed and nothing else happens: no device is
  bound and no connect is started.
\<close>

theorem record_channel_extraction:
  assumes "g_slist_find (pending_connects s) data = Some pc" and "pc_canceled pc = 0"
  shows "((\<exists>m. Reply m ErrNotSupported \<in> set (snd (record_reply sdp env data (ReplyArgs rec_bin) s)))
            \<longleftrightarrow> record_unusable sdp rec_bin)
       \<and> (record_unusable sdp rec_bin \<longrightarrow>
            record_reply sdp env data (ReplyArgs rec_bin) s
              = (s\<lparr>pending_connects := g_slist_remove (pending_connects s) (pc_ref pc)\<rparr>,
                 Reply (pc_msg pc) ErrNotSupported
                   # NameListenerRemove (msg_sender (pc_msg pc)) # pending_connect_free pc)
            \<and> \<not> list_ex is_bind_or_connect (snd (record_reply sdp env data (ReplyArgs rec_bin) s)))"
proof (cases "record_unusable sdp rec_bin")
  case True
  have eq: "record_reply sdp env data (ReplyArgs rec_bin) s
              = (s\<lparr>pending_connects := g_slist_remove (pending_connects s) (pc_ref pc)\<rparr>,
                 Reply (pc_msg pc) ErrNotSupported
                   # NameListenerRemove (msg_sender (pc_msg pc)) # pending_connect_free pc)"
    using record_reply_unusable [OF assms True] by (simp add: goto_fail_eq)
  have nb: "\<not> list_ex is_bind_or_connect (snd (record_reply sdp env data (ReplyArgs rec_bin) s))"
    using pending_connect_free_no_bind [of pc] by (simp add: eq)
  have "\<exists>m. Reply m ErrNotSupported \<in> set (snd (record_reply sdp env data (ReplyArgs rec_bin) s))"
    by (rule exI [of _ "pc_msg pc"]) (simp add: eq)
  with True eq nb show ?thesis by simp
next
  case False
  have "\<And>m. Reply m ErrNotSupported \<notin> set (snd (record_reply sdp env data (ReplyArgs rec_bin) s))"
    using assms False by (rule record_reply_usable)
  with False show ?thesis by simp
qed

theorem record_channel_extraction_witness:
  "g_slist_find (pending_connects ex_state) 0 = Some ex_pc \<and> pc_canceled ex_pc = 0
   \<and> record_unusable ex_sdp []
   \<and> (\<exists>m. Reply m ErrNotSupported \<in> set (snd (record_reply ex_sdp ex_env 0 (ReplyArgs []) ex_state)))
   \<and> record_reply ex_sdp ex_env 0 (ReplyArgs []) ex_state
        = (ex_state\<lparr>pending_connects := g_slist_remove (pending_connects ex_state) (pc_ref ex_pc)\<rparr>,
           Reply (pc_msg ex_pc) ErrNotSupported
             # NameListenerRemove (msg_sender (pc_msg ex_pc)) # pending_connect_free ex_pc)
   \<and> \<not> list_ex is_bind_or_connect (snd (record_reply ex_sdp ex_env 0 (ReplyArgs []) ex_state))"
proof -
  have h1: "g_slist_find (pending_connects ex_state) 0 = Some ex_pc"
    by (simp add: ex_state_def ex_pc_def new_pending_connect_def)
  have h2: "pc_canceled ex_pc = 0" by (simp add: ex_pc_def new_pending_connect_def)
  have h3: "record_unusable ex_sdp []" by (simp add: record_unusable_def)
  from record_channel_extraction [OF h1 h2, of ex_sdp ex_env "[]"] h1 h2 h3
  show ?thesis by blast
qed

section \<open>Cancellation\<close>

text \<open>The handlers of the two discovery replies and of the connect completion test
  the cancellation flag before they look at the reply or at the socket: the requester
  is answered with the cancelled-operation error and the request is removed. A
  device-open that succeeds tests the flag before success is reported: the bound
  device is released, then the same answer is given and the request is removed.\<close>

lemma cancellation_tested_first:
  assumes "g_slist_find (pending_connects s) data = Some pc" and "pc_canceled pc \<noteq> 0"
  shows "handles_reply env data hreply s
           = (s\<lparr>pending_connects := g_slist_remove (pending_connects s) (pc_ref pc)\<rparr>,
              Reply (pc_msg pc) (ErrCanceled ''Connection canceled'')
                # NameListenerRemove (msg_sender (pc_msg pc)) # pending_connect_free pc)
       \<and> record_reply sdp env data rreply s = handles_reply env data hreply s
       \<and> rfcomm_connect_cb env cond pc s = handles_reply env data hreply s
       \<and> (0 \<le> sys_ret opn \<longrightarrow>
            open_continue opn data s
              = (False, s\<lparr>pending_connects := g_slist_remove (pending_connects s) (pc_ref pc)\<rparr>,
                 OpenDev (pc_dev pc) # RfcommRelease (sint (word_of_int (pc_id pc) :: 16 word))
                   # Reply (pc_msg pc) (ErrCanceled ''Connection canceled'')
                   # NameListenerRemove (msg_sender (pc_msg pc)) # pending_connect_free pc))"
proof -
  have 1: "handles_reply env data hreply s
           = (s\<lparr>pending_connects := g_slist_remove (pending_connects s) (pc_ref pc)\<rparr>,
              Reply (pc_msg pc) (ErrCanceled ''Connection canceled'')
                # NameListenerRemove (msg_sender (pc_msg pc)) # pending_connect_free pc)"
    using assms by (simp add: handles_reply_def goto_fail_eq)
  have 2: "record_reply sdp env data rreply s = handles_reply env data hreply s"
    using assms by (simp add: 1 record_reply_def goto_fail_eq)
  have 3: "rfcomm_connect_cb env cond pc s = handles_reply env data hreply s"
    using assms by (simp add: 1 rfcomm_connect_cb_def goto_fail_eq)
  have 4: "0 \<le> sys_ret opn \<longrightarrow>
            open_continue opn data s
              = (False, s\<lparr>pending_connects := g_slist_remove (pending_connects s) (pc_ref pc)\<rparr>,
                 OpenDev (pc_dev pc) # RfcommRelease (sint (word_of_int (pc_id pc) :: 16 word))
                   # Reply (pc_msg pc) (ErrCanceled ''Connection canceled'')
                   # NameListenerRemove (msg_sender (pc_msg pc)) # pending_connect_free pc)"
    using assms
    by (simp add: open_continue_def Let_def goto_fail_eq open_notify_def rfcomm_release_def)
  from 1 2 3 4 show ?thesis by blast
qed

text \<open>
  C6. A pending connection whose cancellation flag is set has to be answered with the
  cancelled-operation error at its next checkpoint, the bound device being released.
  The handlers of the discovery replies and of the connect completion test the flag
  first: a request by name cancelled while its lookup is in flight is answered with
  the cancelled-operation error when the reply to the handle lookup, or to the record
  fetch, is an error, and so is a request by channel cancelled while its connect is in
  progress when the connect has failed (\<open>SO_ERROR\<close> 111); no device is bound then.
  \<open>open_notify\<close> tests the error of the open before the flag. A ConnectService for
  channel 3 is registered, its connect completes, the device \<open>rfcomm0\<close> is bound and
  the first open fails; the request is then cancelled. When the open succeeds at the
  second tick of the timer the requester is answered with the cancelled-operation
  error and the device is released; but when the five ticks fail, the requester is
  told that the connection attempt failed (errno 2), not that it was cancelled. The
  device is released there too. The three cancelled states are reachable.
\<close>

theorem cancelled_open_failure_reports_failure:
  "map pc_canceled (pending_connects ex_state_lookup_cancelled) = [1]
   \<and> handles_reply ex_env 0 (ReplyError ''org.bluez.Error.ConnectionAttemptFailed'')
        ex_state_lookup_cancelled
       = (manager_init,
          [Reply ex_msg (ErrCanceled ''Connection canceled''), NameListenerRemove '':1.42''])
   \<and> record_reply ex_sdp ex_env 0 (ReplyError ''org.bluez.Error.ConnectionAttemptFailed'')
        ex_state_lookup_cancelled
       = (manager_init,
          [Reply ex_msg (ErrCanceled ''Connection canceled''), NameListenerRemove '':1.42''])
   \<and> map pc_canceled (pending_connects ex_state_connect_cancelled) = [1]
   \<and> step ex_sdp (ex_env\<lparr>env_so_error := 111\<rparr>) (EvConnectReady 0 G_IO_OUT)
        ex_state_connect_cancelled
       = (manager_init,
          [Reply ex_msg (ErrCanceled ''Connection canceled''), NameListenerRemove '':1.42'',
           SourceRemove 3, ChannelClose 7])
   \<and> map pc_canceled (pending_connects ex_state_cancelled) = [1]
   \<and> map pc_id (pending_connects ex_state_cancelled) = [0]
   \<and> open_retry [Err 2, Ok 9] 0 ex_state_cancelled
       = (False, manager_init,
          [OpenDev ''/dev/rfcomm0'', OpenDev ''/dev/rfcomm0'', RfcommRelease 0,
           Reply ex_msg (ErrCanceled ''Connection canceled''), NameListenerRemove '':1.42'',
           SourceRemove 3, ChannelClose 7])
   \<and> open_retry [Err 2, Err 2, Err 2, Err 2, Err 2] 0 ex_state_cancelled
       = (False, manager_init,
          [OpenDev ''/dev/rfcomm0'', OpenDev ''/dev/rfcomm0'', OpenDev ''/dev/rfcomm0'',
           OpenDev ''/dev/rfcomm0'', OpenDev ''/dev/rfcomm0'', RfcommRelease 0,
           Reply ex_msg (ErrConnectionAttemptFailed 2), NameListenerRemove '':1.42'',
           SourceRemove 3, ChannelClose 7])
   \<and> reachable ex_sdp ex_state_lookup_cancelled
   \<and> reachable ex_sdp ex_state_connect_cancelled
   \<and> reachable ex_sdp ex_state_cancelled"
proof -
  have "reachable ex_sdp ex_state_lookup_cancelled" by (rule ex_state_lookup_cancelled_reachable)
  moreover have "reachable ex_sdp ex_state_connect_cancelled"
    by (rule ex_state_connect_cancelled_reachable)
  moreover have "reachable ex_sdp ex_state_cancelled" by (rule ex_state_cancelled_reachable)
  moreover have "map pc_canceled (pending_connects ex_state_lookup_cancelled) = [1]" by code_simp
  moreover have "handles_reply ex_env 0 (ReplyError ''org.bluez.Error.ConnectionAttemptFailed'')
        ex_state_lookup_cancelled
       = (manager_init,
          [Reply ex_msg (ErrCanceled ''Connection canceled''), NameListenerRemove '':1.42''])"
    by code_simp
  moreover have "record_reply ex_sdp ex_env 0 (ReplyError ''org.bluez.Error.ConnectionAttemptFailed'')
        ex_state_lookup_cancelled
       = (manager_init,
          [Reply ex_msg (ErrCanceled ''Connection canceled''), NameListenerRemove '':1.42''])"
    by code_simp
  moreover have "map pc_canceled (pending_connects ex_state_connect_cancelled) = [1]" by code_simp
  moreover have "step ex_sdp (ex_env\<lparr>env_so_error := 111\<rparr>) (EvConnectReady 0 G_IO_OUT)
        ex_state_connect_cancelled
       = (manager_init,
          [Reply ex_msg (ErrCanceled ''Connection canceled''), NameListenerRemove '':1.42'',
           SourceRemove 3, ChannelClose 7])" by code_simp
  moreover have "map pc_canceled (pending_connects ex_state_cancelled) = [1]" by code_simp
  moreover have "map pc_id (pending_connects ex_state_cancelled) = [0]" by code_simp
  moreover have "open_retry [Err 2, Ok 9] 0 ex_state_cancelled
       = (False, manager_init,
          [OpenDev ''/dev/rfcomm0'', OpenDev ''/dev/rfcomm0'', RfcommRelease 0,
           Reply ex_msg (ErrCanceled ''Connection canceled''), NameListenerRemove '':1.42'',
           SourceRemove 3, ChannelClose 7])" by code_simp
  moreover have "open_retry [Err 2, Err 2, Err 2, Err 2, Err 2] 0 ex_state_cancelled
       = (False, manager_init,
          [OpenDev ''/dev/rfcomm0'', OpenDev ''/dev/rfcomm0'', OpenDev ''/dev/rfcomm0'',
           OpenDev ''/dev/rfcomm0'', OpenDev ''/dev/rfcomm0'', RfcommRelease 0,
           Reply ex_msg (ErrConnectionAttemptFailed 2), NameListenerRemove '':1.42'',
           SourceRemove 3, ChannelClose 7])" by code_simp
  ultimately show ?thesis by simp
qed

section \<open>Device-open retry\<close>

text \<open>
  Whatever the outcomes of \<open>open\<close>, a tick opens the device path at most once, and
  the timer rearms only while fewer than \<open>MAX_OPEN_TRIES\<close> ticks have failed. So the
  retry loop ends: the ticks open the path at most \<open>MAX_OPEN_TRIES\<close> times, which
  with the attempt of \<open>port_open\<close> makes at most six opens for one request.
\<close>

lemma g_slist_find_ref: "g_slist_find l r = Some pc \<Longrightarrow> pc_ref pc = r"
  by (induction l) (auto split: if_splits)

lemma g_slist_find_store:
  "g_slist_find (pending_connects s) r = Some pc \<Longrightarrow> pc_ref pc' = r
   \<Longrightarrow> g_slist_find (pending_connects (store_pc pc' s)) r = Some pc'"
proof -
  have "g_slist_find l r = Some pc \<Longrightarrow> pc_ref pc' = r
        \<Longrightarrow> g_slist_find (map (\<lambda>p. if pc_ref p = pc_ref pc' then pc' else p) l) r = Some pc'" for l
    by (induction l) (auto split: if_splits)
  then show "g_slist_find (pending_connects s) r = Some pc \<Longrightarrow> pc_ref pc' = r
   \<Longrightarrow> g_slist_find (pending_connects (store_pc pc' s)) r = Some pc'"
    by (simp add: store_pc_def)
qed

lemma open_notify_no_open: "filter is_open (open_notify fd err pc) = []"
  by (simp add: open_notify_def rfcomm_release_def)

lemma pending_connect_free_no_open: "filter is_open (pending_connect_free pc) = []"
  by (simp add: pending_connect_free_def split: option.splits)

lemma open_continue_one_open:
  "length (filter is_open (snd (snd (open_continue opn r s)))) \<le> 1"
  by (simp add: open_continue_def Let_def goto_fail_eq open_notify_no_open
        pending_connect_free_no_open split: option.splits)

lemma open_continue_rearms:
  assumes "fst (open_continue opn r s)"
  shows "\<exists>pc. g_slist_find (pending_connects s) r = Some pc
          \<and> pc_ntries pc + 1 < MAX_OPEN_TRIES
          \<and> g_slist_find (pending_connects (fst (snd (open_continue opn r s)))) r
               = Some (pc\<lparr>pc_ntries := pc_ntries pc + 1\<rparr>)"
proof (cases "g_slist_find (pending_connects s) r")
  case None
  with assms show ?thesis by (simp add: open_continue_def)
next
  case (Some pc)
  have ref: "pc_ref (pc\<lparr>pc_ntries := pc_ntries pc + 1\<rparr>) = r"
    using g_slist_find_ref [OF Some] by simp
  have st: "g_slist_find (pending_connects (store_pc (pc\<lparr>pc_ntries := pc_ntries pc + 1\<rparr>) s)) r
              = Some (pc\<lparr>pc_ntries := pc_ntries pc + 1\<rparr>)"
    using Some ref by (rule g_slist_find_store)
  from assms Some st show ?thesis
    by (auto simp: open_continue_def Let_def split: if_splits prod.splits)
qed

lemma open_retry_bounded:
  assumes "g_slist_find (pending_connects s) r = Some pc"
  shows "length (filter is_open (snd (snd (open_retry outs r s))))
           \<le> nat (max 1 (MAX_OPEN_TRIES - pc_ntries pc))
       \<and> (nat (max 1 (MAX_OPEN_TRIES - pc_ntries pc)) \<le> length outs
            \<longrightarrow> \<not> fst (open_retry outs r s))"
  using assms
proof (induction outs arbitrary: s pc)
  case Nil
  show ?case by simp
next
  case (Cons opn rest)
  show ?case
  proof (cases "fst (open_continue opn r s)")
    case False
    then have "open_retry (opn # rest) r s = open_continue opn r s"
      by (cases "open_continue opn r s") auto
    then show ?thesis using False open_continue_one_open [of opn r s] by simp
  next
    case True
    from open_continue_rearms [OF True] Cons.prems obtain
      lt: "pc_ntries pc + 1 < MAX_OPEN_TRIES"
      and f: "g_slist_find (pending_connects (fst (snd (open_continue opn r s)))) r
               = Some (pc\<lparr>pc_ntries := pc_ntries pc + 1\<rparr>)"
      by auto
    let ?s' = "fst (snd (open_continue opn r s))"
    let ?a = "snd (snd (open_continue opn r s))"
    have eq: "open_retry (opn # rest) r s
               = (fst (open_retry rest r ?s'), fst (snd (open_retry rest r ?s')),
                  ?a @ snd (snd (open_retry rest r ?s')))"
      using True by (cases "open_continue opn r s") (auto split: prod.splits)
    from Cons.IH [OF f] have
      ih1: "length (filter is_open (snd (snd (open_retry rest r ?s'))))
              \<le> nat (max 1 (MAX_OPEN_TRIES - (pc_ntries pc + 1)))"
      and ih2: "nat (max 1 (MAX_OPEN_TRIES - (pc_ntries pc + 1))) \<le> length rest
              \<longrightarrow> \<not> fst (open_retry rest r ?s')"
      by simp_all
    have c: "length (filter is_open (snd (snd (open_retry (opn # rest) r s))))
               = length (filter is_open ?a)
                 + length (filter is_open (snd (snd (open_retry rest r ?s'))))"
      by (simp only: eq snd_conv filter_append length_append)
    have b: "fst (open_retry (opn # rest) r s) = fst (open_retry rest r ?s')"
      by (simp only: eq fst_conv)
    have n: "nat (max 1 (MAX_OPEN_TRIES - pc_ntries pc))
               = Suc (nat (max 1 (MAX_OPEN_TRIES - (pc_ntries pc + 1))))"
      using lt by simp
    show ?thesis
      unfolding c b n using ih1 ih2 open_continue_one_open [of opn r s] by simp
  qed
qed

lemma open_notify_no_timeout: "TimeoutAdd w r \<notin> set (open_notify fd err pc)"
  by (simp add: open_notify_def rfcomm_release_def)

lemma pending_connect_free_no_timeout: "TimeoutAdd w r \<notin> set (pending_connect_free pc)"
  by (simp add: pending_connect_free_def split: option.splits)

lemma rfcomm_connect_cb_armed:
  assumes "rfcomm_connect_cb env cond pc s = (s1, a1)" and "TimeoutAdd w r \<in> set a1"
  shows "s1 = store_pc (pc\<lparr>pc_id := sys_ret (env_createdev env),
                 pc_dev := take 15 (''/dev/rfcomm'' @ dec_int (sys_ret (env_createdev env)))\<rparr>) s
          \<and> length (filter is_open a1) = 1"
  using assms unfolding rfcomm_connect_cb_def Let_def port_open_def
  by (auto simp: goto_fail_eq open_notify_no_timeout pending_connect_free_no_timeout
                 EINPROGRESS_def
           split: if_splits)

lemma device_open_attempts_bounded:
  assumes "g_slist_find (pending_connects s) r = Some pc" and "pc_ntries pc = 0"
    and "rfcomm_connect_cb env cond pc s = (s1, a1)" and "TimeoutAdd w r \<in> set a1"
  shows "length (filter is_open (a1 @ snd (snd (open_retry outs r s1)))) \<le> 6
       \<and> (5 \<le> length outs \<longrightarrow> \<not> fst (open_retry outs r s1))"
proof -
  let ?pc2 = "pc\<lparr>pc_id := sys_ret (env_createdev env),
                 pc_dev := take 15 (''/dev/rfcomm'' @ dec_int (sys_ret (env_createdev env)))\<rparr>"
  from rfcomm_connect_cb_armed [OF assms(3,4)] have
    s1: "s1 = store_pc ?pc2 s" and one: "length (filter is_open a1) = 1"
    by simp_all
  have "pc_ref ?pc2 = r" using g_slist_find_ref [OF assms(1)] by simp
  with assms(1) have f: "g_slist_find (pending_connects s1) r = Some ?pc2"
    unfolding s1 by (rule g_slist_find_store)
  have m: "nat (max 1 (MAX_OPEN_TRIES - pc_ntries ?pc2)) = 5"
    using assms(2) by (simp add: MAX_OPEN_TRIES_def)
  from open_retry_bounded [OF f, of outs] one show ?thesis
    unfolding m by simp
qed

text \<open>
  C4. The device path is opened once by \<open>port_open\<close> and then once at every tick of
  the timer, and \<open>pc_ntries\<close> counts the failed ticks only. Here the first open and the
  first four ticks fail and the fifth tick succeeds: the request succeeds, and the
  device path has been opened six times, one more than \<open>MAX_OPEN_TRIES\<close>. When the
  fifth tick fails too, the device is released and the failure reported, after six
  opens as well.
\<close>

theorem open_retry_six_attempts:
  "rfcomm_connect_cb ex_env_no_node G_IO_OUT ex_pc_connecting ex_state_connecting
     = (ex_state_connecting\<lparr>pending_connects :=
          [ex_pc_connecting\<lparr>pc_dev := ''/dev/rfcomm0'', pc_id := 0\<rparr>]\<rparr>,
        [CreateDev 7 ''00:11:22:33:44:55'' ''00:1A:7D:DA:71:13'' 3,
         OpenDev ''/dev/rfcomm0'', TimeoutAdd 300 0])
   \<and> open_retry [Err 2, Err 2, Err 2, Err 2, Ok 9] 0
        (fst (rfcomm_connect_cb ex_env_no_node G_IO_OUT ex_pc_connecting ex_state_connecting))
     = (False, ex_state_connecting\<lparr>pending_connects := []\<rparr>,
        [OpenDev ''/dev/rfcomm0'', OpenDev ''/dev/rfcomm0'', OpenDev ''/dev/rfcomm0'',
         OpenDev ''/dev/rfcomm0'', OpenDev ''/dev/rfcomm0'',
         Reply ex_msg (MethodReturn [''/dev/rfcomm0'']),
         EmitSignal ''ServiceConnected'' ''/dev/rfcomm0'',
         PortAddListener 0 ''00:1A:7D:DA:71:13'' 9 ''/dev/rfcomm0'' '':1.42'',
         NameListenerRemove '':1.42'', SourceRemove 3, ChannelClose 7])
   \<and> length (filter is_open
        (snd (rfcomm_connect_cb ex_env_no_node G_IO_OUT ex_pc_connecting ex_state_connecting)
         @ snd (snd (open_retry [Err 2, Err 2, Err 2, Err 2, Ok 9] 0
             (fst (rfcomm_connect_cb ex_env_no_node G_IO_OUT ex_pc_connecting ex_state_connecting))))))
       = 6
   \<and> open_retry [Err 2, Err 2, Err 2, Err 2, Err 2] 0
        (fst (rfcomm_connect_cb ex_env_no_node G_IO_OUT ex_pc_connecting ex_state_connecting))
     = (False, ex_state_connecting\<lparr>pending_connects := []\<rparr>,
        [OpenDev ''/dev/rfcomm0'', OpenDev ''/dev/rfcomm0'', OpenDev ''/dev/rfcomm0'',
         OpenDev ''/dev/rfcomm0'', OpenDev ''/dev/rfcomm0'', RfcommRelease 0,
         Reply ex_msg (ErrConnectionAttemptFailed 2),
         NameListenerRemove '':1.42'', SourceRemove 3, ChannelClose 7])"
  by code_simp

section \<open>Properties of the proxy\<close>

lemma str2speed_valid:
  "str2speed r \<noteq> B0 \<longleftrightarrow> r \<in> set (map fst supported_speed)"
  by (simp add: str2speed_def supported_speed_def strcmp_eq_def B0_def)

lemma set_databits_valid: "fst (set_databits d c) < 0 \<longleftrightarrow> \<not> (5 \<le> d \<and> d \<le> 8)"
  by (auto simp: set_databits_def EINVAL_def Let_def)

lemma set_stopbits_valid: "fst (set_stopbits st c) < 0 \<longleftrightarrow> \<not> (st = 1 \<or> st = 2)"
  by (auto simp: set_stopbits_def EINVAL_def)

lemma set_parity_valid:
  "fst (set_parity p c) < 0 \<longleftrightarrow>
     \<not> list_ex (\<lambda>q. strcasecmp q p = 0) [''even'', ''odd'', ''mark'', ''none'', ''space'']"
  by (simp add: set_parity_def)

lemma supported_speed_codes:
  "\<forall>x \<in> set supported_speed. snd x AND NOT CBAUD = 0 \<and> snd x \<noteq> 0"
  by code_simp

lemma str2speed_loop_table:
  "str2speed_loop l r = (case map_of l r of None \<Rightarrow> B0 | Some speed \<Rightarrow> speed)"
  by (induction l) (auto simp: strcmp_eq_def)

lemma str2speed_map_of:
  assumes "map_of supported_speed r = Some speed"
  shows "str2speed r = speed" and "speed AND NOT CBAUD = 0" and "speed \<noteq> 0"
proof -
  show "str2speed r = speed" using assms by (simp add: str2speed_def str2speed_loop_table)
  from assms have "(r, speed) \<in> set supported_speed" by (rule map_of_SomeD)
  with supported_speed_codes show "speed AND NOT CBAUD = 0" and "speed \<noteq> 0" by auto
qed

lemma word_rebaud:
  fixes c a b s :: "32 word"
  shows "(c AND NOT a AND NOT b OR s) AND NOT a AND NOT b OR s = c AND NOT a AND NOT b OR s"
  by (rule bit_eqI) (auto simp: bit_simps)

lemma cfset_speeds:
  assumes "speed AND NOT CBAUD = 0" and "speed \<noteq> 0"
  shows "snd (cfsetospeed (snd (cfsetispeed ti speed)) speed)
           = ti\<lparr>c_iflag := c_iflag ti AND NOT IBAUD0,
                 c_cflag := (c_cflag ti AND NOT (CBAUD OR CBAUDEX)) OR speed,
                 c_ispeed := speed, c_ospeed := speed\<rparr>"
  using assms by (simp add: cfsetispeed_def cfsetospeed_def word_rebaud)

lemma proxy_set_serial_params_cases:
  "proxy_set_serial_params prx r d st p =
     (if local_watch prx \<noteq> 0 then (prx, ErrFailed ''Not allowed'')
      else if str2speed r = B0 then (prx, ErrInvalidArguments ''Invalid baud rate'')
      else if fst (set_databits d (c_cflag (proxy_ti prx))) < 0
        then (prx, ErrInvalidArguments ''Invalid data bits'')
      else if fst (set_stopbits st (snd (set_databits d (c_cflag (proxy_ti prx))))) < 0
        then (prx, ErrInvalidArguments ''Invalid stop bits'')
      else if fst (set_parity p (snd (set_stopbits st (snd (set_databits d (c_cflag (proxy_ti prx))))))) < 0
        then (prx, ErrInvalidArguments ''Invalid parity'')
      else (prx\<lparr>proxy_ti :=
              snd (cfsetospeed (snd (cfsetispeed
                ((proxy_ti prx)
                   \<lparr>c_cflag := snd (set_parity p (snd (set_stopbits st
                                   (snd (set_databits d (c_cflag (proxy_ti prx)))))))
                                 OR (CLOCAL OR CREAD)\<rparr>)
                (str2speed r))) (str2speed r))\<rparr>, MethodReturn []))"
  by (simp add: proxy_set_serial_params_def Let_def split: prod.splits)

lemma proxy_set_serial_params_proxy_ti:
  "\<exists>ti. fst (proxy_set_serial_params prx r d st p) = prx\<lparr>proxy_ti := ti\<rparr>"
proof (cases "snd (proxy_set_serial_params prx r d st p) = MethodReturn []")
  case True
  then show ?thesis
    unfolding proxy_set_serial_params_cases by (auto split: if_splits)
next
  case False
  then have "fst (proxy_set_serial_params prx r d st p) = prx"
    unfolding proxy_set_serial_params_cases by (auto split: if_splits)
  then have "fst (proxy_set_serial_params prx r d st p) = prx\<lparr>proxy_ti := proxy_ti prx\<rparr>" by simp
  then show ?thesis by blast
qed

text \<open>The control flags a successful call stores, bit by bit: the character size, the
  stop bit, the two parity bits, \<open>CLOCAL\<close> and \<open>CREAD\<close>, and the speed code in the
  \<open>CBAUD\<close> bits.\<close>

lemma proxy_set_serial_params_stored:
  assumes lw: "local_watch prx = 0"
    and sp: "map_of supported_speed r = Some speed"
    and d: "5 \<le> d" "d \<le> 8" and st: "st = 1 \<or> st = 2"
    and p: "list_ex (\<lambda>q. strcasecmp q p = 0) [''even'', ''odd'', ''mark'', ''none'', ''space'']"
  shows "proxy_set_serial_params prx r d st p
    = (prx\<lparr>proxy_ti := (proxy_ti prx)
         \<lparr>c_iflag := c_iflag (proxy_ti prx) AND NOT 0x80000000,
          c_cflag :=
            (let c0 = c_cflag (proxy_ti prx);
                 c1 = (c0 AND NOT 0x30)
                        OR (if d = 5 then 0x00 else if d = 6 then 0x10 else if d = 7 then 0x20
                            else 0x30);
                 c2 = (if st = 1 then c1 AND NOT 0x40 else c1 OR 0x40);
                 c3 = (if strcasecmp ''even'' p = 0 then (c2 OR 0x100) AND NOT 0x200
                       else if strcasecmp ''odd'' p = 0 then (c2 OR 0x100) OR 0x200
                       else if strcasecmp ''mark'' p = 0 then c2 OR 0x100
                       else c2 AND NOT 0x100)
             in ((c3 OR 0x880) AND NOT 0x100F) OR speed),
          c_ispeed := speed, c_ospeed := speed\<rparr>\<rparr>,
       MethodReturn [])"
proof -
  note s = str2speed_map_of [OF sp]
  have sb: "str2speed r \<noteq> B0" using s by (simp add: B0_def)
  have db: "set_databits d c = (0, (c AND NOT 0x30)
              OR (if d = 5 then 0x00 else if d = 6 then 0x10 else if d = 7 then 0x20 else 0x30))"
    for c
  proof -
    from d have "d = 5 \<or> d = 6 \<or> d = 7 \<or> d = 8" by unat_arith
    then show ?thesis
      by (auto simp: set_databits_def Let_def CSIZE_def CS5_def CS6_def CS7_def CS8_def)
  qed
  have sb2: "set_stopbits st c = (0, if st = 1 then c AND NOT 0x40 else c OR 0x40)" for c
    using st by (auto simp: set_stopbits_def CSTOPB_def)
  have pb: "set_parity p c
      = (0, if strcasecmp ''even'' p = 0 then (c OR 0x100) AND NOT 0x200
            else if strcasecmp ''odd'' p = 0 then (c OR 0x100) OR 0x200
            else if strcasecmp ''mark'' p = 0 then c OR 0x100
            else c AND NOT 0x100)" for c
    using p by (auto simp: set_parity_def PARENB_def PARODD_def)
  have m: "CBAUD OR CBAUDEX = (0x100F :: 32 word)" by (simp add: CBAUD_def CBAUDEX_def)
  have cl: "CLOCAL OR CREAD = (0x880 :: 32 word)" by (simp add: CLOCAL_def CREAD_def)
  show ?thesis
    unfolding proxy_set_serial_params_cases
    using lw sb
    by (simp add: db sb2 pb s(1) cfset_speeds [OF s(2) s(3)] m cl IBAUD0_def Let_def)
qed

lemma proxy_set_serial_params_invalid:
  assumes "local_watch prx = 0" and "\<not> valid_serial_params r d st p"
  shows "fst (proxy_set_serial_params prx r d st p) = prx
       \<and> (\<exists>msg. snd (proxy_set_serial_params prx r d st p) = ErrInvalidArguments msg)"
  using assms
  unfolding proxy_set_serial_params_cases set_databits_valid set_stopbits_valid
    set_parity_valid str2speed_valid [symmetric] valid_serial_params_def
  by auto

lemma proxy_get_info_proxy_ti [simp]:
  "proxy_get_info (prx\<lparr>proxy_ti := ti\<rparr>) = proxy_get_info prx"
  by (simp add: proxy_get_info_def)

subsection \<open>The forwarding watches of one peer\<close>

lemma proxy_inv_subset:
  assumes "proxy_inv lp" and "set (lp_forward lp') \<subseteq> set (lp_forward lp)"
    and "rfcomm_watch (lp_prx lp') = rfcomm_watch (lp_prx lp)"
    and "local_watch (lp_prx lp') = local_watch (lp_prx lp)"
  shows "proxy_inv lp'"
proof -
  from assms(2) have sub: "fst ` set (lp_forward lp') \<subseteq> fst ` set (lp_forward lp)"
    by (rule image_mono)
  from assms(1) have a: "fst ` set (lp_forward lp) \<subseteq> {rfcomm_watch (lp_prx lp), local_watch (lp_prx lp)}"
    and b: "0 \<notin> fst ` set (lp_forward lp)"
    and c: "rfcomm_watch (lp_prx lp) = 0 \<longleftrightarrow> local_watch (lp_prx lp) = 0"
    by (simp_all add: proxy_inv_def)
  from sub a have a': "fst ` set (lp_forward lp') \<subseteq> {rfcomm_watch (lp_prx lp), local_watch (lp_prx lp)}"
    by (rule subset_trans)
  from sub b have b': "0 \<notin> fst ` set (lp_forward lp')" by blast
  from a' b' c show ?thesis unfolding proxy_inv_def assms(3,4) by simp
qed

lemma main_loop_sources_none:
  "forward_watches acts = [] \<Longrightarrow> \<forall>i. RemoveSource i \<notin> set acts
     \<Longrightarrow> main_loop_sources acts ws = ws"
  by (simp add: main_loop_sources_def)

lemma proxy_enable_loop:
  assumes "proxy_enable env prx = (prx', r, acts)"
  shows "main_loop_sources acts ws = ws" and "rfcomm_watch prx' = rfcomm_watch prx"
    and "local_watch prx' = local_watch prx"
    and "listen_watch prx \<noteq> 0 \<Longrightarrow> listen_watch prx' = listen_watch prx"
  using assms
  by (auto simp: proxy_enable_def Let_def main_loop_sources_def split: if_splits)

lemma listen_watch_notify_fields:
  assumes "listen_watch_notify prx = (prx', acts)"
  shows "rfcomm_watch prx' = 0" and "local_watch prx' = 0" and "listen_watch prx' = 0"
  using assms by (auto simp: listen_watch_notify_def)

lemma listen_watch_notify_loop:
  assumes "listen_watch_notify prx = (prx', acts)"
    and "fst ` set ws \<subseteq> {rfcomm_watch prx, local_watch prx}" and "0 \<notin> fst ` set ws"
  shows "main_loop_sources (pre @ acts) ws = forward_watches pre"
proof -
  have acts: "acts = (if rfcomm_watch prx \<noteq> 0 then [RemoveSource (rfcomm_watch prx)] else [])
      @ (if local_watch prx \<noteq> 0 then [RemoveSource (local_watch prx)] else [])
      @ [RemoveProxyRecord (record_id prx)]"
    using assms(1) by (auto simp: listen_watch_notify_def)
  have "\<And>w. w \<in> set ws \<Longrightarrow> RemoveSource (fst w) \<in> set acts"
  proof -
    fix w assume w: "w \<in> set ws"
    then have "fst w \<in> {rfcomm_watch prx, local_watch prx}" and "fst w \<noteq> 0"
      using assms(2,3) by (auto simp: image_iff)
    then show "RemoveSource (fst w) \<in> set acts" by (auto simp: acts)
  qed
  then have "filter (\<lambda>w. RemoveSource (fst w) \<notin> set (pre @ acts)) ws = []"
    by (auto simp: filter_empty_conv)
  moreover have "forward_watches (pre @ acts) = forward_watches pre"
    by (induction pre rule: forward_watches.induct) (auto simp: acts)
  ultimately show "main_loop_sources (pre @ acts) ws = forward_watches pre"
    by (simp add: main_loop_sources_def)
qed

lemma forward_watches_local_connect:
  "local_connect env prx = Some (lsk, acts) \<Longrightarrow>
     forward_watches acts = [] \<and> (\<forall>i. RemoveSource i \<notin> set acts)
     \<and> \<not> list_ex is_forward_watch acts \<and> \<not> list_ex is_record_removal acts"
  by (auto simp: local_connect_def unix_socket_connect_def tty_open_def tcp_socket_connect_def
        Let_def split: proxy_type_t.splits if_splits)

lemma forward_watches_append:
  "forward_watches (xs @ ys) = forward_watches xs @ forward_watches ys"
  by (induction xs rule: forward_watches.induct) auto

text \<open>What \<open>connect_event\<close> can do, case by case.\<close>

lemma connect_event_cases:
  assumes "connect_event env cond prx = Some (keep, prx', acts)"
  shows "(\<not> keep \<and> prx' = prx \<and> forward_watches acts = [] \<and> (\<forall>i. RemoveSource i \<notin> set acts))
       \<or> (keep \<and> prx' = prx \<and> forward_watches acts = [] \<and> (\<forall>i. RemoveSource i \<notin> set acts))
       \<or> (keep \<and> prx' = prx\<lparr>prx_dst := penv_raddr env\<rparr> \<and> forward_watches acts = []
             \<and> (\<forall>i. RemoveSource i \<notin> set acts))
       \<or> (keep \<and> prx' = prx\<lparr>prx_dst := penv_raddr env, rfcomm_watch := penv_rfcomm_watch env,
                               local_watch := penv_local_watch env\<rparr>
             \<and> (\<exists>rsk lsk. forward_watches acts
                   = [(penv_rfcomm_watch env, rsk, lsk), (penv_local_watch env, lsk, rsk)])
             \<and> (\<forall>i. RemoveSource i \<notin> set acts))"
proof (cases "cond AND G_IO_NVAL \<noteq> 0 \<or> cond AND (G_IO_ERR OR G_IO_HUP) \<noteq> 0
              \<or> sys_ret (penv_accept env) < 0")
  case True
  then show ?thesis using assms by (auto simp: connect_event_def Let_def split: if_splits)
next
  case False
  then obtain lsk la where lc: "local_connect env (prx\<lparr>prx_dst := penv_raddr env\<rparr>) = Some (lsk, la)"
    using assms by (auto simp: connect_event_def Let_def split: option.splits)
  note fw = forward_watches_local_connect [OF lc]
  show ?thesis
  proof (cases "lsk < 0")
    case True
    then show ?thesis
      using False assms lc fw by (auto simp: connect_event_def Let_def forward_watches_append)
  next
    case nonneg: False
    then show ?thesis
      using False assms lc fw by (auto simp: connect_event_def Let_def forward_watches_append)
  qed
qed

lemma proxy_step_inv:
  assumes inv: "proxy_inv lp" and ok: "proxy_event_ok ev lp" and st: "proxy_step ev lp = Some lp'"
  shows "proxy_inv lp'"
proof (cases ev)
  case (PEnable env)
  obtain prx' r acts where e: "proxy_enable env (lp_prx lp) = (prx', r, acts)"
    by (cases "proxy_enable env (lp_prx lp)") auto
  have "lp' = \<lparr>lp_prx = prx', lp_forward = lp_forward lp\<rparr>"
    using st PEnable e proxy_enable_loop(1) [OF e, of "lp_forward lp"] by simp
  then show ?thesis using proxy_enable_loop(2,3) [OF e]
    by (intro proxy_inv_subset [OF inv]) simp_all
next
  case PDisable
  show ?thesis
  proof (cases "listen_watch (lp_prx lp) = 0")
    case True
    then have "lp' = lp" using st PDisable
      by (cases lp) (auto simp: proxy_disable_def main_loop_sources_def)
    then show ?thesis using inv by simp
  next
    case False
    obtain prx' acts where n: "listen_watch_notify (lp_prx lp) = (prx', acts)"
      by (cases "listen_watch_notify (lp_prx lp)") auto
    from inv have a: "fst ` set (lp_forward lp) \<subseteq> {rfcomm_watch (lp_prx lp), local_watch (lp_prx lp)}"
      and b: "0 \<notin> fst ` set (lp_forward lp)" by (simp_all add: proxy_inv_def)
    note l = listen_watch_notify_loop [OF n a b, of "[RemoveSource (listen_watch (lp_prx lp))]"]
    note g = listen_watch_notify_fields [OF n]
    have "lp' = \<lparr>lp_prx = prx', lp_forward = []\<rparr>"
      using st PDisable False n l by (simp add: proxy_disable_def)
    then show ?thesis using g by (simp add: proxy_inv_def)
  qed
next
  case (PListenReady env cond)
  obtain keep prx' acts where ce: "connect_event env cond (lp_prx lp) = Some (keep, prx', acts)"
    using st PListenReady by (auto split: option.splits)
  from inv have a: "fst ` set (lp_forward lp) \<subseteq> {rfcomm_watch (lp_prx lp), local_watch (lp_prx lp)}"
    and b: "0 \<notin> fst ` set (lp_forward lp)"
    and c: "rfcomm_watch (lp_prx lp) = 0 \<longleftrightarrow> local_watch (lp_prx lp) = 0"
    by (simp_all add: proxy_inv_def)
  from ok PListenReady ce have pos: "0 < penv_rfcomm_watch env" "0 < penv_local_watch env"
    and one: "lp_forward lp = [] \<or> forward_watches acts = []" by auto
  from connect_event_cases [OF ce] show ?thesis
  proof (elim disjE conjE exE)
    assume k: "\<not> keep" and p: "prx' = lp_prx lp" and f: "forward_watches acts = []"
    obtain prx'' acts' where n: "listen_watch_notify (lp_prx lp) = (prx'', acts')"
      by (cases "listen_watch_notify (lp_prx lp)") auto
    note l = listen_watch_notify_loop [OF n a b, of acts]
    note g = listen_watch_notify_fields [OF n]
    have "lp' = \<lparr>lp_prx = prx'', lp_forward = []\<rparr>"
      using st PListenReady ce k p n l f by simp
    then show ?thesis using g by (simp add: proxy_inv_def)
  next
    assume k: keep and p: "prx' = lp_prx lp" and f: "forward_watches acts = []"
      and r: "\<forall>i. RemoveSource i \<notin> set acts"
    have "lp' = lp" using st PListenReady ce k p main_loop_sources_none [OF f r]
      by (cases lp) auto
    then show ?thesis using inv by simp
  next
    assume k: keep and p: "prx' = (lp_prx lp)\<lparr>prx_dst := penv_raddr env\<rparr>"
      and f: "forward_watches acts = []" and r: "\<forall>i. RemoveSource i \<notin> set acts"
    have "lp' = \<lparr>lp_prx = prx', lp_forward = lp_forward lp\<rparr>"
      using st PListenReady ce k main_loop_sources_none [OF f r] by simp
    then show ?thesis using p by (intro proxy_inv_subset [OF inv]) simp_all
  next
    fix rsk lsk
    assume k: keep
      and p: "prx' = (lp_prx lp)\<lparr>prx_dst := penv_raddr env, rfcomm_watch := penv_rfcomm_watch env,
                               local_watch := penv_local_watch env\<rparr>"
      and f: "forward_watches acts
                = [(penv_rfcomm_watch env, rsk, lsk), (penv_local_watch env, lsk, rsk)]"
      and r: "\<forall>i. RemoveSource i \<notin> set acts"
    from one f have e: "lp_forward lp = []" by auto
    have "lp' = \<lparr>lp_prx = prx', lp_forward = forward_watches acts\<rparr>"
      using st PListenReady ce k e by (simp add: main_loop_sources_def)
    then show ?thesis using p f pos by (simp add: proxy_inv_def)
  qed
next
  case (PForwardReady i cond rs ws)
  have "lp_prx lp' = lp_prx lp \<and> set (lp_forward lp') \<subseteq> set (lp_forward lp)"
    using st PForwardReady by (auto split: option.splits if_splits)
  then show ?thesis by (intro proxy_inv_subset [OF inv]) simp_all
next
  case (PSetSerialParameters r d st' p)
  obtain ti where "fst (proxy_set_serial_params (lp_prx lp) r d st' p) = (lp_prx lp)\<lparr>proxy_ti := ti\<rparr>"
    using proxy_set_serial_params_proxy_ti by blast
  then have "lp' = lp\<lparr>lp_prx := (lp_prx lp)\<lparr>proxy_ti := ti\<rparr>\<rparr>"
    using st PSetSerialParameters by simp
  then show ?thesis by (intro proxy_inv_subset [OF inv]) simp_all
qed

lemma g_new0_proxy_watches [simp]:
  "listen_watch g_new0_proxy = 0" "rfcomm_watch g_new0_proxy = 0" "local_watch g_new0_proxy = 0"
  by (simp_all add: g_new0_proxy_def)

lemma proxy_reachable_inv: "proxy_reachable lp \<Longrightarrow> proxy_inv lp"
proof (induction rule: proxy_reachable.induct)
  case (reachable_tty src uuid128 address sys ti)
  show ?case by (simp add: proxy_inv_def proxy_tty_register_def)
next
  case (reachable_socket src uuid128 address)
  show ?case by (simp add: proxy_inv_def proxy_socket_register_def)
next
  case (reachable_tcp src uuid128 address)
  show ?case by (simp add: proxy_inv_def proxy_tcp_register_def)
next
  case (reachable_proxy_step lp ev lp')
  from reachable_proxy_step.IH reachable_proxy_step.hyps(2,3) show ?case by (rule proxy_step_inv)
qed

text \<open>While a forwarding watch is left, the proxy has a local watch recorded.\<close>

lemma peer_connected_local_watch:
  assumes "proxy_reachable lp" and "lp_forward lp \<noteq> []"
  shows "local_watch (lp_prx lp) \<noteq> 0"
proof -
  from assms(1) have inv: "proxy_inv lp" by (rule proxy_reachable_inv)
  from assms(2) obtain w where w: "w \<in> set (lp_forward lp)" by (cases "lp_forward lp") auto
  with inv have "fst w \<in> {rfcomm_watch (lp_prx lp), local_watch (lp_prx lp)}" and "fst w \<noteq> 0"
    by (auto simp: proxy_inv_def image_iff)
  with inv show ?thesis by (auto simp: proxy_inv_def)
qed

lemma proxy_step_stops_listening:
  assumes inv: "proxy_inv lp" and ok: "proxy_event_ok ev lp" and st: "proxy_step ev lp = Some lp'"
    and on: "listen_watch (lp_prx lp) \<noteq> 0" and off: "listen_watch (lp_prx lp') = 0"
  shows "proxy_idle lp'"
proof (cases ev)
  case (PEnable env)
  obtain prx' r acts where e: "proxy_enable env (lp_prx lp) = (prx', r, acts)"
    by (cases "proxy_enable env (lp_prx lp)") auto
  have "lp_prx lp' = prx'" using st PEnable e by auto
  with proxy_enable_loop(4) [OF e on] on off show ?thesis by simp
next
  case PDisable
  obtain prx' acts where n: "listen_watch_notify (lp_prx lp) = (prx', acts)"
    by (cases "listen_watch_notify (lp_prx lp)") auto
  from inv have a: "fst ` set (lp_forward lp) \<subseteq> {rfcomm_watch (lp_prx lp), local_watch (lp_prx lp)}"
    and b: "0 \<notin> fst ` set (lp_forward lp)" by (simp_all add: proxy_inv_def)
  note l = listen_watch_notify_loop [OF n a b, of "[RemoveSource (listen_watch (lp_prx lp))]"]
  note g = listen_watch_notify_fields [OF n]
  have "lp' = \<lparr>lp_prx = prx', lp_forward = []\<rparr>"
    using st PDisable on n l by (simp add: proxy_disable_def)
  then show ?thesis using g by (simp add: proxy_idle_def)
next
  case (PListenReady env cond)
  obtain keep prx' acts where ce: "connect_event env cond (lp_prx lp) = Some (keep, prx', acts)"
    using st PListenReady by (auto split: option.splits)
  from inv have a: "fst ` set (lp_forward lp) \<subseteq> {rfcomm_watch (lp_prx lp), local_watch (lp_prx lp)}"
    and b: "0 \<notin> fst ` set (lp_forward lp)" by (simp_all add: proxy_inv_def)
  have nk: "\<not> keep"
  proof
    assume keep
    then have "listen_watch (lp_prx lp') = listen_watch (lp_prx lp)"
      using connect_event_cases [OF ce] st PListenReady ce by auto
    with on off show False by simp
  qed
  with connect_event_cases [OF ce] have p: "prx' = lp_prx lp" and f: "forward_watches acts = []"
    by auto
  obtain prx'' acts' where n: "listen_watch_notify (lp_prx lp) = (prx'', acts')"
    by (cases "listen_watch_notify (lp_prx lp)") auto
  note l = listen_watch_notify_loop [OF n a b, of acts]
  note g = listen_watch_notify_fields [OF n]
  have "lp' = \<lparr>lp_prx = prx'', lp_forward = []\<rparr>"
    using st PListenReady ce nk p n l f by simp
  then show ?thesis using g by (simp add: proxy_idle_def)
next
  case (PForwardReady i cond rs ws)
  have "lp_prx lp' = lp_prx lp" using st PForwardReady by (auto split: option.splits if_splits)
  with on off show ?thesis by simp
next
  case (PSetSerialParameters r d st' p)
  obtain ti where "fst (proxy_set_serial_params (lp_prx lp) r d st' p) = (lp_prx lp)\<lparr>proxy_ti := ti\<rparr>"
    using proxy_set_serial_params_proxy_ti by blast
  with on off st PSetSerialParameters show ?thesis by auto
qed

lemma proxy_step_idle:
  assumes idle: "proxy_idle lp" and ok: "proxy_event_ok ev lp" and st: "proxy_step ev lp = Some lp'"
    and none: "lp_forward lp' = []"
  shows "proxy_idle lp'"
proof (cases ev)
  case (PEnable env)
  obtain prx' r acts where e: "proxy_enable env (lp_prx lp) = (prx', r, acts)"
    by (cases "proxy_enable env (lp_prx lp)") auto
  have "lp' = \<lparr>lp_prx = prx', lp_forward = lp_forward lp\<rparr>"
    using st PEnable e proxy_enable_loop(1) [OF e, of "lp_forward lp"] by simp
  then show ?thesis using idle proxy_enable_loop(2,3) [OF e] by (simp add: proxy_idle_def)
next
  case PDisable
  then show ?thesis using idle st none
    by (auto simp: proxy_idle_def proxy_disable_def listen_watch_notify_def split: if_splits)
next
  case (PListenReady env cond)
  obtain keep prx' acts where ce: "connect_event env cond (lp_prx lp) = Some (keep, prx', acts)"
    using st PListenReady by (auto split: option.splits)
  have "rfcomm_watch (lp_prx lp') = 0 \<and> local_watch (lp_prx lp') = 0"
    using connect_event_cases [OF ce] st PListenReady ce idle none
    by (auto simp: proxy_idle_def listen_watch_notify_def main_loop_sources_def
        forward_watches_append split: if_splits)
  with none show ?thesis by (simp add: proxy_idle_def)
next
  case (PForwardReady i cond rs ws)
  have "lp_prx lp' = lp_prx lp" using st PForwardReady by (auto split: option.splits if_splits)
  with idle none show ?thesis by (simp add: proxy_idle_def)
next
  case (PSetSerialParameters r d st' p)
  obtain ti where "fst (proxy_set_serial_params (lp_prx lp) r d st' p) = (lp_prx lp)\<lparr>proxy_ti := ti\<rparr>"
    using proxy_set_serial_params_proxy_ti by blast
  with idle none st PSetSerialParameters show ?thesis by (auto simp: proxy_idle_def)
qed

text \<open>As long as no peer has been accepted, the proxy has no local watch recorded.\<close>

lemma no_peer_accepted_idle: "no_peer_accepted lp \<Longrightarrow> proxy_idle lp"
proof (induction rule: no_peer_accepted.induct)
  case (fresh_tty src uuid128 address sys ti)
  show ?case by (simp add: proxy_idle_def proxy_tty_register_def)
next
  case (fresh_socket src uuid128 address)
  show ?case by (simp add: proxy_idle_def proxy_socket_register_def)
next
  case (fresh_tcp src uuid128 address)
  show ?case by (simp add: proxy_idle_def proxy_tcp_register_def)
next
  case (stopped_listening lp ev lp')
  from stopped_listening.hyps(1) have "proxy_inv lp" by (rule proxy_reachable_inv)
  from this stopped_listening.hyps(2,3,4,5) show ?case by (rule proxy_step_stops_listening)
next
  case (still_no_peer lp ev lp')
  from still_no_peer.IH still_no_peer.hyps(2,3,4) show ?case by (rule proxy_step_idle)
qed

subsection \<open>Sample runs of the proxy\<close>

lemma ex_loop_enabled_step:
  "proxy_event_ok (PEnable ex_listen_env) ex_loop_new
   \<and> proxy_step (PEnable ex_listen_env) ex_loop_new = Some ex_loop_enabled"
  by code_simp

lemma ex_loop_connected_step:
  "proxy_event_ok (PListenReady ex_proxy_env_open 1) ex_loop_enabled
   \<and> proxy_step (PListenReady ex_proxy_env_open 1) ex_loop_enabled = Some ex_loop_connected"
  by code_simp

lemma ex_loop_enabled_reachable: "proxy_reachable ex_loop_enabled"
proof -
  have "proxy_reachable ex_loop_new"
    unfolding ex_loop_new_def ex_proxy_new_def by (rule reachable_tty)
  then show ?thesis
    using ex_loop_enabled_step by (blast intro: reachable_proxy_step)
qed

lemma ex_loop_connected_reachable: "proxy_reachable ex_loop_connected"
  using ex_loop_enabled_reachable ex_loop_connected_step by (blast intro: reachable_proxy_step)

lemma ex_loop_enabled_no_peer: "no_peer_accepted ex_loop_enabled"
proof -
  have "no_peer_accepted ex_loop_new"
    unfolding ex_loop_new_def ex_proxy_new_def by (rule fresh_tty)
  moreover have "lp_forward ex_loop_enabled = []" by (simp add: ex_loop_enabled_def)
  ultimately show ?thesis
    using ex_loop_enabled_step by (blast intro: still_no_peer)
qed

text \<open>
  \<open>forward_data\<close> does not reset the watches recorded in the proxy. When the peer
  hangs up, the watch on the RFCOMM side and then the watch on the local side are
  removed by the main loop, and \<open>local_watch\<close> and \<open>rfcomm_watch\<close> keep the
  identifiers of the removed sources until the proxy stops listening: no peer is
  connected, SetSerialParameters is still answered with "Not allowed" and GetInfo
  still says the proxy is connected.
\<close>

lemma local_watch_stale_after_hang_up:
  "proxy_event_ok (PForwardReady 5 G_IO_HUP [IoDone 0] []) ex_loop_connected
   \<and> proxy_step (PForwardReady 5 G_IO_HUP [IoDone 0] []) ex_loop_connected
       = Some (ex_loop_connected\<lparr>lp_forward := [(6, 10, 8)]\<rparr>)
   \<and> proxy_event_ok (PForwardReady 6 G_IO_NVAL [] []) (ex_loop_connected\<lparr>lp_forward := [(6, 10, 8)]\<rparr>)
   \<and> proxy_step (PForwardReady 6 G_IO_NVAL [] []) (ex_loop_connected\<lparr>lp_forward := [(6, 10, 8)]\<rparr>)
       = Some ex_loop_hung_up
   \<and> lp_forward ex_loop_hung_up = []
   \<and> local_watch (lp_prx ex_loop_hung_up) = 6
   \<and> proxy_set_serial_params (lp_prx ex_loop_hung_up) ''9600'' 8 1 ''none''
       = (lp_prx ex_loop_hung_up, ErrFailed ''Not allowed'')
   \<and> (''connected'', VBoolean True) \<in> set (proxy_get_info (lp_prx ex_loop_hung_up))"
  by code_simp

lemma ex_loop_hung_up_reachable: "proxy_reachable ex_loop_hung_up"
proof -
  have "proxy_reachable (ex_loop_connected\<lparr>lp_forward := [(6, 10, 8)]\<rparr>)"
    using ex_loop_connected_reachable local_watch_stale_after_hang_up
    by (blast intro: reachable_proxy_step)
  then show ?thesis
    using local_watch_stale_after_hang_up by (blast intro: reachable_proxy_step)
qed

text \<open>
  The proxy records the forwarding watches of one peer only. When a second peer is
  accepted while the first is connected, the identifiers of the first pair are
  overwritten; Disable then removes the second pair and resets the fields, and the
  first peer stays connected to a proxy that accepts SetSerialParameters.
\<close>

lemma second_accept_overwrites_watches:
  "proxy_step (PListenReady ex_proxy_env_second 1) ex_loop_connected
     = Some \<lparr>lp_prx = ex_proxy\<lparr>prx_dst := ''00:1A:7D:DA:71:14'', rfcomm_watch := 7, local_watch := 9\<rparr>,
             lp_forward = [(5, 8, 10), (6, 10, 8), (7, 11, 12), (9, 12, 11)]\<rparr>
   \<and> proxy_step PDisable
        \<lparr>lp_prx = ex_proxy\<lparr>prx_dst := ''00:1A:7D:DA:71:14'', rfcomm_watch := 7, local_watch := 9\<rparr>,
         lp_forward = [(5, 8, 10), (6, 10, 8), (7, 11, 12), (9, 12, 11)]\<rparr>
     = Some \<lparr>lp_prx = ex_proxy\<lparr>prx_dst := ''00:1A:7D:DA:71:14'', listen_watch := 0, record_id := 0\<rparr>,
             lp_forward = [(5, 8, 10), (6, 10, 8)]\<rparr>
   \<and> snd (proxy_set_serial_params
        (ex_proxy\<lparr>prx_dst := ''00:1A:7D:DA:71:14'', listen_watch := 0, record_id := 0\<rparr>)
        ''9600'' 8 1 ''none'') = MethodReturn []"
  by code_simp

text \<open>
  C7 (as stated) fails in its last part but one: GetInfo reports the UUID, the local
  address, the channel, the enabled and connected flags and the peer address, and no
  line setting. Two successful calls of SetSerialParameters that store different
  settings are followed by the same answer of GetInfo.
\<close>

theorem get_info_hides_line_settings_counterexample:
  "snd (proxy_set_serial_params ex_proxy ''115200'' 7 2 ''even'') = MethodReturn []
   \<and> snd (proxy_set_serial_params ex_proxy ''9600'' 8 1 ''none'') = MethodReturn []
   \<and> proxy_ti (fst (proxy_set_serial_params ex_proxy ''115200'' 7 2 ''even''))
       \<noteq> proxy_ti (fst (proxy_set_serial_params ex_proxy ''9600'' 8 1 ''none''))
   \<and> proxy_get_info (fst (proxy_set_serial_params ex_proxy ''115200'' 7 2 ''even''))
       = proxy_get_info (fst (proxy_set_serial_params ex_proxy ''9600'' 8 1 ''none''))
   \<and> proxy_get_info (fst (proxy_set_serial_params ex_proxy ''115200'' 7 2 ''even''))
       = [(''uuid'', VString ''00001101-0000-1000-8000-00805F9B34FB''),
          (''address'', VString ''/dev/ttyS0''), (''channel'', VByte 1),
          (''enabled'', VBoolean True), (''connected'', VBoolean False)]"
  by code_simp

text \<open>
  C7 (amended). For a proxy that serves one peer at a time, SetSerialParameters is
  rejected (Failed, "Not allowed") whenever a peer is connected, that is, while a
  forwarding watch is left. When no peer has been accepted since the proxy was created
  or last stopped listening, a call with a baud rate of the supported-rate table, 5 to
  8 data bits, 1 or 2 stop bits and a parity among even, odd, mark, none and space
  succeeds and stores the line settings: in the control flags the character size, the
  stop bit, the parity bits, \<open>CLOCAL\<close> and \<open>CREAD\<close> and the code of the rate, in the
  two speed fields that code, and \<open>IBAUD0\<close> cleared in the input flags; any other call
  is then rejected with InvalidArguments and leaves the proxy unchanged. The stored
  settings are those applied when the local device is opened for the next peer. The
  answer of GetInfo does not depend on them. (Nothing is said of a call made after a
  peer has hung up and before the proxy stops listening, nor of a proxy that accepts a
  second peer while the first is connected.)
\<close>

theorem set_serial_parameters:
  "(proxy_reachable lp \<and> lp_forward lp \<noteq> [] \<longrightarrow>
       proxy_set_serial_params (lp_prx lp) r d st p = (lp_prx lp, ErrFailed ''Not allowed''))
   \<and> (no_peer_accepted lp \<and> valid_serial_params r d st p
        \<and> map_of supported_speed r = Some speed \<longrightarrow>
       proxy_set_serial_params (lp_prx lp) r d st p
         = ((lp_prx lp)\<lparr>proxy_ti := (proxy_ti (lp_prx lp))
              \<lparr>c_iflag := c_iflag (proxy_ti (lp_prx lp)) AND NOT 0x80000000,
               c_cflag :=
                 (let c0 = c_cflag (proxy_ti (lp_prx lp));
                      c1 = (c0 AND NOT 0x30)
                             OR (if d = 5 then 0x00 else if d = 6 then 0x10
                                 else if d = 7 then 0x20 else 0x30);
                      c2 = (if st = 1 then c1 AND NOT 0x40 else c1 OR 0x40);
                      c3 = (if strcasecmp ''even'' p = 0 then (c2 OR 0x100) AND NOT 0x200
                            else if strcasecmp ''odd'' p = 0 then (c2 OR 0x100) OR 0x200
                            else if strcasecmp ''mark'' p = 0 then c2 OR 0x100
                            else c2 AND NOT 0x100)
                  in ((c3 OR 0x880) AND NOT 0x100F) OR speed),
               c_ispeed := speed, c_ospeed := speed\<rparr>\<rparr>,
            MethodReturn []))
   \<and> (no_peer_accepted lp \<and> \<not> valid_serial_params r d st p \<longrightarrow>
       fst (proxy_set_serial_params (lp_prx lp) r d st p) = lp_prx lp
       \<and> (\<exists>msg. snd (proxy_set_serial_params (lp_prx lp) r d st p) = ErrInvalidArguments msg))
   \<and> proxy_get_info (fst (proxy_set_serial_params prx r d st p)) = proxy_get_info prx
   \<and> (prx_type prx = TTY_PROXY \<and> 0 \<le> sys_ret (penv_open env) \<longrightarrow>
       (\<exists>lsk acts. local_connect env prx = Some (lsk, acts)
          \<and> Tcsetattr (sys_ret (penv_open env)) (proxy_ti prx) \<in> set acts))"
proof (intro conjI impI)
  assume "proxy_reachable lp \<and> lp_forward lp \<noteq> []"
  then have "local_watch (lp_prx lp) \<noteq> 0" by (simp add: peer_connected_local_watch)
  then show "proxy_set_serial_params (lp_prx lp) r d st p = (lp_prx lp, ErrFailed ''Not allowed'')"
    by (simp add: proxy_set_serial_params_cases)
next
  assume h: "no_peer_accepted lp \<and> valid_serial_params r d st p
        \<and> map_of supported_speed r = Some speed"
  then have "proxy_idle lp" by (simp add: no_peer_accepted_idle)
  then have lw: "local_watch (lp_prx lp) = 0" by (simp add: proxy_idle_def)
  from h have v: "5 \<le> d" "d \<le> 8" "st = 1 \<or> st = 2"
    "list_ex (\<lambda>q. strcasecmp q p = 0) [''even'', ''odd'', ''mark'', ''none'', ''space'']"
    and sp: "map_of supported_speed r = Some speed"
    by (simp_all add: valid_serial_params_def)
  from lw sp v show "proxy_set_serial_params (lp_prx lp) r d st p
         = ((lp_prx lp)\<lparr>proxy_ti := (proxy_ti (lp_prx lp))
              \<lparr>c_iflag := c_iflag (proxy_ti (lp_prx lp)) AND NOT 0x80000000,
               c_cflag :=
                 (let c0 = c_cflag (proxy_ti (lp_prx lp));
                      c1 = (c0 AND NOT 0x30)
                             OR (if d = 5 then 0x00 else if d = 6 then 0x10
                                 else if d = 7 then 0x20 else 0x30);
                      c2 = (if st = 1 then c1 AND NOT 0x40 else c1 OR 0x40);
                      c3 = (if strcasecmp ''even'' p = 0 then (c2 OR 0x100) AND NOT 0x200
                            else if strcasecmp ''odd'' p = 0 then (c2 OR 0x100) OR 0x200
                            else if strcasecmp ''mark'' p = 0 then c2 OR 0x100
                            else c2 AND NOT 0x100)
                  in ((c3 OR 0x880) AND NOT 0x100F) OR speed),
               c_ispeed := speed, c_ospeed := speed\<rparr>\<rparr>,
            MethodReturn [])"
    by (rule proxy_set_serial_params_stored)
next
  assume h: "no_peer_accepted lp \<and> \<not> valid_serial_params r d st p"
  then have "proxy_idle lp" by (simp add: no_peer_accepted_idle)
  then have lw: "local_watch (lp_prx lp) = 0" by (simp add: proxy_idle_def)
  from lw h have "fst (proxy_set_serial_params (lp_prx lp) r d st p) = lp_prx lp
       \<and> (\<exists>msg. snd (proxy_set_serial_params (lp_prx lp) r d st p) = ErrInvalidArguments msg)"
    by (simp add: proxy_set_serial_params_invalid)
  then show "fst (proxy_set_serial_params (lp_prx lp) r d st p) = lp_prx lp"
    and "\<exists>msg. snd (proxy_set_serial_params (lp_prx lp) r d st p) = ErrInvalidArguments msg"
    by simp_all
next
  obtain ti where "fst (proxy_set_serial_params prx r d st p) = prx\<lparr>proxy_ti := ti\<rparr>"
    using proxy_set_serial_params_proxy_ti by blast
  then show "proxy_get_info (fst (proxy_set_serial_params prx r d st p)) = proxy_get_info prx"
    by simp
next
  assume "prx_type prx = TTY_PROXY \<and> 0 \<le> sys_ret (penv_open env)"
  then show "\<exists>lsk acts. local_connect env prx = Some (lsk, acts)
          \<and> Tcsetattr (sys_ret (penv_open env)) (proxy_ti prx) \<in> set acts"
    by (auto simp: local_connect_def tty_open_def Let_def)
qed

theorem set_serial_parameters_witness:
  "(proxy_reachable ex_loop_connected \<and> lp_forward ex_loop_connected \<noteq> [])
   \<and> proxy_set_serial_params (lp_prx ex_loop_connected) ''9600'' 8 1 ''none''
        = (lp_prx ex_loop_connected, ErrFailed ''Not allowed'')
   \<and> (no_peer_accepted ex_loop_enabled \<and> valid_serial_params ''115200'' 7 2 ''even''
        \<and> map_of supported_speed ''115200'' = Some 0x1002)
   \<and> proxy_set_serial_params ex_proxy ''115200'' 7 2 ''even''
        = (ex_proxy\<lparr>proxy_ti := \<lparr>c_iflag = 0, c_oflag = 0, c_cflag = 0x19E2, c_lflag = 0,
              c_cc = [], c_ispeed = 0x1002, c_ospeed = 0x1002\<rparr>\<rparr>, MethodReturn [])
   \<and> (no_peer_accepted ex_loop_enabled \<and> \<not> valid_serial_params ''115200'' 9 2 ''even'')
   \<and> fst (proxy_set_serial_params ex_proxy ''115200'' 9 2 ''even'') = ex_proxy
   \<and> (\<exists>msg. snd (proxy_set_serial_params ex_proxy ''115200'' 9 2 ''even'') = ErrInvalidArguments msg)
   \<and> proxy_get_info (fst (proxy_set_serial_params ex_proxy ''115200'' 7 2 ''even''))
        = proxy_get_info ex_proxy
   \<and> (prx_type (fst (proxy_set_serial_params ex_proxy ''115200'' 7 2 ''even'')) = TTY_PROXY
        \<and> 0 \<le> sys_ret (penv_open ex_proxy_env_open))
   \<and> (\<exists>lsk acts.
          local_connect ex_proxy_env_open (fst (proxy_set_serial_params ex_proxy ''115200'' 7 2 ''even''))
            = Some (lsk, acts)
          \<and> Tcsetattr 10 \<lparr>c_iflag = 0, c_oflag = 0, c_cflag = 0x19E2, c_lflag = 0,
               c_cc = [], c_ispeed = 0x1002, c_ospeed = 0x1002\<rparr> \<in> set acts)"
proof -
  let ?prx' = "fst (proxy_set_serial_params ex_proxy ''115200'' 7 2 ''even'')"
  have h1: "proxy_reachable ex_loop_connected \<and> lp_forward ex_loop_connected \<noteq> []"
    using ex_loop_connected_reachable by (simp add: ex_loop_connected_def)
  have v: "valid_serial_params ''115200'' 7 2 ''even''" by code_simp
  have m: "map_of supported_speed ''115200'' = Some 0x1002" by code_simp
  have h2: "no_peer_accepted ex_loop_enabled \<and> valid_serial_params ''115200'' 7 2 ''even''
        \<and> map_of supported_speed ''115200'' = Some 0x1002"
    using ex_loop_enabled_no_peer v m by simp
  have nv: "\<not> valid_serial_params ''115200'' 9 2 ''even''" by code_simp
  have h3: "no_peer_accepted ex_loop_enabled \<and> \<not> valid_serial_params ''115200'' 9 2 ''even''"
    using ex_loop_enabled_no_peer nv by simp
  have ty: "prx_type ?prx' = TTY_PROXY" by code_simp
  have h4: "prx_type ?prx' = TTY_PROXY \<and> 0 \<le> sys_ret (penv_open ex_proxy_env_open)"
    using ty by (simp add: ex_proxy_env_open_def sys_ret_def)
  have e: "lp_prx ex_loop_enabled = ex_proxy" by (simp add: ex_loop_enabled_def)
  have val: "((ex_proxy\<lparr>proxy_ti := (proxy_ti ex_proxy)
              \<lparr>c_iflag := c_iflag (proxy_ti ex_proxy) AND NOT 0x80000000,
               c_cflag :=
                 (let c0 = c_cflag (proxy_ti ex_proxy);
                      c1 = (c0 AND NOT 0x30)
                             OR (if (7 :: 8 word) = 5 then 0x00 else if (7 :: 8 word) = 6 then 0x10
                                 else if (7 :: 8 word) = 7 then 0x20 else 0x30);
                      c2 = (if (2 :: 8 word) = 1 then c1 AND NOT 0x40 else c1 OR 0x40);
                      c3 = (if strcasecmp ''even'' ''even'' = 0 then (c2 OR 0x100) AND NOT 0x200
                            else if strcasecmp ''odd'' ''even'' = 0 then (c2 OR 0x100) OR 0x200
                            else if strcasecmp ''mark'' ''even'' = 0 then c2 OR 0x100
                            else c2 AND NOT 0x100)
                  in ((c3 OR 0x880) AND NOT 0x100F) OR 0x1002),
               c_ispeed := 0x1002, c_ospeed := 0x1002\<rparr>\<rparr>))
        = ex_proxy\<lparr>proxy_ti := \<lparr>c_iflag = 0, c_oflag = 0, c_cflag = 0x19E2, c_lflag = 0,
              c_cc = [], c_ispeed = 0x1002, c_ospeed = 0x1002\<rparr>\<rparr>"
    by code_simp
  have pt: "proxy_ti ?prx' = \<lparr>c_iflag = 0, c_oflag = 0, c_cflag = 0x19E2, c_lflag = 0,
              c_cc = [], c_ispeed = 0x1002, c_ospeed = 0x1002\<rparr>" by code_simp
  have op: "sys_ret (penv_open ex_proxy_env_open) = 10"
    by (simp add: ex_proxy_env_open_def sys_ret_def)
  note a = set_serial_parameters [of ex_loop_connected "''9600''" 8 1 "''none''" 0 ex_proxy
             ex_proxy_env_open]
  note b = set_serial_parameters [of ex_loop_enabled "''115200''" 7 2 "''even''" "0x1002" ex_proxy
             ex_proxy_env_open]
  note c = set_serial_parameters [of ex_loop_enabled "''115200''" 9 2 "''even''" 0 "?prx'"
             ex_proxy_env_open]
  from a h1 have a': "proxy_set_serial_params (lp_prx ex_loop_connected) ''9600'' 8 1 ''none''
        = (lp_prx ex_loop_connected, ErrFailed ''Not allowed'')" by blast
  from b h2 have b': "proxy_set_serial_params ex_proxy ''115200'' 7 2 ''even''
        = (ex_proxy\<lparr>proxy_ti := \<lparr>c_iflag = 0, c_oflag = 0, c_cflag = 0x19E2, c_lflag = 0,
              c_cc = [], c_ispeed = 0x1002, c_ospeed = 0x1002\<rparr>\<rparr>, MethodReturn [])"
    unfolding e val by blast
  from b have b'': "proxy_get_info (fst (proxy_set_serial_params ex_proxy ''115200'' 7 2 ''even''))
        = proxy_get_info ex_proxy" by blast
  from c h3 have c': "fst (proxy_set_serial_params ex_proxy ''115200'' 9 2 ''even'') = ex_proxy
   \<and> (\<exists>msg. snd (proxy_set_serial_params ex_proxy ''115200'' 9 2 ''even'') = ErrInvalidArguments msg)"
    unfolding e by blast
  from c h4 have c'': "\<exists>lsk acts. local_connect ex_proxy_env_open ?prx' = Some (lsk, acts)
          \<and> Tcsetattr 10 \<lparr>c_iflag = 0, c_oflag = 0, c_cflag = 0x19E2, c_lflag = 0,
               c_cc = [], c_ispeed = 0x1002, c_ospeed = 0x1002\<rparr> \<in> set acts"
    unfolding pt op by blast
  from h1 h2 h3 h4 a' b' b'' c' c'' show ?thesis by blast
qed

subsection \<open>Accept\<close>

text \<open>
  When the local transport cannot be opened or connected, the accept handler having a
  result, the accepted connection is closed and the proxy stays enabled: the callback
  returns \<open>TRUE\<close>, so the listen watch stays registered; the watch fields and the
  record identifier are unchanged; no forwarding watch is added and the service record
  is not removed.
\<close>

lemma accept_local_failure_keeps_listening:
  assumes "cond AND G_IO_NVAL = 0" and "cond AND (G_IO_ERR OR G_IO_HUP) = 0"
    and "0 \<le> sys_ret (penv_accept env)"
    and "local_connect env (prx\<lparr>prx_dst := penv_raddr env\<rparr>) = Some (lsk, acts)" and "lsk < 0"
  shows "connect_event env cond prx
           = Some (True, prx\<lparr>prx_dst := penv_raddr env\<rparr>,
                   Accept # acts @ [Close (sys_ret (penv_accept env))])
       \<and> \<not> list_ex is_forward_watch (Accept # acts @ [Close (sys_ret (penv_accept env))])
       \<and> \<not> list_ex is_record_removal (Accept # acts @ [Close (sys_ret (penv_accept env))])"
proof -
  have eq: "connect_event env cond prx
           = Some (True, prx\<lparr>prx_dst := penv_raddr env\<rparr>,
                   Accept # acts @ [Close (sys_ret (penv_accept env))])"
    using assms by (simp add: connect_event_def Let_def)
  show ?thesis
    using forward_watches_local_connect [OF assms(4)] by (simp add: eq)
qed

text \<open>
  C8. On an accept event, when the local transport of the proxy cannot be opened or
  connected, the accepted connection has to be closed and the proxy has to stay
  enabled. For a proxy on a socket of the abstract namespace whose name has 106 bytes
  (an address of 109 bytes) the handler does that: when the connect is refused it
  closes both sockets, returns \<open>TRUE\<close> and leaves the watches and the record as they
  were. For a name of 107 bytes \<open>unix_socket_connect\<close> has copied the address past
  the end of \<open>sun_path\<close> before it makes any system call: the handler has no
  defined result, whatever the outcome of the connect. The same holds for an address
  in the file system of 108 bytes, one of 107 bytes being copied within the array.
\<close>

theorem accept_overruns_socket_address:
  "length (prx_address (ex_proxy_unix 106)) = 109
   \<and> listen_watch (ex_proxy_unix 106) = 4
   \<and> connect_event ex_proxy_env_refused 1 (ex_proxy_unix 106)
       = Some (True, (ex_proxy_unix 106)\<lparr>prx_dst := ''00:1A:7D:DA:71:13''\<rparr>,
               [Accept, UnixConnect (CHR 0x00 # replicate 106 (CHR ''s'')), Close 9, Close 8])
   \<and> length (prx_address (ex_proxy_unix 107)) = 110
   \<and> listen_watch (ex_proxy_unix 107) = 4
   \<and> unix_socket_connect ex_proxy_env_refused (prx_address (ex_proxy_unix 107)) = None
   \<and> connect_event ex_proxy_env_refused 1 (ex_proxy_unix 107) = None
   \<and> connect_event ex_proxy_env 1 (ex_proxy_unix 107) = None
   \<and> unix_socket_connect ex_proxy_env_refused (CHR ''/'' # replicate 106 (CHR ''s''))
       = Some (- 111, [UnixConnect (CHR ''/'' # replicate 106 (CHR ''s'')), Close 9])
   \<and> unix_socket_connect ex_proxy_env_refused (CHR ''/'' # replicate 107 (CHR ''s'')) = None"
  by code_simp

end
